(* ===== verification/Prelude.thy ===== *)
theory Prelude
  imports Main "HOL-Library.AList" "HOL-Library.Multiset"
begin

text \<open>
  Shared foundations of the development: the model of Go's \<open>map\<close> type with its unspecified
  iteration order, the fact collections the component theories feed, and generic lemmas on
  lists and association lists.

  A Go map is an association list with distinct keys. Reading, storing and deleting are
  \<open>gm_get\<close>, \<open>gm_put\<close> and \<open>gm_del\<close>. Go visits the entries of a map in an order that is not
  specified and may differ between two loops over the same map: a loop of the source that ranges
  over a map takes a \<^emph>\<open>range order\<close>, a function that rearranges the entries, as an argument
  (\<open>is_range_order\<close> says that it only rearranges), so that the theorems hold for every order the
  runtime may choose.
\<close>

section \<open>Fact collections\<close>

named_theorems go_eval \<open>definitions of the Go standard library model, for evaluating closed terms\<close>
named_theorems gm_simps \<open>rewrite rules of the Go map model\<close>

section \<open>Go maps\<close>

type_synonym ('k, 'v) gomap = "('k \<times> 'v) list"

definition gm_get :: "('k, 'v) gomap \<Rightarrow> 'k \<Rightarrow> 'v option" where
  "gm_get m = map_of m"

definition gm_put :: "'k \<Rightarrow> 'v \<Rightarrow> ('k, 'v) gomap \<Rightarrow> ('k, 'v) gomap" where
  "gm_put k v m = AList.update k v m"

definition gm_del :: "'k \<Rightarrow> ('k, 'v) gomap \<Rightarrow> ('k, 'v) gomap" where
  "gm_del k m = AList.delete k m"

definition gm_ok :: "('k, 'v) gomap \<Rightarrow> bool" where
  "gm_ok m = distinct (map fst m)"

abbreviation gm_keys :: "('k, 'v) gomap \<Rightarrow> 'k set" where
  "gm_keys m \<equiv> fst ` set m"

text \<open>The zero value of a string-valued map read at a missing key is the empty string.\<close>

definition gm_str :: "('k, string) gomap \<Rightarrow> 'k \<Rightarrow> string" where
  "gm_str m k = (case gm_get m k of None \<Rightarrow> [] | Some v \<Rightarrow> v)"

lemma gm_get_Nil [simp]: "gm_get [] k = None"
  by (simp add: gm_get_def)

lemma gm_get_Cons [simp]: "gm_get ((a, b) # m) k = (if a = k then Some b else gm_get m k)"
  by (simp add: gm_get_def)

lemma gm_get_put [simp]: "gm_get (gm_put k v m) = (gm_get m)(k \<mapsto> v)"
  by (rule ext) (simp add: gm_get_def gm_put_def update_conv')

lemma gm_get_del [simp]: "gm_get (gm_del k m) = (gm_get m)(k := None)"
  by (rule ext) (simp add: gm_get_def gm_del_def delete_conv')

lemma gm_ok_Nil [simp, intro]: "gm_ok []"
  by (simp add: gm_ok_def)

lemma gm_ok_Cons [simp]: "gm_ok ((a, b) # m) \<longleftrightarrow> a \<notin> gm_keys m \<and> gm_ok m"
  by (auto simp: gm_ok_def)

lemma gm_ok_put [simp, intro]: "gm_ok m \<Longrightarrow> gm_ok (gm_put k v m)"
  by (simp add: gm_ok_def gm_put_def distinct_update)

lemma gm_ok_del [simp, intro]: "gm_ok m \<Longrightarrow> gm_ok (gm_del k m)"
  by (simp add: gm_ok_def gm_del_def distinct_delete)

lemma gm_keys_get: "k \<in> gm_keys m \<longleftrightarrow> gm_get m k \<noteq> None"
  by (simp add: gm_get_def map_of_eq_None_iff)

lemma dom_gm_get: "dom (gm_get m) = gm_keys m"
  by (simp add: gm_get_def dom_map_of_conv_image_fst)

lemma gm_keys_put [simp]: "gm_keys (gm_put k v m) = insert k (gm_keys m)"
  by (simp add: gm_put_def dom_update)

lemma gm_keys_del [simp]: "gm_keys (gm_del k m) = gm_keys m - {k}"
  by (simp add: gm_del_def delete_keys flip: set_map)

lemma gm_get_in_set: "gm_get m k = Some v \<Longrightarrow> (k, v) \<in> set m"
  by (simp add: gm_get_def map_of_SomeD)

lemma in_set_gm_get: "gm_ok m \<Longrightarrow> (k, v) \<in> set m \<Longrightarrow> gm_get m k = Some v"
  by (simp add: gm_get_def gm_ok_def)

lemma in_set_iff_gm_get: "gm_ok m \<Longrightarrow> (k, v) \<in> set m \<longleftrightarrow> gm_get m k = Some v"
  by (auto intro: in_set_gm_get gm_get_in_set)

lemma gm_values: "gm_ok m \<Longrightarrow> snd ` set m = ran (gm_get m)"
  unfolding gm_get_def gm_ok_def by (simp add: ran_distinct)

lemma gm_get_map: "gm_get (map (\<lambda>(k, v). (k, f k v)) m) k = map_option (f k) (gm_get m k)"
  by (induction m) auto

lemma gm_ok_map: "gm_ok (map (\<lambda>(k, v). (k, f k v)) m) = gm_ok m"
  by (simp add: gm_ok_def case_prod_beta o_def)

lemmas gm_defs = gm_get_def gm_put_def gm_del_def gm_ok_def gm_str_def

declare gm_get_put [gm_simps] gm_get_del [gm_simps] gm_keys_put [gm_simps] gm_keys_del [gm_simps]

section \<open>Iteration order\<close>

type_synonym ('k, 'v) range_order = "('k, 'v) gomap \<Rightarrow> ('k, 'v) gomap"

definition is_range_order :: "('k, 'v) range_order \<Rightarrow> bool" where
  "is_range_order rng = (\<forall>m. mset (rng m) = mset m)"

lemma range_order_mset: "is_range_order rng \<Longrightarrow> mset (rng m) = mset m"
  by (simp add: is_range_order_def)

lemma range_order_set [simp]: "is_range_order rng \<Longrightarrow> set (rng m) = set m"
  by (metis is_range_order_def set_mset_mset)

lemma range_order_length [simp]: "is_range_order rng \<Longrightarrow> length (rng m) = length m"
  by (metis is_range_order_def size_mset)

lemma range_order_ok [simp]: "is_range_order rng \<Longrightarrow> gm_ok (rng m) \<longleftrightarrow> gm_ok m"
  unfolding gm_ok_def
  by (metis is_range_order_def mset_map mset_eq_imp_distinct_iff)

lemma range_order_get [simp]:
  "is_range_order rng \<Longrightarrow> gm_ok m \<Longrightarrow> gm_get (rng m) = gm_get m"
  unfolding gm_get_def gm_ok_def
  by (metis is_range_order_def map_of_inject_set mset_map mset_eq_imp_distinct_iff mset_eq_setD)

lemma range_order_id [simp, intro]: "is_range_order (\<lambda>m. m)"
  by (simp add: is_range_order_def)

lemma range_order_rev [simp, intro]: "is_range_order rev"
  by (simp add: is_range_order_def)

lemma find_Some_in: "find P xs = Some x \<Longrightarrow> x \<in> set xs \<and> P x"
  by (auto simp: find_Some_iff)

section \<open>The map interface\<close>

text \<open>
  What the components rely on when they fill a map entry by entry: the laws of lookup after a
  store and after a delete. The facts about loops are proved once from these laws.
\<close>

locale store_interface =
  fixes get :: "'m \<Rightarrow> 'k \<Rightarrow> 'v option"
    and put :: "'k \<Rightarrow> 'v \<Rightarrow> 'm \<Rightarrow> 'm"
    and del :: "'k \<Rightarrow> 'm \<Rightarrow> 'm"
    and ok :: "'m \<Rightarrow> bool"
  assumes get_put: "get (put k v m) = (get m)(k \<mapsto> v)"
    and get_del: "get (del k m) = (get m)(k := None)"
    and ok_put: "ok m \<Longrightarrow> ok (put k v m)"
    and ok_del: "ok m \<Longrightarrow> ok (del k m)"
begin

lemma put_all_get:
  "get (fold (\<lambda>x. put (key x) (val x)) xs m) k =
     (case find (\<lambda>x. key x = k) (rev xs) of Some x \<Rightarrow> Some (val x) | None \<Rightarrow> get m k)"
  by (induction xs rule: rev_induct) (auto simp: get_put)

lemma put_all_ok: "ok m \<Longrightarrow> ok (fold (\<lambda>x. put (key x) (val x)) xs m)"
  by (induction xs arbitrary: m) (auto intro: ok_put)

lemma put_all_dom: "dom (get (fold (\<lambda>x. put (key x) (val x)) xs m)) = key ` set xs \<union> dom (get m)"
  by (induction xs arbitrary: m) (auto simp: get_put)

lemma del_all_get: "get (fold del ks m) k = (if k \<in> set ks then None else get m k)"
  by (induction ks arbitrary: m) (auto simp: get_del)

lemma del_all_ok: "ok m \<Longrightarrow> ok (fold del ks m)"
  by (induction ks arbitrary: m) (auto intro: ok_del)

lemma put_all_commute:
  assumes "distinct (map key xs)" and "mset xs = mset ys"
  shows "get (fold (\<lambda>x. put (key x) (val x)) xs m) = get (fold (\<lambda>x. put (key x) (val x)) ys m)"
proof -
  have d: "distinct (map key ys)"
    using assms by (metis mset_map mset_eq_imp_distinct_iff)
  have uniq: "find (\<lambda>x. key x = k) zs = Some x \<longleftrightarrow> x \<in> set zs \<and> key x = k"
    if "distinct (map key zs)" for zs k x
    using that by (induction zs) (auto split: if_splits)
  have "find (\<lambda>x. key x = k) (rev xs) = find (\<lambda>x. key x = k) (rev ys)" for k
  proof -
    have "set xs = set ys" using assms(2) by (rule mset_eq_setD)
    moreover have "distinct (map key (rev xs))" "distinct (map key (rev ys))"
      using assms(1) d by (simp_all flip: rev_map)
    ultimately have "find (\<lambda>x. key x = k) (rev xs) = Some x \<longleftrightarrow> find (\<lambda>x. key x = k) (rev ys) = Some x" for x
      by (simp only: uniq set_rev)
    then show ?thesis by (metis option.exhaust)
  qed
  then show ?thesis by (intro ext) (simp add: put_all_get)
qed

end

interpretation gm: store_interface gm_get gm_put gm_del gm_ok
  by unfold_locales auto

text \<open>A loop that stores the entries of a map into another one.\<close>

definition gm_copy_into :: "('k, 'v) gomap \<Rightarrow> ('k, 'v) gomap \<Rightarrow> ('k, 'v) gomap" where
  "gm_copy_into src dst = fold (\<lambda>kv. gm_put (fst kv) (snd kv)) src dst"

lemma gm_copy_get:
  "gm_ok xs \<Longrightarrow> gm_get (gm_copy_into xs m) k = (case gm_get xs k of Some v \<Rightarrow> Some v | None \<Rightarrow> gm_get m k)"
proof (induction xs arbitrary: m)
  case (Cons x xs)
  obtain a b where x: "x = (a, b)" by (cases x)
  have "gm_get xs a = None" using Cons.prems x gm_keys_get by force
  then show ?case using Cons x by (auto simp: gm_copy_into_def split: option.split)
qed (simp add: gm_copy_into_def)

lemma gm_copy_ok [simp, intro]: "gm_ok m \<Longrightarrow> gm_ok (gm_copy_into xs m)"
  unfolding gm_copy_into_def by (rule gm.put_all_ok)

lemma gm_copy_empty_get: "gm_ok xs \<Longrightarrow> gm_get (gm_copy_into xs []) = gm_get xs"
  by (rule ext) (simp add: gm_copy_get split: option.split)

section \<open>Generic lemmas\<close>


lemma list_all_last: "xs \<noteq> [] \<Longrightarrow> list_all P xs \<longleftrightarrow> list_all P (butlast xs) \<and> P (last xs)"
  by (induction xs) auto

lemma find_map_comp: "find P (map f xs) = map_option f (find (P \<circ> f) xs)"
  by (induction xs) auto

lemma concat_map_filter_set:
  "set (concat (map f xs)) = (\<Union>x \<in> set xs. set (f x))"
  by simp

lemma map_filter_append: "List.map_filter f (xs @ ys) = List.map_filter f xs @ List.map_filter f ys"
  by (simp add: List.map_filter_def)

lemma List_map_filter_set: "y \<in> set (List.map_filter f xs) \<longleftrightarrow> (\<exists>x \<in> set xs. f x = Some y)"
  by (force simp: List.map_filter_def)

text \<open>A loop whose body may fail to have an outcome.\<close>

primrec fold_opt :: "('a \<Rightarrow> 's \<Rightarrow> 's option) \<Rightarrow> 'a list \<Rightarrow> 's \<Rightarrow> 's option" where
  "fold_opt f [] s = Some s"
| "fold_opt f (x # xs) s = Option.bind (f x s) (fold_opt f xs)"

lemma fold_opt_Cons_Some:
  "fold_opt f (x # xs) s = Some s' \<longleftrightarrow> (\<exists>s1. f x s = Some s1 \<and> fold_opt f xs s1 = Some s')"
  by (cases "f x s") auto

lemma fold_opt_invariant:
  assumes "fold_opt f xs s = Some s'" and "I s"
    and "\<And>x s s'. x \<in> set xs \<Longrightarrow> I s \<Longrightarrow> f x s = Some s' \<Longrightarrow> I s'"
  shows "I s'"
  using assms
proof (induction xs arbitrary: s)
  case (Cons x xs)
  then show ?case by (simp only: fold_opt_Cons_Some list.set_intros) (metis list.set_intros)
qed simp

lemma fold_opt_total:
  "(\<And>x s. x \<in> set xs \<Longrightarrow> f x s \<noteq> None) \<Longrightarrow> fold_opt f xs s \<noteq> None"
proof (induction xs arbitrary: s)
  case (Cons x xs)
  then obtain s1 where "f x s = Some s1" by force
  with Cons show ?case by simp
qed simp

lemma those_map_Some: "those (map f xs) = Some ys \<Longrightarrow> y \<in> set ys \<Longrightarrow> \<exists>x \<in> set xs. f x = Some y"
  by (induction xs arbitrary: ys) (auto split: option.splits)

section \<open>Mirrored maps\<close>

text \<open>Two maps that hold the same pairs, one indexed by the left and one by the right component.\<close>

definition mirror :: "('a \<Rightarrow> 'b option) \<Rightarrow> ('b \<Rightarrow> 'a option) \<Rightarrow> bool" where
  "mirror f g \<longleftrightarrow> (\<forall>a b. f a = Some b \<longleftrightarrow> g b = Some a)"

lemma mirrorD: "mirror f g \<Longrightarrow> f a = Some b \<longleftrightarrow> g b = Some a"
  by (simp add: mirror_def)

lemma mirror_inj: "mirror f g \<Longrightarrow> f a = Some b \<Longrightarrow> f a' = Some b \<Longrightarrow> a = a'"
  unfolding mirror_def by (metis option.inject)

lemma mirror_put:
  assumes m: "mirror f g" and "f a = None" and "g b = None"
  shows "mirror (f(a \<mapsto> b)) (g(b \<mapsto> a))"
proof -
  have "f x \<noteq> Some b" "g y \<noteq> Some a" for x y
    using mirrorD [OF m] assms(2,3) by (metis option.distinct(1))+
  with m show ?thesis by (auto simp: mirror_def)
qed

lemma mirror_del:
  assumes m: "mirror f g" and "f a = Some b"
  shows "mirror (f(a := None)) (g(b := None))"
proof -
  have "f x = Some b \<Longrightarrow> x = a" "g y = Some a \<Longrightarrow> y = b" for x y
    using mirrorD [OF m] assms(2) by (metis option.inject)+
  with m show ?thesis by (auto simp: mirror_def)
qed

lemma mirror_ran: "mirror f g \<Longrightarrow> ran f = dom g"
  by (auto simp: mirror_def ran_def dom_def)

end
