(* ===== verification/Allocator.thy ===== *)
theory Allocator
  imports Prelude
begin

text \<open>
  Package \<open>internal/pkg/allocator\<close> (\<open>allocator.go\<close>): port assignments for child exporters. The two
  maps of the allocator are \<open>allocated\<close> (target to port) and \<open>usedPorts\<close> (port to target). Every
  operation runs under the mutex, so the operations of concurrent callers are a sequence. A Go
  \<open>int\<close> has 64 bits; the loop variable of \<open>Allocate\<close> exceeds \<open>endPort\<close> by one at most, so \<open>int\<close> is
  exact for every \<open>endPort\<close> below \<open>2^63 - 1\<close>.
\<close>

section \<open>State and operations\<close>

record PortAllocator =
  startPort :: int
  endPort :: int
  allocated :: "(string, int) gomap"
  usedPorts :: "(int, string) gomap"

datatype allocator_error = ErrInvalidPortRange int int | ErrNoAvailablePorts int int

definition NewPortAllocator :: "int \<Rightarrow> int \<Rightarrow> allocator_error + PortAllocator" where
  "NewPortAllocator start end' =
     (if start \<le> 0 \<or> end' \<le> 0 \<or> end' < start then Inl (ErrInvalidPortRange start end')
      else Inr \<lparr>startPort = start, endPort = end', allocated = [], usedPorts = []\<rparr>)"

text \<open>The search loop of \<open>Allocate\<close>: the first port from \<open>port\<close> on that is not in use.\<close>

function first_free :: "(int, string) gomap \<Rightarrow> int \<Rightarrow> int \<Rightarrow> int option" where
  "first_free used port end' =
     (if port \<le> end'
      then (if gm_get used port = None then Some port else first_free used (port + 1) end')
      else None)"
  by pat_completeness auto
termination
  by (relation "measure (\<lambda>(used, port, end'). nat (end' + 1 - port))") auto

declare first_free.simps [simp del]

definition Allocate :: "PortAllocator \<Rightarrow> string \<Rightarrow> PortAllocator \<times> (allocator_error + int)" where
  "Allocate p targetID =
     (case gm_get (allocated p) targetID of
        Some port \<Rightarrow> (p, Inr port)
      | None \<Rightarrow>
          (case first_free (usedPorts p) (startPort p) (endPort p) of
             Some port \<Rightarrow>
               (p\<lparr>allocated := gm_put targetID port (allocated p),
                  usedPorts := gm_put port targetID (usedPorts p)\<rparr>, Inr port)
           | None \<Rightarrow> (p, Inl (ErrNoAvailablePorts (startPort p) (endPort p)))))"

definition Release :: "PortAllocator \<Rightarrow> string \<Rightarrow> PortAllocator" where
  "Release p targetID =
     (case gm_get (allocated p) targetID of
        Some port \<Rightarrow>
          p\<lparr>allocated := gm_del targetID (allocated p), usedPorts := gm_del port (usedPorts p)\<rparr>
      | None \<Rightarrow> p)"

definition Get :: "PortAllocator \<Rightarrow> string \<Rightarrow> int option" where
  "Get p targetID = gm_get (allocated p) targetID"

definition ActiveAllocations ::
  "(string, int) range_order \<Rightarrow> PortAllocator \<Rightarrow> (string, int) gomap" where
  "ActiveAllocations rng p = gm_copy_into (rng (allocated p)) []"

section \<open>The contract of a resource pool\<close>

text \<open>
  What a client of the allocator relies on: resources are handed out one holder at a time, a
  holder keeps what it has, a refusal means that everything is taken.
\<close>

locale resource_pool =
  fixes acquire :: "'s \<Rightarrow> 'k \<Rightarrow> 's \<times> ('e + 'r)"
    and give_back :: "'s \<Rightarrow> 'k \<Rightarrow> 's"
    and holds :: "'s \<Rightarrow> 'k \<Rightarrow> 'r option"
    and pool :: "'s \<Rightarrow> 'r set"
    and inv :: "'s \<Rightarrow> bool"
  assumes exclusive: "inv s \<Longrightarrow> holds s a = Some r \<Longrightarrow> holds s b = Some r \<Longrightarrow> a = b"
    and from_pool: "inv s \<Longrightarrow> holds s a = Some r \<Longrightarrow> r \<in> pool s"
    and finite_pool: "inv s \<Longrightarrow> finite (pool s)"
    and acquire_inv: "inv s \<Longrightarrow> inv (fst (acquire s k))"
    and acquire_pool: "pool (fst (acquire s k)) = pool s"
    and acquire_ok: "inv s \<Longrightarrow> acquire s k = (s', Inr r) \<Longrightarrow> holds s' = (holds s)(k \<mapsto> r)"
    and acquire_keeps: "inv s \<Longrightarrow> holds s k = Some r \<Longrightarrow> acquire s k = (s, Inr r)"
    and acquire_refused: "inv s \<Longrightarrow> acquire s k = (s', Inl e) \<Longrightarrow> s' = s \<and> holds s k = None \<and> ran (holds s) = pool s"
    and give_back_inv: "inv s \<Longrightarrow> inv (give_back s k)"
    and give_back_pool: "pool (give_back s k) = pool s"
    and give_back_holds: "inv s \<Longrightarrow> holds (give_back s k) = (holds s)(k := None)"
begin

lemma ran_subset: "inv s \<Longrightarrow> ran (holds s) \<subseteq> pool s"
  by (auto simp: ran_def intro: from_pool)

lemma inj_on_dom: "inv s \<Longrightarrow> inj_on (holds s) (dom (holds s))"
  by (auto simp: inj_on_def dom_def intro: exclusive)

text \<open>There are never more holders than resources.\<close>

lemma holders_bound:
  assumes "inv s"
  shows "card (dom (holds s)) \<le> card (pool s)"
proof -
  have "card (dom (holds s)) = card (holds s ` dom (holds s))"
    using inj_on_dom [OF assms] by (simp add: card_image)
  also have "\<dots> = card (Some ` ran (holds s))"
    by (rule arg_cong [of _ _ card]) (force simp: ran_def dom_def)
  also have "\<dots> = card (ran (holds s))" by (simp add: card_image)
  also have "\<dots> \<le> card (pool s)"
    using ran_subset [OF assms] finite_pool [OF assms] by (rule card_mono [rotated])
  finally show ?thesis .
qed

text \<open>Giving one resource back makes the next request of any newcomer succeed.\<close>

lemma acquire_after_give_back:
  assumes "inv s" and "holds s k = Some r"
  shows "\<exists>s' r'. acquire (give_back s k) k' = (s', Inr r')"
proof (rule ccontr)
  assume none: "\<nexists>s' r'. acquire (give_back s k) k' = (s', Inr r')"
  obtain s' x where x: "acquire (give_back s k) k' = (s', x)" by (cases "acquire (give_back s k) k'")
  then obtain e where "acquire (give_back s k) k' = (s', Inl e)" using none by (cases x) auto
  then have "ran (holds (give_back s k)) = pool s"
    using acquire_refused [OF give_back_inv [OF assms(1)]] give_back_pool by metis
  then have "r \<in> ran ((holds s)(k := None))"
    using from_pool [OF assms] give_back_holds [OF assms(1)] by simp
  then show False using exclusive [OF assms] by (auto simp: ran_def split: if_splits)
qed

end

section \<open>The allocator meets the contract\<close>

definition alloc_inv :: "PortAllocator \<Rightarrow> bool" where
  "alloc_inv p \<longleftrightarrow>
     0 < startPort p \<and> startPort p \<le> endPort p
     \<and> gm_ok (allocated p) \<and> gm_ok (usedPorts p)
     \<and> mirror (gm_get (allocated p)) (gm_get (usedPorts p))
     \<and> (\<forall>port t. gm_get (usedPorts p) port = Some t \<longrightarrow> startPort p \<le> port \<and> port \<le> endPort p)"

definition port_range :: "PortAllocator \<Rightarrow> int set" where
  "port_range p = {startPort p .. endPort p}"

lemma first_free_Some:
  assumes "first_free used port e = Some q"
  shows "port \<le> q" and "q \<le> e" and "gm_get used q = None"
    and "\<And>r. port \<le> r \<Longrightarrow> r < q \<Longrightarrow> gm_get used r \<noteq> None"
proof -
  have "port \<le> q \<and> q \<le> e \<and> gm_get used q = None \<and> (\<forall>r. port \<le> r \<and> r < q \<longrightarrow> gm_get used r \<noteq> None)"
    using assms
  proof (induction used port e rule: first_free.induct)
    case (1 used port e)
    then have le: "port \<le> e" by (auto simp: first_free.simps [of used port e] split: if_splits)
    show ?case
    proof (cases "gm_get used port = None")
      case False
      with 1 le have IH: "port + 1 \<le> q \<and> q \<le> e \<and> gm_get used q = None
          \<and> (\<forall>r. port + 1 \<le> r \<and> r < q \<longrightarrow> gm_get used r \<noteq> None)"
        by (simp add: first_free.simps [of used port e])
      have "r = port \<or> port + 1 \<le> r" if "port \<le> r" for r using that by linarith
      with IH False show ?thesis by fastforce
    qed (use 1 le in \<open>auto simp: first_free.simps [of used port e]\<close>)
  qed
  then show "port \<le> q" "q \<le> e" "gm_get used q = None"
    "\<And>r. port \<le> r \<Longrightarrow> r < q \<Longrightarrow> gm_get used r \<noteq> None"
    by blast+
qed

lemma first_free_None:
  "first_free used port e = None \<longleftrightarrow> {port .. e} \<subseteq> gm_keys used"
proof (induction used port e rule: first_free.induct)
  case (1 used port e)
  have "port \<le> e \<Longrightarrow> {port .. e} = insert port {port + 1 .. e}" by auto
  then show ?case
    using 1 by (auto simp: first_free.simps [of used port e] gm_keys_get)
qed

lemma alloc_inv_mirror: "alloc_inv p \<Longrightarrow> mirror (gm_get (allocated p)) (gm_get (usedPorts p))"
  by (simp add: alloc_inv_def)

lemma alloc_inv_range:
  "alloc_inv p \<Longrightarrow> gm_get (usedPorts p) port = Some t \<Longrightarrow> port \<in> port_range p"
  by (auto simp: alloc_inv_def port_range_def)

lemma NewPortAllocator_inv: "NewPortAllocator s e = Inr p \<Longrightarrow> alloc_inv p"
  by (auto simp: NewPortAllocator_def alloc_inv_def mirror_def split: if_splits)

lemma Allocate_cases:
  obtains (known) q where "gm_get (allocated p) t = Some q" and "Allocate p t = (p, Inr q)"
  | (fresh) q where "gm_get (allocated p) t = None"
      and "first_free (usedPorts p) (startPort p) (endPort p) = Some q"
      and "Allocate p t = (p\<lparr>allocated := gm_put t q (allocated p),
                            usedPorts := gm_put q t (usedPorts p)\<rparr>, Inr q)"
  | (full) "gm_get (allocated p) t = None"
      and "first_free (usedPorts p) (startPort p) (endPort p) = None"
      and "Allocate p t = (p, Inl (ErrNoAvailablePorts (startPort p) (endPort p)))"
  by (cases "gm_get (allocated p) t"; cases "first_free (usedPorts p) (startPort p) (endPort p)")
    (auto simp: Allocate_def)

lemma Allocate_inv: "alloc_inv p \<Longrightarrow> alloc_inv (fst (Allocate p t))"
proof -
  assume inv: "alloc_inv p"
  show ?thesis
  proof (cases rule: Allocate_cases [of p t])
    case (fresh q)
    note q = first_free_Some [OF fresh(2)]
    have "mirror ((gm_get (allocated p))(t \<mapsto> q)) ((gm_get (usedPorts p))(q \<mapsto> t))"
      using alloc_inv_mirror [OF inv] fresh(1) q(3) by (rule mirror_put)
    with inv fresh q(1,2) show ?thesis by (simp add: alloc_inv_def)
  qed (use inv in simp_all)
qed

lemma Release_inv: "alloc_inv p \<Longrightarrow> alloc_inv (Release p t)"
proof -
  assume inv: "alloc_inv p"
  show ?thesis
  proof (cases "gm_get (allocated p) t")
    case (Some q)
    have "mirror ((gm_get (allocated p))(t := None)) ((gm_get (usedPorts p))(q := None))"
      using alloc_inv_mirror [OF inv] Some by (rule mirror_del)
    with inv Some show ?thesis by (simp add: alloc_inv_def Release_def)
  qed (use inv in \<open>simp add: Release_def\<close>)
qed

lemma Get_eq: "Get p = gm_get (allocated p)"
  by (rule ext) (simp add: Get_def)

lemma ran_Get_full:
  assumes "alloc_inv p" and "first_free (usedPorts p) (startPort p) (endPort p) = None"
  shows "ran (Get p) = port_range p"
proof -
  have "port_range p \<subseteq> dom (gm_get (usedPorts p))"
    using assms(2) by (simp add: first_free_None port_range_def dom_gm_get)
  moreover have "dom (gm_get (usedPorts p)) \<subseteq> port_range p"
    using alloc_inv_range [OF assms(1)] by blast
  ultimately show ?thesis
    using mirror_ran [OF alloc_inv_mirror [OF assms(1)]] by (simp add: Get_eq)
qed

interpretation ports: resource_pool Allocate Release Get port_range alloc_inv
proof
  fix s :: PortAllocator and k :: string
  assume inv: "alloc_inv s"
  show "finite (port_range s)" by (simp add: port_range_def)
  show "alloc_inv (fst (Allocate s k))" using inv by (rule Allocate_inv)
  show "alloc_inv (Release s k)" using inv by (rule Release_inv)
  show "Get (Release s k) = (Get s)(k := None)"
    by (auto simp: Get_eq Release_def fun_upd_idem split: option.split)
next
  fix s a b r
  assume "alloc_inv s" "Get s a = Some r" "Get s b = Some r"
  then show "a = b" using mirror_inj [OF alloc_inv_mirror] by (simp add: Get_eq)
next
  fix s a r
  assume "alloc_inv s" "Get s a = Some r"
  then show "r \<in> port_range s"
    using mirrorD [OF alloc_inv_mirror] alloc_inv_range by (simp add: Get_eq)
next
  fix s k s' r
  assume "Allocate s k = (s', Inr r)"
  then show "Get s' = (Get s)(k \<mapsto> r)"
    by (cases rule: Allocate_cases [of s k]) (auto simp: Get_eq)
next
  fix s k r
  assume "Get s k = Some r"
  then show "Allocate s k = (s, Inr r)" by (simp add: Get_eq Allocate_def)
next
  fix s k s' e
  assume "alloc_inv s" "Allocate s k = (s', Inl e)"
  then show "s' = s \<and> Get s k = None \<and> ran (Get s) = port_range s"
    by (cases rule: Allocate_cases [of s k]) (auto simp: Get_eq dest: ran_Get_full)
qed (auto simp: Allocate_def Release_def port_range_def split: option.split)

section \<open>Sequences of operations\<close>

text \<open>Two concrete states for the examples.\<close>

definition none_taken :: PortAllocator where
  "none_taken = \<lparr>startPort = 9401, endPort = 9402, allocated = [], usedPorts = []\<rparr>"

definition one_taken :: "int \<Rightarrow> PortAllocator" where
  "one_taken e = \<lparr>startPort = 9401, endPort = e, allocated = [(''a'', 9401)], usedPorts = [(9401, ''a'')]\<rparr>"

lemma one_taken_inv: "9401 \<le> e \<Longrightarrow> alloc_inv (one_taken e)"
  by (auto simp: one_taken_def alloc_inv_def mirror_def split: if_splits)

datatype alloc_op = OpAllocate string | OpRelease string

fun alloc_step :: "alloc_op \<Rightarrow> PortAllocator \<Rightarrow> PortAllocator" where
  "alloc_step (OpAllocate t) p = fst (Allocate p t)"
| "alloc_step (OpRelease t) p = Release p t"

definition alloc_run :: "alloc_op list \<Rightarrow> PortAllocator \<Rightarrow> PortAllocator" where
  "alloc_run ops p = fold alloc_step ops p"

lemma alloc_step_inv: "alloc_inv p \<Longrightarrow> alloc_inv (alloc_step x p)"
  by (cases x) (simp_all add: Allocate_inv Release_inv)

lemma alloc_run_inv: "alloc_inv p \<Longrightarrow> alloc_inv (alloc_run ops p)"
  by (induction ops arbitrary: p) (simp_all add: alloc_run_def alloc_step_inv)

lemma alloc_step_range: "port_range (alloc_step x p) = port_range p"
  by (cases x) (simp_all add: ports.acquire_pool ports.give_back_pool)

lemma alloc_run_range: "port_range (alloc_run ops p) = port_range p"
  by (induction ops arbitrary: p) (simp_all add: alloc_run_def alloc_step_range)

lemma new_range: "NewPortAllocator s e = Inr p \<Longrightarrow> port_range p = {s .. e}"
  by (auto simp: NewPortAllocator_def port_range_def split: if_splits)

text \<open>C10: whatever calls of \<open>Allocate\<close> and \<open>Release\<close> have been made since the allocator was
  created, no two targets hold the same port, every port held lies in the configured range, and
  there are never more holders than ports.\<close>

theorem allocator_exclusive:
  assumes "NewPortAllocator s e = Inr p0" and "p = alloc_run ops p0"
  shows "inj_on (Get p) (dom (Get p)) \<and> ran (Get p) \<subseteq> {s .. e}
    \<and> int (card (dom (Get p))) \<le> e - s + 1"
proof -
  have inv: "alloc_inv p" using assms by (simp add: alloc_run_inv NewPortAllocator_inv)
  have range: "port_range p = {s .. e}" using assms by (simp add: alloc_run_range new_range)
  have "s \<le> e" using assms(1) by (simp add: NewPortAllocator_def split: if_splits)
  then show ?thesis
    using ports.inj_on_dom [OF inv] ports.ran_subset [OF inv] ports.holders_bound [OF inv]
    by (simp add: range)
qed

lemma allocator_exclusive_witness:
  "inj_on (Get (alloc_run [OpAllocate ''a'', OpRelease ''a'', OpAllocate ''b'']
       none_taken))
     (dom (Get (alloc_run [OpAllocate ''a'', OpRelease ''a'', OpAllocate ''b'']
       none_taken)))
   \<and> ran (Get (alloc_run [OpAllocate ''a'', OpRelease ''a'', OpAllocate ''b'']
       none_taken)) \<subseteq> {9401 .. 9402}
   \<and> int (card (dom (Get (alloc_run [OpAllocate ''a'', OpRelease ''a'', OpAllocate ''b'']
       none_taken)))) \<le> 9402 - 9401 + 1"
  by (rule allocator_exclusive [OF _ refl]) (simp add: NewPortAllocator_def none_taken_def)

text \<open>C29: an allocation gives a target that holds a port the same port again, gives a newcomer the
  lowest port that is free, and is refused, leaving the state unchanged, exactly when the
  newcomer finds every port of the range taken.\<close>

theorem Allocate_lowest_free:
  assumes "alloc_inv p"
  shows "case Allocate p t of
      (p', Inr q) \<Rightarrow> Get p' = (Get p)(t \<mapsto> q)
        \<and> (case Get p t of
             Some q0 \<Rightarrow> q = q0 \<and> p' = p
           | None \<Rightarrow> q \<in> port_range p \<and> q \<notin> ran (Get p)
               \<and> {r \<in> port_range p. r < q} \<subseteq> ran (Get p))
    | (p', Inl _) \<Rightarrow> p' = p \<and> Get p t = None \<and> ran (Get p) = port_range p"
proof (cases rule: Allocate_cases [of p t])
  case (fresh q)
  have used: "ran (Get p) = dom (gm_get (usedPorts p))"
    using mirror_ran [OF alloc_inv_mirror [OF assms]] by (simp add: Get_eq)
  show ?thesis
    using fresh first_free_Some [OF fresh(2)] used by (auto simp: Get_eq port_range_def)
next
  case full
  then show ?thesis using ran_Get_full [OF assms] by (simp add: Get_eq)
qed (auto simp: Get_eq)

lemma Allocate_lowest_free_witness:
  "case Allocate (one_taken 9402) ''b'' of
      (p', Inr q) \<Rightarrow> Get p' = (Get (one_taken 9402))(''b'' \<mapsto> q)
        \<and> (case Get (one_taken 9402) ''b'' of
             Some q0 \<Rightarrow> q = q0 \<and> p' = (one_taken 9402)
           | None \<Rightarrow> q \<in> port_range (one_taken 9402)
               \<and> q \<notin> ran (Get (one_taken 9402))
               \<and> {r \<in> port_range (one_taken 9402). r < q}
                   \<subseteq> ran (Get (one_taken 9402)))
    | (p', Inl _) \<Rightarrow> p' = (one_taken 9402)
        \<and> Get (one_taken 9402) ''b'' = None
        \<and> ran (Get (one_taken 9402))
            = port_range (one_taken 9402)"
  by (rule Allocate_lowest_free) (simp add: one_taken_inv)

text \<open>after a target has released its port, the next allocation of any target succeeds, and the
  snapshot \<open>ActiveAllocations\<close> returns holds exactly the current assignments, in whatever order
  the map is visited.\<close>

theorem release_makes_room:
  assumes "alloc_inv p" and "Get p t = Some q" and "is_range_order rng"
  shows "(\<exists>p' r. Allocate (Release p t) t' = (p', Inr r))
    \<and> gm_get (ActiveAllocations rng (Release p t)) = (Get p)(t := None)"
proof -
  have inv: "alloc_inv (Release p t)" using assms(1) by (rule Release_inv)
  have "gm_get (ActiveAllocations rng (Release p t)) = gm_get (allocated (Release p t))"
    using inv assms(3) by (simp add: ActiveAllocations_def alloc_inv_def gm_copy_empty_get)
  moreover have "Get (Release p t) = (Get p)(t := None)"
    using assms(1) by (rule ports.give_back_holds)
  ultimately show ?thesis
    using ports.acquire_after_give_back [OF assms(1,2)] by (auto simp: Get_eq)
qed

lemma release_makes_room_witness:
  "(\<exists>p' r. Allocate (Release (one_taken 9401) ''a'') ''b''
      = (p', Inr r))
   \<and> gm_get (ActiveAllocations rev (Release (one_taken 9401) ''a''))
      = (Get (one_taken 9401))(''a'' := None)"
  by (rule release_makes_room [where q = 9401])
    (simp_all add: one_taken_inv, simp add: Get_def one_taken_def)

end
