(* ===== verification/GoStrings.thy ===== *)
theory GoStrings
  imports Prelude "HOL-Library.List_Lexorder" "HOL-Library.Char_ord" "HOL-Library.Sublist"
begin

text \<open>
  The part of Go's standard library on strings that the program uses (packages \<open>strings\<close>,
  \<open>bytes\<close>, \<open>strconv\<close>, \<open>unicode/utf8\<close>, \<open>sort\<close>, \<open>bufio\<close>, \<open>path/filepath\<close>). A Go string and a
  \<open>[]byte\<close> are byte sequences, and \<open>char\<close> is an 8-bit byte, so both are \<open>string\<close> here.
  An index result of -1 is \<open>None\<close>. White space is Unicode's White\_Space property, as in
  \<open>unicode.IsSpace\<close>, given by the UTF-8 encodings of its code points; no encoding of a white
  space code point can start inside another encoded rune, so scanning bytes finds the same
  places as scanning runes. Case mapping covers the ASCII letters and the runes outside ASCII
  that map to or fold with an ASCII letter; other runes are left as they are, which
  no comparison of the program with an ASCII constant can observe.
\<close>

section \<open>Prefixes, suffixes, searching\<close>

definition strings_HasPrefix :: "string \<Rightarrow> string \<Rightarrow> bool" where
  "strings_HasPrefix s p = (take (length p) s = p)"

definition strings_HasSuffix :: "string \<Rightarrow> string \<Rightarrow> bool" where
  "strings_HasSuffix s p = (length p \<le> length s \<and> drop (length s - length p) s = p)"

definition strings_TrimPrefix :: "string \<Rightarrow> string \<Rightarrow> string" where
  "strings_TrimPrefix s p = (if strings_HasPrefix s p then drop (length p) s else s)"

definition strings_TrimSuffix :: "string \<Rightarrow> string \<Rightarrow> string" where
  "strings_TrimSuffix s p = (if strings_HasSuffix s p then take (length s - length p) s else s)"

fun strings_IndexByte :: "string \<Rightarrow> char \<Rightarrow> nat option" where
  "strings_IndexByte [] c = None"
| "strings_IndexByte (x # xs) c =
     (if x = c then Some 0 else map_option Suc (strings_IndexByte xs c))"

fun strings_LastIndexByte :: "string \<Rightarrow> char \<Rightarrow> nat option" where
  "strings_LastIndexByte [] c = None"
| "strings_LastIndexByte (x # xs) c =
     (case strings_LastIndexByte xs c of
        Some i \<Rightarrow> Some (Suc i)
      | None \<Rightarrow> if x = c then Some 0 else None)"

fun strings_IndexAny :: "string \<Rightarrow> string \<Rightarrow> nat option" where
  "strings_IndexAny [] cs = None"
| "strings_IndexAny (x # xs) cs =
     (if x \<in> set cs then Some 0 else map_option Suc (strings_IndexAny xs cs))"

fun strings_Index :: "string \<Rightarrow> string \<Rightarrow> nat option" where
  "strings_Index s p =
     (if strings_HasPrefix s p then Some 0
      else case s of [] \<Rightarrow> None | x # xs \<Rightarrow> map_option Suc (strings_Index xs p))"

declare strings_Index.simps [simp del]

definition strings_Contains :: "string \<Rightarrow> string \<Rightarrow> bool" where
  "strings_Contains s p = (strings_Index s p \<noteq> None)"

text \<open>\<open>strings.Count\<close> of a one-byte string.\<close>

definition strings_CountByte :: "string \<Rightarrow> char \<Rightarrow> nat" where
  "strings_CountByte s c = length (filter (\<lambda>x. x = c) s)"

section \<open>Splitting and replacing\<close>

text \<open>\<open>strings.Split\<close> with a one-byte separator: never the empty list.\<close>

fun strings_Split :: "string \<Rightarrow> char \<Rightarrow> string list" where
  "strings_Split [] c = [[]]"
| "strings_Split (x # xs) c =
     (if x = c then [] # strings_Split xs c
      else case strings_Split xs c of [] \<Rightarrow> [[x]] | w # ws \<Rightarrow> (x # w) # ws)"

text \<open>\<open>strings.ReplaceAll\<close> with a non-empty pattern: leftmost matches, not overlapping.\<close>

function strings_ReplaceAll :: "string \<Rightarrow> string \<Rightarrow> string \<Rightarrow> string" where
  "strings_ReplaceAll s old new =
     (case s of
        [] \<Rightarrow> []
      | x # xs \<Rightarrow>
          (if old \<noteq> [] \<and> strings_HasPrefix s old
           then new @ strings_ReplaceAll (drop (length old) s) old new
           else x # strings_ReplaceAll xs old new))"
  by pat_completeness auto
termination
  by (relation "measure (\<lambda>(s, old, new). length s)") auto

declare strings_ReplaceAll.simps [simp del]

text \<open>\<open>strings.Replace(s, old, new, 1)\<close>.\<close>

definition strings_ReplaceFirst :: "string \<Rightarrow> string \<Rightarrow> string \<Rightarrow> string" where
  "strings_ReplaceFirst s old new =
     (case strings_Index s old of
        None \<Rightarrow> s
      | Some i \<Rightarrow> take i s @ new @ drop (i + length old) s)"

fun strings_TrimRightByte :: "string \<Rightarrow> char \<Rightarrow> string" where
  "strings_TrimRightByte [] c = []"
| "strings_TrimRightByte (x # xs) c =
     (case strings_TrimRightByte xs c of
        [] \<Rightarrow> if x = c then [] else [x]
      | r \<Rightarrow> x # r)"

section \<open>White space\<close>

definition unicode_spaces :: "string list" where
  "unicode_spaces =
     [[CHR 0x09], [CHR 0x0A], [CHR 0x0B], [CHR 0x0C], [CHR 0x0D], [CHR 0x20],
      [CHR 0xC2, CHR 0x85], [CHR 0xC2, CHR 0xA0], [CHR 0xE1, CHR 0x9A, CHR 0x80],
      [CHR 0xE2, CHR 0x80, CHR 0x80], [CHR 0xE2, CHR 0x80, CHR 0x81],
      [CHR 0xE2, CHR 0x80, CHR 0x82], [CHR 0xE2, CHR 0x80, CHR 0x83],
      [CHR 0xE2, CHR 0x80, CHR 0x84], [CHR 0xE2, CHR 0x80, CHR 0x85],
      [CHR 0xE2, CHR 0x80, CHR 0x86], [CHR 0xE2, CHR 0x80, CHR 0x87],
      [CHR 0xE2, CHR 0x80, CHR 0x88], [CHR 0xE2, CHR 0x80, CHR 0x89],
      [CHR 0xE2, CHR 0x80, CHR 0x8A], [CHR 0xE2, CHR 0x80, CHR 0xA8],
      [CHR 0xE2, CHR 0x80, CHR 0xA9], [CHR 0xE2, CHR 0x80, CHR 0xAF],
      [CHR 0xE2, CHR 0x81, CHR 0x9F], [CHR 0xE3, CHR 0x80, CHR 0x80]]"

text \<open>The width of the white space rune a string starts with, 0 when there is none.\<close>

definition space_width :: "string \<Rightarrow> nat" where
  "space_width s =
     (case find (strings_HasPrefix s) unicode_spaces of None \<Rightarrow> 0 | Some w \<Rightarrow> length w)"

definition space_width_end :: "string \<Rightarrow> nat" where
  "space_width_end s =
     (case find (strings_HasSuffix s) unicode_spaces of None \<Rightarrow> 0 | Some w \<Rightarrow> length w)"

function trim_left_space :: "string \<Rightarrow> string" where
  "trim_left_space s =
     (if s \<noteq> [] \<and> 0 < space_width s then trim_left_space (drop (space_width s) s) else s)"
  by pat_completeness auto
termination
  by (relation "measure length") auto

declare trim_left_space.simps [simp del]

function trim_right_space :: "string \<Rightarrow> string" where
  "trim_right_space s =
     (if s \<noteq> [] \<and> 0 < space_width_end s
      then trim_right_space (take (length s - space_width_end s) s) else s)"
  by pat_completeness auto
termination
  by (relation "measure length") auto

declare trim_right_space.simps [simp del]

definition strings_TrimSpace :: "string \<Rightarrow> string" where
  "strings_TrimSpace s = trim_right_space (trim_left_space s)"

text \<open>
  \<open>strings.Fields\<close>: the maximal runs of bytes that belong to no white space rune. The first
  argument collects the current field backwards.
\<close>

function fields_from :: "string \<Rightarrow> string \<Rightarrow> string list" where
  "fields_from acc s =
     (case s of
        [] \<Rightarrow> (if acc = [] then [] else [rev acc])
      | x # xs \<Rightarrow>
          (if 0 < space_width s
           then (if acc = [] then [] else [rev acc]) @ fields_from [] (drop (space_width s) s)
           else fields_from (x # acc) xs))"
  by pat_completeness auto
termination
  by (relation "measure (\<lambda>(acc, s). length s)") auto

declare fields_from.simps [simp del]

definition strings_Fields :: "string \<Rightarrow> string list" where
  "strings_Fields s = fields_from [] s"

section \<open>Letter case\<close>

definition upper_letters :: string where
  "upper_letters = ''ABCDEFGHIJKLMNOPQRSTUVWXYZ''"

definition lower_letters :: string where
  "lower_letters = ''abcdefghijklmnopqrstuvwxyz''"

definition lower_char :: "char \<Rightarrow> char" where
  "lower_char c = (case map_of (zip upper_letters lower_letters) c of None \<Rightarrow> c | Some l \<Rightarrow> l)"

text \<open>
  \<open>strings.ToLower\<close>: U+0130 (C4 B0) maps to \<open>i\<close> and U+212A (E2 84 AA) to \<open>k\<close>; these are
  the only runes outside ASCII with a lower case in ASCII.
\<close>

function strings_ToLower :: "string \<Rightarrow> string" where
  "strings_ToLower s =
     (case s of
        [] \<Rightarrow> []
      | x # xs \<Rightarrow>
          (if strings_HasPrefix s [CHR 0xC4, CHR 0xB0] then CHR ''i'' # strings_ToLower (drop 2 s)
           else if strings_HasPrefix s [CHR 0xE2, CHR 0x84, CHR 0xAA]
           then CHR ''k'' # strings_ToLower (drop 3 s)
           else lower_char x # strings_ToLower xs))"
  by pat_completeness auto
termination
  by (relation "measure length") auto

declare strings_ToLower.simps [simp del]

text \<open>
  \<open>strings.EqualFold\<close>: under simple folding \<open>k\<close>, \<open>K\<close> and U+212A are one class, \<open>s\<close>, \<open>S\<close> and
  U+017F (C5 BF) another; U+0130 folds with nothing else.
\<close>

function fold_case :: "string \<Rightarrow> string" where
  "fold_case s =
     (case s of
        [] \<Rightarrow> []
      | x # xs \<Rightarrow>
          (if strings_HasPrefix s [CHR 0xC5, CHR 0xBF] then CHR ''s'' # fold_case (drop 2 s)
           else if strings_HasPrefix s [CHR 0xE2, CHR 0x84, CHR 0xAA]
           then CHR ''k'' # fold_case (drop 3 s)
           else lower_char x # fold_case xs))"
  by pat_completeness auto
termination
  by (relation "measure length") auto

declare fold_case.simps [simp del]

definition strings_EqualFold :: "string \<Rightarrow> string \<Rightarrow> bool" where
  "strings_EqualFold s t = (fold_case s = fold_case t)"

section \<open>Numbers\<close>

definition digit_char :: "nat \<Rightarrow> char" where
  "digit_char n = ''0123456789'' ! n"

definition is_digit :: "char \<Rightarrow> bool" where
  "is_digit c = (c \<in> set ''0123456789'')"

definition digit_val :: "char \<Rightarrow> nat" where
  "digit_val c = of_char c - 48"

fun nat_digits :: "nat \<Rightarrow> string" where
  "nat_digits n =
     (if n < 10 then [digit_char n] else nat_digits (n div 10) @ [digit_char (n mod 10)])"

declare nat_digits.simps [simp del]

text \<open>\<open>strconv.Itoa\<close> and the verb \<open>%d\<close>.\<close>

definition strconv_Itoa :: "int \<Rightarrow> string" where
  "strconv_Itoa i =
     (if i < 0 then CHR ''-'' # nat_digits (nat (- i)) else nat_digits (nat i))"

definition digits_value :: "string \<Rightarrow> nat" where
  "digits_value s = foldl (\<lambda>n c. 10 * n + digit_val c) 0 s"

text \<open>\<open>strconv.Atoi\<close> on a 64-bit platform; \<open>None\<close> is a syntax or a range error.\<close>

definition strconv_Atoi :: "string \<Rightarrow> int option" where
  "strconv_Atoi s =
     (let neg = strings_HasPrefix s ''-'';
          ds = (if neg \<or> strings_HasPrefix s ''+'' then drop 1 s else s);
          v = (if neg then - int (digits_value ds) else int (digits_value ds))
      in if ds = [] \<or> \<not> list_all is_digit ds then None
         else if v < - (2 ^ 63) \<or> 2 ^ 63 - 1 < v then None
         else Some v)"

section \<open>UTF-8\<close>

definition cont_byte :: "nat \<Rightarrow> nat \<Rightarrow> string \<Rightarrow> nat \<Rightarrow> bool" where
  "cont_byte lo hi s i = (i < length s \<and> lo \<le> of_char (s ! i) \<and> of_char (s ! i) \<le> hi)"

text \<open>
  \<open>utf8.DecodeRuneInString\<close>: the width of the first rune of a non-empty string; an invalid
  encoding is one rune of width 1.
\<close>

definition rune_width :: "string \<Rightarrow> nat" where
  "rune_width s =
     (let b = (of_char (s ! 0) :: nat);
          c2 = (\<lambda>lo hi. cont_byte lo hi s 1);
          c = (\<lambda>i. cont_byte 0x80 0xBF s i)
      in if 0xC2 \<le> b \<and> b \<le> 0xDF \<and> c2 0x80 0xBF then 2
         else if b = 0xE0 \<and> c2 0xA0 0xBF \<and> c 2 then 3
         else if 0xE1 \<le> b \<and> b \<le> 0xEF \<and> c2 0x80 (if b = 0xED then 0x9F else 0xBF) \<and> c 2 then 3
         else if b = 0xF0 \<and> c2 0x90 0xBF \<and> c 2 \<and> c 3 then 4
         else if 0xF1 \<le> b \<and> b \<le> 0xF4 \<and> c2 0x80 (if b = 0xF4 then 0x8F else 0xBF) \<and> c 2 \<and> c 3
         then 4 else 1)"

lemma rune_width_pos [simp]: "0 < rune_width s"
  by (simp add: rune_width_def Let_def)

text \<open>A \<open>for _, r := range s\<close> loop: the encodings of the runes of the string, in order.\<close>

function range_runes :: "string \<Rightarrow> string list" where
  "range_runes s =
     (if s = [] then [] else take (rune_width s) s # range_runes (drop (rune_width s) s))"
  by pat_completeness auto
termination
  by (relation "measure length") auto

declare range_runes.simps [simp del]

section \<open>Paths\<close>

text \<open>
  \<open>filepath.Clean\<close> on Unix, component by component: the stack holds the components kept so far,
  the last one first.
\<close>

fun clean_component :: "bool \<Rightarrow> string \<Rightarrow> string list \<Rightarrow> string list" where
  "clean_component rooted part stack =
     (if part = [] \<or> part = ''.'' then stack
      else if part = ''..'' then
        (case stack of
           [] \<Rightarrow> if rooted then [] else [''..'']
         | t # below \<Rightarrow> if t = ''..'' then ''..'' # stack else below)
      else part # stack)"

fun join_with :: "string \<Rightarrow> string list \<Rightarrow> string" where
  "join_with sep [] = []"
| "join_with sep [w] = w"
| "join_with sep (w # ws) = w @ sep @ join_with sep ws"

definition filepath_Clean :: "string \<Rightarrow> string" where
  "filepath_Clean p =
     (let rooted = strings_HasPrefix p ''/'';
          body = join_with ''/'' (rev (fold (clean_component rooted) (strings_Split p (CHR ''/'')) []))
      in if rooted then CHR ''/'' # body else if body = [] then ''.'' else body)"

definition filepath_Join :: "string \<Rightarrow> string \<Rightarrow> string" where
  "filepath_Join a b =
     (if a \<noteq> [] then filepath_Clean (a @ ''/'' @ b)
      else if b \<noteq> [] then filepath_Clean b else [])"

definition filepath_Dir :: "string \<Rightarrow> string" where
  "filepath_Dir p =
     filepath_Clean
       (case strings_LastIndexByte p (CHR ''/'') of None \<Rightarrow> [] | Some i \<Rightarrow> take (Suc i) p)"

text \<open>\<open>filepath.Ext\<close>: the suffix from the last dot of the last path component.\<close>

definition filepath_Ext :: "string \<Rightarrow> string" where
  "filepath_Ext p =
     (let base = (case strings_LastIndexByte p (CHR ''/'') of None \<Rightarrow> p | Some i \<Rightarrow> drop (Suc i) p)
      in case strings_LastIndexByte base (CHR ''.'') of None \<Rightarrow> [] | Some i \<Rightarrow> drop i base)"

section \<open>Sorting and scanning lines\<close>

text \<open>\<open>sort.Strings\<close>: the lexicographic order of the bytes.\<close>

definition sort_Strings :: "string list \<Rightarrow> string list" where
  "sort_Strings xs = sort xs"

text \<open>
  A \<open>bufio.Scanner\<close> with the default split function and buffer, over bytes in memory. A token
  is a line without its newline and without one trailing carriage return. The buffer holds
  \<open>bufio.MaxScanTokenSize\<close> bytes; the scan stops with \<open>bufio.ErrTooLong\<close> when a line fills it
  without a newline in it.
\<close>

definition MaxScanTokenSize :: nat where
  "MaxScanTokenSize = 65536"

definition dropCR :: "string \<Rightarrow> string" where
  "dropCR l = (if l \<noteq> [] \<and> last l = CHR 0x0D then butlast l else l)"

function scan_lines :: "string \<Rightarrow> string list \<times> bool" where
  "scan_lines s =
     (if s = [] then ([], True)
      else
        let l = takeWhile (\<lambda>c. c \<noteq> CHR 0x0A) s; r = drop (Suc (length l)) s
        in if MaxScanTokenSize \<le> length l then ([], False)
           else case scan_lines r of (ls, ok) \<Rightarrow> (dropCR l # ls, ok))"
  by pat_completeness auto
termination
  by (relation "measure length") auto

declare scan_lines.simps [simp del]

section \<open>Facts about searching\<close>

lemma HasPrefix_simps [simp]:
  "strings_HasPrefix s []"
  "\<not> strings_HasPrefix [] (y # ys)"
  "strings_HasPrefix (x # xs) (y # ys) \<longleftrightarrow> x = y \<and> strings_HasPrefix xs ys"
  by (auto simp: strings_HasPrefix_def)

lemma HasPrefix_iff: "strings_HasPrefix s p \<longleftrightarrow> (\<exists>r. s = p @ r)"
  unfolding strings_HasPrefix_def by (metis append_eq_conv_conj append_take_drop_id)

lemma HasSuffix_iff: "strings_HasSuffix s p \<longleftrightarrow> (\<exists>r. s = r @ p)"
  unfolding strings_HasSuffix_def
  by (metis append_eq_conv_conj append_take_drop_id diff_diff_cancel length_append length_drop
      le_add2 add_diff_cancel_right')

lemma HasPrefix_append [simp]: "strings_HasPrefix (p @ s) p"
  by (auto simp: HasPrefix_iff)

lemma HasSuffix_append [simp]: "strings_HasSuffix (s @ p) p"
  by (auto simp: HasSuffix_iff)

lemma HasSuffix_single: "strings_HasSuffix s [c] \<longleftrightarrow> s \<noteq> [] \<and> last s = c"
  by (metis HasSuffix_iff append_butlast_last_id append_is_Nil_conv last_snoc not_Cons_self2)

lemma HasPrefix_take: "strings_HasPrefix (take k s) p \<Longrightarrow> strings_HasPrefix s p"
  unfolding HasPrefix_iff by (metis append.assoc append_take_drop_id)

lemma IndexByte_None [simp]: "strings_IndexByte s c = None \<longleftrightarrow> c \<notin> set s"
  by (induction s) auto

lemma IndexByte_NoneI [simp]: "c \<notin> set s \<Longrightarrow> strings_IndexByte s c = None"
  by simp

lemma IndexByte_append: "c \<notin> set a \<Longrightarrow> strings_IndexByte (a @ c # b) c = Some (length a)"
  by (induction a) auto

lemma IndexByte_Some:
  "strings_IndexByte s c = Some i \<longleftrightarrow> i < length s \<and> s ! i = c \<and> c \<notin> set (take i s)"
proof (induction s arbitrary: i)
  case (Cons x xs)
  then show ?case by (cases i) auto
qed simp

lemma IndexByte_split:
  assumes "strings_IndexByte s c = Some i"
  shows "s = take i s @ c # drop (Suc i) s" and "c \<notin> set (take i s)" and "i < length s"
  using assms by (auto simp: IndexByte_Some id_take_nth_drop [symmetric])

lemma LastIndexByte_None [simp]: "strings_LastIndexByte s c = None \<longleftrightarrow> c \<notin> set s"
  by (induction s) (auto split: option.splits)

lemma LastIndexByte_NoneI [simp]: "c \<notin> set s \<Longrightarrow> strings_LastIndexByte s c = None"
  by simp

lemma LastIndexByte_append: "c \<notin> set b \<Longrightarrow> strings_LastIndexByte (a @ c # b) c = Some (length a)"
proof (induction a)
  case Nil
  then show ?case by (auto split: option.split simp: LastIndexByte_None [symmetric] simp del: LastIndexByte_None)
next
  case (Cons x a)
  then show ?case by simp
qed

lemma LastIndexByte_split:
  assumes "strings_LastIndexByte s c = Some i"
  shows "s = take i s @ c # drop (Suc i) s \<and> c \<notin> set (drop (Suc i) s) \<and> i < length s"
proof -
  have "c \<in> set s" using assms LastIndexByte_None by (metis option.distinct(1))
  then obtain a b where s: "s = a @ c # b" and b: "c \<notin> set b"
    by (metis split_list_last)
  then have "i = length a" using assms by (simp add: LastIndexByte_append)
  then show ?thesis using s b by simp
qed

lemma IndexAny_None [simp]: "strings_IndexAny s cs = None \<longleftrightarrow> set s \<inter> set cs = {}"
  by (induction s) auto

lemma IndexAny_append:
  "set a \<inter> set cs = {} \<Longrightarrow> c \<in> set cs \<Longrightarrow> strings_IndexAny (a @ c # b) cs = Some (length a)"
  by (induction a) auto

lemma Contains_byte: "strings_Contains s [c] \<longleftrightarrow> c \<in> set s"
proof (induction s)
  case Nil
  then show ?case by (simp add: strings_Contains_def strings_Index.simps)
next
  case (Cons x xs)
  then show ?case by (auto simp: strings_Contains_def strings_Index.simps [of "x # xs"])
qed

lemma ReplaceAll_byte:
  "strings_ReplaceAll s [c] new = concat (map (\<lambda>x. if x = c then new else [x]) s)"
proof (induction s)
  case Nil
  then show ?case by (simp add: strings_ReplaceAll.simps)
next
  case (Cons x xs)
  then show ?case by (simp add: strings_ReplaceAll.simps [of "x # xs"])
qed

section \<open>Facts about white space\<close>

text \<open>A byte that occurs in the encoding of no white space rune.\<close>

definition plain_byte :: "char \<Rightarrow> bool" where
  "plain_byte c = (list_all (\<lambda>w. c \<notin> set w) unicode_spaces)"

lemma unicode_spaces_nonempty: "w \<in> set unicode_spaces \<Longrightarrow> w \<noteq> []"
  by (auto simp: unicode_spaces_def)

lemma plain_byte_notin: "plain_byte c \<Longrightarrow> w \<in> set unicode_spaces \<Longrightarrow> c \<notin> set w"
  by (simp add: plain_byte_def list_all_iff)

lemma space_width_plain: "plain_byte (hd s) \<Longrightarrow> space_width s = 0"
  using unicode_spaces_nonempty plain_byte_notin
  by (force simp: space_width_def HasPrefix_iff hd_append split: option.split dest!: find_Some_in)

lemma space_width_end_plain: "plain_byte (last s) \<Longrightarrow> space_width_end s = 0"
  using unicode_spaces_nonempty plain_byte_notin
  by (force simp: space_width_end_def HasSuffix_iff last_append split: option.split dest!: find_Some_in)

lemma TrimSpace_plain:
  assumes "plain_byte (hd s)" and "plain_byte (last s)"
  shows "strings_TrimSpace s = s"
  using assms
  by (simp add: strings_TrimSpace_def trim_left_space.simps [of s] trim_right_space.simps [of s]
      space_width_plain space_width_end_plain)

lemma TrimSpace_Nil [simp]: "strings_TrimSpace [] = []"
  by (simp add: strings_TrimSpace_def trim_left_space.simps [of "[]"] trim_right_space.simps [of "[]"])

lemma trim_left_stop: "trim_left_space s = [] \<or> space_width (trim_left_space s) = 0"
proof (induction s rule: trim_left_space.induct)
  case (1 s)
  show ?case
  proof (cases "s \<noteq> [] \<and> 0 < space_width s")
    case True
    with 1 show ?thesis by (simp add: trim_left_space.simps [of s])
  next
    case False
    then show ?thesis by (auto simp: trim_left_space.simps [of s])
  qed
qed

lemma trim_right_stop: "trim_right_space s = [] \<or> space_width_end (trim_right_space s) = 0"
proof (induction s rule: trim_right_space.induct)
  case (1 s)
  show ?case
  proof (cases "s \<noteq> [] \<and> 0 < space_width_end s")
    case True
    with 1 show ?thesis by (simp add: trim_right_space.simps [of s])
  next
    case False
    then show ?thesis by (auto simp: trim_right_space.simps [of s])
  qed
qed

lemma trim_left_suffix: "\<exists>k. trim_left_space s = drop k s"
proof (induction s rule: trim_left_space.induct)
  case (1 s)
  show ?case
  proof (cases "s \<noteq> [] \<and> 0 < space_width s")
    case True
    with 1 obtain k where "trim_left_space (drop (space_width s) s) = drop k (drop (space_width s) s)"
      by blast
    with True show ?thesis by (simp add: trim_left_space.simps [of s]) (metis)
  next
    case False
    then have "trim_left_space s = drop 0 s" by (auto simp: trim_left_space.simps [of s])
    then show ?thesis by blast
  qed
qed

lemma trim_right_prefix: "\<exists>k. trim_right_space s = take k s"
proof (induction s rule: trim_right_space.induct)
  case (1 s)
  show ?case
  proof (cases "s \<noteq> [] \<and> 0 < space_width_end s")
    case True
    with 1 obtain k where "trim_right_space (take (length s - space_width_end s) s)
        = take k (take (length s - space_width_end s) s)" by blast
    with True show ?thesis by (simp add: trim_right_space.simps [of s]) (metis)
  next
    case False
    then have "trim_right_space s = take (length s) s" by (auto simp: trim_right_space.simps [of s])
    then show ?thesis by blast
  qed
qed

lemma space_width_0: "space_width s = 0 \<longleftrightarrow> (\<forall>w \<in> set unicode_spaces. \<not> strings_HasPrefix s w)"
proof (cases "find (strings_HasPrefix s) unicode_spaces")
  case None
  moreover from None have "\<forall>w \<in> set unicode_spaces. \<not> strings_HasPrefix s w"
    by (simp add: find_None_iff)
  ultimately show ?thesis by (simp add: space_width_def)
next
  case (Some w)
  then have "w \<in> set unicode_spaces" "strings_HasPrefix s w" by (auto dest: find_Some_in)
  with Some show ?thesis using unicode_spaces_nonempty by (auto simp: space_width_def)
qed

lemma space_width_append:
  assumes "space_width s = 0" and "plain_byte c" and "s \<noteq> []"
  shows "space_width (s @ c # t) = 0"
  unfolding space_width_0
proof
  fix w
  assume w: "w \<in> set unicode_spaces"
  show "\<not> strings_HasPrefix (s @ c # t) w"
  proof
    assume p: "strings_HasPrefix (s @ c # t) w"
    have "length w \<le> length s"
    proof (rule ccontr)
      assume l: "\<not> length w \<le> length s"
      then have "w ! length s = c"
        using p by (metis HasPrefix_iff nth_append nth_append_length not_le)
      then have "c \<in> set w" using l by (metis not_le nth_mem)
      with w assms(2) show False by (simp add: plain_byte_notin)
    qed
    with p have "strings_HasPrefix s w" by (simp add: strings_HasPrefix_def)
    with w assms(1) show False by (simp add: space_width_0)
  qed
qed

lemma TrimSpace_append:
  assumes "strings_TrimSpace s = s" and "s \<noteq> []" and "plain_byte c" and "plain_byte (last (c # t))"
  shows "strings_TrimSpace (s @ c # t) = s @ c # t"
proof -
  have "trim_right_space (trim_left_space s) = s" using assms(1) by (simp add: strings_TrimSpace_def)
  moreover obtain m where "trim_left_space s = drop m s" using trim_left_suffix by blast
  moreover obtain k where "trim_right_space (trim_left_space s) = take k (trim_left_space s)"
    using trim_right_prefix by blast
  ultimately have "take k (drop m s) = s" and d: "trim_left_space s = drop m s" by simp_all
  then have "length (take k (drop m s)) = length s" by simp
  then have "length s \<le> length s - m" by simp
  then have "m = 0" using assms(2) by (cases s) auto
  then have "trim_left_space s = s" using d by simp
  then have "space_width s = 0" using trim_left_stop [of s] assms(2) by auto
  then have "space_width (s @ c # t) = 0" using assms(2,3) by (simp add: space_width_append)
  moreover have "space_width_end (s @ c # t) = 0" using assms(4) by (intro space_width_end_plain) simp
  ultimately show ?thesis
    by (simp add: strings_TrimSpace_def trim_left_space.simps [of "s @ c # t"]
        trim_right_space.simps [of "s @ c # t"])
qed

lemma space_width_take: "space_width s = 0 \<Longrightarrow> space_width (take k s) = 0"
  by (auto simp: space_width_0 dest: HasPrefix_take)

lemma TrimSpace_idem [simp]: "strings_TrimSpace (strings_TrimSpace s) = strings_TrimSpace s"
proof -
  let ?t = "strings_TrimSpace s"
  obtain k where k: "?t = take k (trim_left_space s)"
    using trim_right_prefix by (auto simp: strings_TrimSpace_def)
  have "trim_left_space ?t = ?t"
  proof (cases "?t = []")
    case False
    then have "space_width ?t = 0"
      using k trim_left_stop [of s] by (auto intro: space_width_take)
    then show ?thesis by (simp add: trim_left_space.simps [of ?t])
  qed (simp add: trim_left_space.simps)
  moreover have "trim_right_space ?t = ?t"
    using trim_right_stop [of "trim_left_space s"]
    by (auto simp: strings_TrimSpace_def trim_right_space.simps [of "trim_right_space (trim_left_space s)"])
  ultimately show ?thesis by (simp add: strings_TrimSpace_def [of ?t])
qed

section \<open>Facts about numbers\<close>

lemma digit_char_props:
  assumes "n < 10"
  shows "is_digit (digit_char n)" and "digit_val (digit_char n) = n" and "plain_byte (digit_char n)"
proof -
  have "n \<in> {0, 1, 2, 3, 4, 5, 6, 7, 8, 9}" using assms by auto
  then show "is_digit (digit_char n)" "digit_val (digit_char n) = n" "plain_byte (digit_char n)"
    by (auto simp: digit_char_def is_digit_def digit_val_def plain_byte_def unicode_spaces_def)
qed

lemma nat_digits_small [simp]: "n < 10 \<Longrightarrow> nat_digits n = [digit_char n]"
  by (simp add: nat_digits.simps)

lemma nat_digits_large: "\<not> n < 10 \<Longrightarrow> nat_digits n = nat_digits (n div 10) @ [digit_char (n mod 10)]"
  by (subst nat_digits.simps) simp

lemma nat_digits_induct [case_names small large]:
  assumes "\<And>n. n < 10 \<Longrightarrow> P n [digit_char n]"
    and "\<And>n. \<not> n < 10 \<Longrightarrow> P (n div 10) (nat_digits (n div 10))
      \<Longrightarrow> P n (nat_digits (n div 10) @ [digit_char (n mod 10)])"
  shows "P n (nat_digits n)"
proof (induction n rule: nat_digits.induct)
  case (1 n)
  then show ?case
    using assms by (cases "n < 10") (auto simp: nat_digits_large)
qed

lemma nat_digits_nonempty [simp]: "nat_digits n \<noteq> []"
  by (cases "n < 10") (auto simp: nat_digits_large)

lemma nat_digits_digits: "list_all is_digit (nat_digits n)"
  by (rule nat_digits_induct [where P = "\<lambda>n ds. list_all is_digit ds"]) (auto simp: digit_char_props)

lemma nat_digits_plain: "list_all plain_byte (nat_digits n)"
  by (rule nat_digits_induct [where P = "\<lambda>n ds. list_all plain_byte ds"]) (auto simp: digit_char_props)

lemma digits_value_snoc [simp]: "digits_value (ds @ [c]) = 10 * digits_value ds + digit_val c"
  by (simp add: digits_value_def)

lemma digits_value_nat_digits [simp]: "digits_value (nat_digits n) = n"
  by (rule nat_digits_induct [where P = "\<lambda>n ds. digits_value ds = n"])
    (auto simp: digit_char_props digits_value_def)

lemma is_digit_not: "is_digit c \<Longrightarrow> c \<notin> set '':[]%+-/{}''"
  by (auto simp: is_digit_def)

lemma nat_digits_no: "c \<in> set '':[]%+-/{}'' \<Longrightarrow> c \<notin> set (nat_digits n)"
  using nat_digits_digits [of n] is_digit_not unfolding list_all_iff by blast

lemma Itoa_nonempty [simp]: "strconv_Itoa i \<noteq> []"
  by (simp add: strconv_Itoa_def)

lemma Itoa_no: "c \<in> set '':[]%+/{}'' \<Longrightarrow> c \<notin> set (strconv_Itoa i)"
  using nat_digits_no [of c] by (auto simp: strconv_Itoa_def)

lemma Itoa_last_plain: "plain_byte (last (strconv_Itoa i))"
proof -
  have "plain_byte (last (nat_digits n))" for n
    using nat_digits_plain [of n] by (simp add: list_all_iff)
  then show ?thesis by (simp add: strconv_Itoa_def)
qed

lemma Atoi_digits:
  "list_all is_digit ds \<Longrightarrow> ds \<noteq> [] \<Longrightarrow> digits_value ds < 2 ^ 63
    \<Longrightarrow> strconv_Atoi ds = Some (int (digits_value ds))"
proof -
  assume ds: "list_all is_digit ds" "ds \<noteq> []" "digits_value ds < 2 ^ 63"
  then have "\<not> strings_HasPrefix ds ''-''" "\<not> strings_HasPrefix ds ''+''"
    by (cases ds; auto simp: is_digit_def)+
  moreover have "int (digits_value ds) < 2 ^ 63"
    using ds(3) by (metis of_nat_less_iff of_nat_numeral of_nat_power)
  ultimately show ?thesis using ds(1,2) by (simp add: strconv_Atoi_def)
qed

lemma Atoi_Itoa: "0 \<le> i \<Longrightarrow> i < 2 ^ 63 \<Longrightarrow> strconv_Atoi (strconv_Itoa i) = Some i"
  by (simp add: strconv_Itoa_def Atoi_digits nat_digits_digits nat_less_iff)

section \<open>Facts about runes and lines\<close>

text \<open>A pattern is found only where its first byte is.\<close>

lemma HasPrefix_hd: "strings_HasPrefix s (c # p) \<Longrightarrow> c \<in> set s"
  by (auto simp: HasPrefix_iff)

lemma ReplaceAll_absent: "c \<notin> set s \<Longrightarrow> strings_ReplaceAll s (c # p) new = s"
proof (induction s)
  case (Cons x xs)
  then have "\<not> strings_HasPrefix (x # xs) (c # p)" using HasPrefix_hd by fastforce
  with Cons show ?case by (auto simp: strings_ReplaceAll.simps [of "x # xs"])
qed (simp add: strings_ReplaceAll.simps)

lemma ReplaceAll_once:
  assumes "c \<notin> set a" and "c \<notin> set b"
  shows "strings_ReplaceAll (a @ (c # p) @ b) (c # p) new = a @ new @ b"
  using assms(1)
proof (induction a)
  case Nil
  have "drop (length p) (p @ b) = b" by simp
  then show ?case
    using ReplaceAll_absent [OF assms(2), of p new]
    by (simp add: strings_ReplaceAll.simps [of "c # p @ b"] HasPrefix_iff)
next
  case (Cons x xs)
  then show ?case by (auto simp: strings_ReplaceAll.simps [of "x # xs @ c # p @ b"])
qed

lemma Split_nonempty [simp]: "strings_Split s c \<noteq> []"
  by (induction s) (auto split: list.split)

lemma Split_no [simp]: "c \<notin> set s \<Longrightarrow> strings_Split s c = [s]"
  by (induction s) auto

lemma Split_append: "c \<notin> set b \<Longrightarrow> strings_Split (a @ c # b) c = strings_Split a c @ [b]"
  by (induction a) (auto split: list.split)

lemma join_with_snoc: "xs \<noteq> [] \<Longrightarrow> join_with sep (xs @ [w]) = join_with sep xs @ sep @ w"
proof (induction xs)
  case (Cons x xs)
  then show ?case by (cases xs) auto
qed simp

lemma join_with_Nil_iff: "[] \<notin> set xs \<Longrightarrow> join_with sep xs = [] \<longleftrightarrow> xs = []"
proof (cases xs)
  case (Cons x ys)
  then show "[] \<notin> set xs \<Longrightarrow> ?thesis" by (cases ys) auto
qed simp

lemma clean_stack_nonempty: "[] \<notin> set st \<Longrightarrow> [] \<notin> set (fold (clean_component rooted) ps st)"
proof (induction ps arbitrary: st)
  case (Cons p ps)
  have "[] \<notin> set (clean_component rooted p st)"
    using Cons.prems by (cases st; cases p) simp_all
  then show ?case using Cons.IH by simp
qed simp

text \<open>Joining a plain component to a rooted directory.\<close>

lemma Join_component:
  assumes "strings_HasPrefix d ''/''" and "b \<noteq> []" and "CHR ''/'' \<notin> set b" and "b \<noteq> ''.''" and "b \<noteq> ''..''"
  shows "filepath_Join d b = (if filepath_Clean d = ''/'' then [] else filepath_Clean d) @ ''/'' @ b"
proof -
  obtain e where d: "d = CHR ''/'' # e" using assms(1) by (auto simp: HasPrefix_iff)
  have root: "strings_HasPrefix (d @ CHR ''/'' # b) ''/''" using d by (simp add: HasPrefix_iff)
  let ?st = "fold (clean_component True) (strings_Split d (CHR ''/'')) []"
  have st: "[] \<notin> set ?st" by (rule clean_stack_nonempty) simp
  have "filepath_Join d b = CHR ''/'' # join_with ''/'' (rev ?st @ [b])"
    using d root Split_append [OF assms(3), of d] assms(2,4,5)
    by (simp add: filepath_Join_def filepath_Clean_def del: strings_Split.simps)
  moreover have "filepath_Clean d = CHR ''/'' # join_with ''/'' (rev ?st)"
    using assms(1) by (simp add: filepath_Clean_def)
  ultimately show ?thesis
    using st by (cases "?st = []") (simp_all add: join_with_Nil_iff join_with_snoc)
qed

lemma range_runes_concat: "concat (range_runes s) = s"
proof (induction s rule: range_runes.induct)
  case (1 s)
  then show ?case by (cases "s = []") (simp_all add: range_runes.simps [of s] range_runes.simps [of "[]"])
qed

lemma rune_width_ascii: "of_char (s ! 0) < (0x80 :: nat) \<Longrightarrow> rune_width s = 1"
  by (simp add: rune_width_def Let_def)

lemma range_runes_ascii:
  "\<forall>c \<in> set s. of_char c < (0x80 :: nat) \<Longrightarrow> range_runes s = map (\<lambda>c. [c]) s"
proof (induction s)
  case Nil
  then show ?case by (simp add: range_runes.simps)
next
  case (Cons x xs)
  then show ?case by (simp add: range_runes.simps [of "x # xs"] rune_width_ascii)
qed

definition newline :: char where
  "newline = CHR 0x0A"

definition unlines :: "string list \<Rightarrow> string" where
  "unlines ls = concat (map (\<lambda>l. l @ [newline]) ls)"

lemma scan_lines_Nil [simp]: "scan_lines [] = ([], True)"
  by (simp add: scan_lines.simps)

lemma scan_lines_Cons:
  assumes "newline \<notin> set l" and "length l < MaxScanTokenSize"
  shows "scan_lines (l @ newline # r) = (dropCR l # fst (scan_lines r), snd (scan_lines r))"
proof -
  have "takeWhile (\<lambda>c. c \<noteq> CHR 0x0A) (l @ newline # r) = l"
    using assms(1) by (auto simp: newline_def takeWhile_append)
  with assms(2) show ?thesis
    by (simp add: scan_lines.simps [of "l @ newline # r"] case_prod_beta Let_def)
qed

lemma scan_lines_unlines:
  assumes "\<forall>l \<in> set ls. newline \<notin> set l \<and> length l < MaxScanTokenSize"
  shows "scan_lines (unlines ls @ r) = (map dropCR ls @ fst (scan_lines r), snd (scan_lines r))"
  using assms by (induction ls) (auto simp: unlines_def scan_lines_Cons)

lemma scan_lines_no_newline:
  "l \<in> set (fst (scan_lines s)) \<Longrightarrow> newline \<notin> set l"
proof (induction s arbitrary: l rule: scan_lines.induct)
  case (1 s)
  let ?l = "takeWhile (\<lambda>c. c \<noteq> CHR 0x0A) s"
  have nl: "newline \<notin> set (dropCR ?l)"
    by (auto simp: dropCR_def newline_def dest: in_set_butlastD set_takeWhileD)
  consider "s = []" | "s \<noteq> []" "MaxScanTokenSize \<le> length ?l" | "s \<noteq> []" "\<not> MaxScanTokenSize \<le> length ?l"
    by blast
  then show ?case
  proof cases
    case 3
    with 1 nl show ?thesis
      by (auto simp: scan_lines.simps [of s] Let_def case_prod_beta)
  qed (use "1.prems" in \<open>simp_all add: scan_lines.simps [of s] Let_def\<close>)
qed

section \<open>Evaluation\<close>

lemmas strings_eval =
  strings_IndexByte.simps strings_Index.simps strings_Contains_def strings_HasPrefix_def
  strings_HasSuffix_def strings_TrimPrefix_def strings_TrimSuffix_def strings_CountByte_def
  strings_ReplaceAll.simps strings_ReplaceFirst_def

lemmas space_eval =
  strings_TrimSpace_def trim_left_space.simps trim_right_space.simps space_width_def
  space_width_end_def unicode_spaces_def strings_Fields_def fields_from.simps

lemmas number_eval =
  strconv_Itoa_def nat_digits.simps digit_char_def strconv_Atoi_def digits_value_def
  digit_val_def is_digit_def

lemmas case_eval =
  strings_ToLower.simps fold_case.simps strings_EqualFold_def lower_char_def upper_letters_def
  lower_letters_def

lemmas path_eval =
  filepath_Join_def filepath_Clean_def filepath_Dir_def filepath_Ext_def

lemmas rune_eval =
  range_runes.simps rune_width_def cont_byte_def

lemmas scan_eval =
  scan_lines.simps MaxScanTokenSize_def dropCR_def newline_def

declare strings_eval [go_eval] space_eval [go_eval] number_eval [go_eval] case_eval [go_eval]
  path_eval [go_eval] rune_eval [go_eval] scan_eval [go_eval]

end
