(* ===== verification/AppConfig.thy ===== *)
theory AppConfig
  imports GoStrings
begin

text \<open>
  Package \<open>internal/pkg/appconfig\<close> (\<open>types.go\<close>): targets, the configuration tree and its defaults.
  A \<open>time.Duration\<close> is its number of nanoseconds. The zero value of a map field is \<open>nil\<close>, which
  reads like an empty map but panics when it is written to, so \<open>Labels\<close> is an optional map.
  Reading a file and the YAML decoder (\<open>gopkg.in/yaml.v3\<close>, not part of the repository) are
  parameters of \<open>LoadConfigFile\<close>.
\<close>

section \<open>Durations and default values\<close>

definition time_Second :: int where
  "time_Second = 1000000000"

definition DefaultAddress :: string where "DefaultAddress = '':9400''"
definition DefaultCollectInterval :: int where "DefaultCollectInterval = 30000"
definition DefaultCollectorsFile :: string where
  "DefaultCollectorsFile = ''/etc/dcgm-exporter/default-counters.csv''"
definition DefaultWebReadTimeout :: int where "DefaultWebReadTimeout = 10 * time_Second"
definition DefaultWebWriteTimeout :: int where "DefaultWebWriteTimeout = 30 * time_Second"
definition DefaultExporterBinary :: string where "DefaultExporterBinary = ''dcgm-exporter''"
definition DefaultPortRangeStart :: int where "DefaultPortRangeStart = 9401"
definition DefaultPortRangeEnd :: int where "DefaultPortRangeEnd = 9500"
definition DefaultShutdownTimeout :: int where "DefaultShutdownTimeout = 5 * time_Second"
definition DefaultLibvirtURI :: string where "DefaultLibvirtURI = ''qemu:///system''"
definition DefaultLibvirtPollInterval :: int where "DefaultLibvirtPollInterval = 15 * time_Second"
definition DefaultNovaPollInterval :: int where "DefaultNovaPollInterval = 30 * time_Second"
definition DefaultFilePollInterval :: int where "DefaultFilePollInterval = 15 * time_Second"
definition DefaultHostEnginePort :: int where "DefaultHostEnginePort = 5555"
definition DefaultExporterListenHost :: string where "DefaultExporterListenHost = ''127.0.0.1''"
definition DefaultSocketDir :: string where "DefaultSocketDir = ''/run/dcgm-exporter-supervisor''"
definition FallbackSocketDir :: string where "FallbackSocketDir = ''/tmp/dcgm-exporter-supervisor''"

section \<open>Targets\<close>

record Target =
  ID :: string
  Name :: string
  Endpoint :: string
  Tenant :: string
  NetNS :: string
  Labels :: "(string, string) gomap option"
  CustomArgs :: "string list"

text \<open>Reading a possibly nil label map: a nil map has no entries.\<close>

definition label_map :: "Target \<Rightarrow> (string, string) gomap" where
  "label_map t = (case Labels t of None \<Rightarrow> [] | Some m \<Rightarrow> m)"

text \<open>The key the program files a target under.\<close>

definition target_key :: "Target \<Rightarrow> string" where
  "target_key t = (if ID t = [] then Name t else ID t)"

section \<open>Configuration\<close>

record StaticConfig =
  static_Enabled :: bool
  static_Targets :: "Target list"

record LibvirtConfig =
  lv_Enabled :: bool
  lv_URI :: string
  lv_PollInterval :: int
  lv_ConnectionMode :: string
  lv_IPVersion :: string
  lv_DefaultPort :: int
  lv_FilterGPUOnly :: bool
  lv_DefaultNetNS :: string

record NovaConfig =
  nova_Enabled :: bool
  nova_AuthURL :: string
  nova_Username :: string
  nova_Password :: string
  nova_ProjectName :: string
  nova_UserDomainName :: string
  nova_ProjectDomainName :: string
  nova_NovaEndpoint :: string
  nova_HypervisorHostname :: string
  nova_PollInterval :: int
  nova_IPVersion :: string
  nova_DefaultPort :: int
  nova_ConnectionMode :: string
  nova_FilterGPUOnly :: bool
  nova_DefaultNetNS :: string

record FileConfig =
  file_Enabled :: bool
  file_Directory :: string
  file_PollInterval :: int

record DiscoveryConfig =
  disc_Static :: StaticConfig
  disc_Libvirt :: LibvirtConfig
  disc_Nova :: NovaConfig
  disc_File :: FileConfig

record NetNSItemConfig =
  item_Name :: string
  item_Tenants :: "string list"
  item_Subnets :: "string list"

record NetNSConfig =
  ns_Enabled :: bool
  ns_Template :: string
  ns_DefaultNetNS :: string
  ns_AutoDetectRoute :: bool
  ns_Items :: "NetNSItemConfig list"

record ExporterConfig =
  exp_BinaryPath :: string
  exp_SocketDir :: string
  exp_CollectorsFile :: string
  exp_CollectInterval :: int
  exp_ExtraArgs :: "string list"
  exp_WebConfigFile :: string
  exp_ShutdownTimeout :: int
  exp_ListenHost :: string
  exp_PortRangeStart :: int
  exp_PortRangeEnd :: int

record Config =
  cfg_ConfigFile :: string
  cfg_Address :: string
  cfg_CollectInterval :: int
  cfg_CollectorsFile :: string
  cfg_LogFormat :: string
  cfg_Debug :: bool
  cfg_WebConfigFile :: string
  cfg_WebReadTimeout :: int
  cfg_WebWriteTimeout :: int
  cfg_Exporter :: ExporterConfig
  cfg_Discovery :: DiscoveryConfig
  cfg_NetNS :: NetNSConfig

text \<open>The zero value of \<open>NetNSConfig\<close>, which \<open>NewDefaultConfig\<close> leaves in place.\<close>

definition zero_NetNSConfig :: NetNSConfig where
  "zero_NetNSConfig =
     \<lparr>ns_Enabled = False, ns_Template = [], ns_DefaultNetNS = [], ns_AutoDetectRoute = False,
      ns_Items = []\<rparr>"

definition NewDefaultConfig :: Config where
  "NewDefaultConfig =
     \<lparr>cfg_ConfigFile = [],
      cfg_Address = DefaultAddress,
      cfg_CollectInterval = DefaultCollectInterval,
      cfg_CollectorsFile = DefaultCollectorsFile,
      cfg_LogFormat = ''text'',
      cfg_Debug = False,
      cfg_WebConfigFile = [],
      cfg_WebReadTimeout = DefaultWebReadTimeout,
      cfg_WebWriteTimeout = DefaultWebWriteTimeout,
      cfg_Exporter =
        \<lparr>exp_BinaryPath = DefaultExporterBinary,
         exp_SocketDir = DefaultSocketDir,
         exp_CollectorsFile = DefaultCollectorsFile,
         exp_CollectInterval = DefaultCollectInterval,
         exp_ExtraArgs = [],
         exp_WebConfigFile = [],
         exp_ShutdownTimeout = DefaultShutdownTimeout,
         exp_ListenHost = DefaultExporterListenHost,
         exp_PortRangeStart = DefaultPortRangeStart,
         exp_PortRangeEnd = DefaultPortRangeEnd\<rparr>,
      cfg_Discovery =
        \<lparr>disc_Static = \<lparr>static_Enabled = True, static_Targets = []\<rparr>,
         disc_Libvirt =
           \<lparr>lv_Enabled = True, lv_URI = DefaultLibvirtURI,
            lv_PollInterval = DefaultLibvirtPollInterval, lv_ConnectionMode = ''auto'',
            lv_IPVersion = ''ipv4'', lv_DefaultPort = DefaultHostEnginePort,
            lv_FilterGPUOnly = True, lv_DefaultNetNS = []\<rparr>,
         disc_Nova =
           \<lparr>nova_Enabled = False, nova_AuthURL = [], nova_Username = [], nova_Password = [],
            nova_ProjectName = [], nova_UserDomainName = [], nova_ProjectDomainName = [],
            nova_NovaEndpoint = [], nova_HypervisorHostname = [],
            nova_PollInterval = DefaultNovaPollInterval, nova_IPVersion = ''ipv4'',
            nova_DefaultPort = DefaultHostEnginePort, nova_ConnectionMode = ''ip'',
            nova_FilterGPUOnly = True, nova_DefaultNetNS = []\<rparr>,
         disc_File =
           \<lparr>file_Enabled = False, file_Directory = ''/etc/dcgm-exporter-supervisor/targets.d'',
            file_PollInterval = DefaultFilePollInterval\<rparr>\<rparr>,
      cfg_NetNS = zero_NetNSConfig\<rparr>"

section \<open>Loading a configuration file\<close>

datatype config_error = ReadConfigFailed string | ParseConfigFailed string

text \<open>
  \<open>readFile path\<close> is the content of the file, \<open>None\<close> when reading fails. \<open>unmarshal data cfg\<close>
  decodes the document into the given configuration, whose fields keep their values where the
  document does not mention them; \<open>None\<close> is a decoding error.
\<close>

definition LoadConfigFile ::
  "(string \<Rightarrow> string option) \<Rightarrow> (string \<Rightarrow> Config \<Rightarrow> Config option) \<Rightarrow> string
    \<Rightarrow> config_error + Config" where
  "LoadConfigFile readFile unmarshal filePath =
     (let cfg = NewDefaultConfig
      in if filePath = [] then Inr cfg
         else case readFile filePath of
           None \<Rightarrow> Inl (ReadConfigFailed filePath)
         | Some data \<Rightarrow>
             (case unmarshal data cfg of
                None \<Rightarrow> Inl (ParseConfigFailed filePath)
              | Some cfg \<Rightarrow> Inr (cfg\<lparr>cfg_ConfigFile := filePath\<rparr>)))"

lemmas default_values =
  time_Second_def DefaultAddress_def DefaultCollectInterval_def DefaultCollectorsFile_def
  DefaultWebReadTimeout_def DefaultWebWriteTimeout_def DefaultExporterBinary_def
  DefaultPortRangeStart_def DefaultPortRangeEnd_def DefaultShutdownTimeout_def
  DefaultLibvirtURI_def DefaultLibvirtPollInterval_def DefaultNovaPollInterval_def
  DefaultFilePollInterval_def DefaultHostEnginePort_def DefaultExporterListenHost_def
  DefaultSocketDir_def FallbackSocketDir_def

lemma label_map_simps [simp]:
  "Labels t = None \<Longrightarrow> label_map t = []"
  "Labels t = Some m \<Longrightarrow> label_map t = m"
  by (simp_all add: label_map_def)

end
