(* ===== verification/GoNet.thy ===== *)
theory GoNet
  imports GoStrings "HOL-Library.Word"
begin

unbundle bit_operations_syntax

text \<open>
  The part of Go's package \<open>net\<close> that the program uses: parsing and classifying IP addresses,
  CIDR blocks, and splitting and joining host and port. An address is its byte slice
  (\<open>net.IP\<close>): 16 bytes after parsing, an IPv4 address in the form \<open>::ffff:a.b.c.d\<close>.
\<close>

type_synonym ip = "8 word list"

section \<open>Parsing addresses\<close>

text \<open>
  \<open>netip.parseIPv4Fields\<close>: the fields before the current one (last first), the value and the
  number of digits of the current one.
\<close>

fun parse_v4_fields :: "nat list \<Rightarrow> nat \<Rightarrow> nat \<Rightarrow> string \<Rightarrow> nat list option" where
  "parse_v4_fields fs v n [] = (if length fs < 3 then None else Some (rev (v # fs)))"
| "parse_v4_fields fs v n (c # cs) =
     (if is_digit c then
        (if n = 1 \<and> v = 0 then None
         else if 255 < 10 * v + digit_val c then None
         else parse_v4_fields fs (10 * v + digit_val c) (Suc n) cs)
      else if c = CHR ''.'' then
        (if n = 0 \<or> cs = [] then None
         else if length fs = 3 then None
         else parse_v4_fields (v # fs) 0 0 cs)
      else None)"

definition hex_letters :: string where
  "hex_letters = ''0123456789abcdef''"

definition hex_val :: "char \<Rightarrow> nat option" where
  "hex_val c = strings_IndexByte hex_letters (lower_char c)"

text \<open>One group of hexadecimal digits: its value, the number of digits and the rest.\<close>

fun hex_group :: "nat \<Rightarrow> nat \<Rightarrow> string \<Rightarrow> (nat \<times> nat \<times> string) option" where
  "hex_group acc off [] = Some (acc, off, [])"
| "hex_group acc off (c # cs) =
     (case hex_val c of
        None \<Rightarrow> Some (acc, off, c # cs)
      | Some d \<Rightarrow>
          (if 3 < off \<or> 65535 < 16 * acc + d then None
           else hex_group (16 * acc + d) (Suc off) cs))"

text \<open>The loop of \<open>netip.parseIPv6\<close>: the bytes so far and the position of the ellipsis.\<close>

function v6_groups :: "nat list \<Rightarrow> nat option \<Rightarrow> string \<Rightarrow> (nat list \<times> nat option \<times> string) option" where
  "v6_groups bs ell s =
     (if 16 \<le> length bs then Some (bs, ell, s)
      else case hex_group 0 0 s of
        None \<Rightarrow> None
      | Some (acc, off, r) \<Rightarrow>
          (if off = 0 then None
           else if strings_HasPrefix r ''.'' then
             (if (ell = None \<and> length bs \<noteq> 12) \<or> 16 < length bs + 4 then None
              else map_option (\<lambda>f. (bs @ f, ell, [])) (parse_v4_fields [] 0 0 s))
           else
             let bs' = bs @ [acc div 256, acc mod 256] in
             case r of
               [] \<Rightarrow> Some (bs', ell, [])
             | c # r1 \<Rightarrow>
                 (if c \<noteq> CHR '':'' \<or> r1 = [] then None
                  else if strings_HasPrefix r1 '':'' then
                    (if ell \<noteq> None then None
                     else if tl r1 = [] then Some (bs', Some (length bs'), [])
                     else v6_groups bs' (Some (length bs')) (tl r1))
                  else v6_groups bs' ell r1)))"
  by pat_completeness auto
termination
  by (relation "measure (\<lambda>(bs, ell, s). 16 - length bs)") auto

declare v6_groups.simps [simp del]

definition parse_v6 :: "string \<Rightarrow> nat list option" where
  "parse_v6 s =
     (let lead = strings_HasPrefix s ''::''
      in if s = ''::'' then Some (replicate 16 0)
         else case v6_groups [] (if lead then Some 0 else None) (if lead then drop 2 s else s) of
           None \<Rightarrow> None
         | Some (bs, ell, r) \<Rightarrow>
             (if r \<noteq> [] then None
              else if length bs < 16 then
                (case ell of
                   None \<Rightarrow> None
                 | Some e \<Rightarrow> Some (take e bs @ replicate (16 - length bs) 0 @ drop e bs))
              else if ell \<noteq> None then None
              else Some bs))"

text \<open>
  \<open>netip.ParseAddr\<close> without a zone: the first of the characters \<open>.\<close>, \<open>:\<close> and \<open>%\<close> decides; an
  address with a zone is refused by \<open>net.ParseIP\<close> and \<open>net.ParseCIDR\<close>. \<open>Inl\<close> is an
  address given as IPv4, \<open>Inr\<close> one given as IPv6.
\<close>

definition parse_addr :: "string \<Rightarrow> (nat list + nat list) option" where
  "parse_addr s =
     (case strings_IndexAny s ''.:%'' of
        None \<Rightarrow> None
      | Some i \<Rightarrow>
          (if s ! i = CHR ''.'' then map_option Inl (parse_v4_fields [] 0 0 s)
           else if s ! i = CHR '':'' \<and> CHR ''%'' \<notin> set s then map_option Inr (parse_v6 s)
           else None))"

definition v4_in_v6_prefix :: "nat list" where
  "v4_in_v6_prefix = [0, 0, 0, 0, 0, 0, 0, 0, 0, 0, 255, 255]"

definition as_16 :: "nat list + nat list \<Rightarrow> ip" where
  "as_16 a = map of_nat (case a of Inl f \<Rightarrow> v4_in_v6_prefix @ f | Inr bs \<Rightarrow> bs)"

definition net_ParseIP :: "string \<Rightarrow> ip option" where
  "net_ParseIP s = map_option as_16 (parse_addr s)"

section \<open>Classifying addresses\<close>

definition ip_To4 :: "ip \<Rightarrow> ip option" where
  "ip_To4 a =
     (if length a = 4 then Some a
      else if length a = 16 \<and> take 12 a = map of_nat v4_in_v6_prefix then Some (drop 12 a)
      else None)"

definition ip_IsLinkLocalUnicast :: "ip \<Rightarrow> bool" where
  "ip_IsLinkLocalUnicast a =
     (case ip_To4 a of
        Some b \<Rightarrow> b ! 0 = 169 \<and> b ! 1 = 254
      | None \<Rightarrow> length a = 16 \<and> a ! 0 = 0xFE \<and> a ! 1 AND 0xC0 = 0x80)"

definition ip_IsLoopback :: "ip \<Rightarrow> bool" where
  "ip_IsLoopback a =
     (case ip_To4 a of
        Some b \<Rightarrow> b ! 0 = 127
      | None \<Rightarrow> a = replicate 15 0 @ [1])"

definition ip_IsUnspecified :: "ip \<Rightarrow> bool" where
  "ip_IsUnspecified a = (ip_To4 a = Some [0, 0, 0, 0] \<or> a = replicate 16 0)"

section \<open>CIDR blocks\<close>

record ipnet =
  net_IP :: ip
  net_Mask :: ip

text \<open>\<open>net.CIDRMask\<close>: \<open>n\<close> one bits, then zero bits, in \<open>bytes\<close> bytes.\<close>

fun cidr_mask :: "nat \<Rightarrow> nat \<Rightarrow> ip" where
  "cidr_mask n 0 = []"
| "cidr_mask n (Suc bytes) =
     (if 8 \<le> n then 0xFF # cidr_mask (n - 8) bytes
      else NOT (drop_bit n 0xFF) # cidr_mask 0 bytes)"

definition ip_Mask :: "ip \<Rightarrow> ip \<Rightarrow> ip" where
  "ip_Mask a m = map2 (AND) a m"

definition net_ParseCIDR :: "string \<Rightarrow> ipnet option" where
  "net_ParseCIDR s =
     (case strings_IndexByte s (CHR ''/'') of
        None \<Rightarrow> None
      | Some i \<Rightarrow>
          (case parse_addr (take i s) of
             None \<Rightarrow> None
           | Some a \<Rightarrow>
               (let m = drop (Suc i) s;
                    bytes = (case a of Inl _ \<Rightarrow> 4 | Inr _ \<Rightarrow> 16);
                    n = digits_value m
                in if m = [] \<or> \<not> list_all is_digit m \<or> 8 * bytes < n then None
                   else Some \<lparr>net_IP = ip_Mask (map of_nat (case a of Inl f \<Rightarrow> f | Inr bs \<Rightarrow> bs))
                                                (cidr_mask n bytes),
                              net_Mask = cidr_mask n bytes\<rparr>)))"

definition ipnet_Contains :: "ipnet \<Rightarrow> ip \<Rightarrow> bool" where
  "ipnet_Contains n a =
     (let nn = (case ip_To4 (net_IP n) of Some b \<Rightarrow> b | None \<Rightarrow> net_IP n);
          m = (if length (net_Mask n) = 16 \<and> length nn = 4 then drop 12 (net_Mask n) else net_Mask n);
          b = (case ip_To4 a of Some b \<Rightarrow> b | None \<Rightarrow> a)
      in length b = length nn \<and> length m = length nn \<and> ip_Mask nn m = ip_Mask b m)"

section \<open>Host and port\<close>

text \<open>\<open>net.SplitHostPort\<close>; \<open>None\<close> is an \<open>AddrError\<close>.\<close>

definition net_SplitHostPort :: "string \<Rightarrow> (string \<times> string) option" where
  "net_SplitHostPort hp =
     (case strings_LastIndexByte hp (CHR '':'') of
        None \<Rightarrow> None
      | Some i \<Rightarrow>
          (if strings_HasPrefix hp ''['' then
             (case strings_IndexByte hp (CHR '']'') of
                None \<Rightarrow> None
              | Some e \<Rightarrow>
                  (if Suc e \<noteq> i then None
                   else if CHR ''['' \<in> set (drop 1 hp) \<or> CHR '']'' \<in> set (drop (Suc e) hp) then None
                   else Some (take (e - 1) (drop 1 hp), drop (Suc i) hp)))
           else
             (if CHR '':'' \<in> set (take i hp) then None
              else if CHR ''['' \<in> set hp \<or> CHR '']'' \<in> set hp then None
              else Some (take i hp, drop (Suc i) hp))))"

definition net_JoinHostPort :: "string \<Rightarrow> string \<Rightarrow> string" where
  "net_JoinHostPort host port =
     (if CHR '':'' \<in> set host then ''['' @ host @ '']:'' @ port else host @ '':'' @ port)"

section \<open>Printing an address\<close>

text \<open>
  \<open>IP.String\<close>: dotted decimal for an IPv4 address, in either length; for an IPv6 address eight
  groups in hexadecimal, the first longest run of two or more zero groups written as \<open>::\<close>.
\<close>

fun hex_digits :: "nat \<Rightarrow> string" where
  "hex_digits n =
     (if n < 16 then [''0123456789abcdef'' ! n]
      else hex_digits (n div 16) @ [''0123456789abcdef'' ! (n mod 16)])"

declare hex_digits.simps [simp del]

fun ip_groups :: "ip \<Rightarrow> nat list" where
  "ip_groups (a # b # rest) = (256 * unat a + unat b) # ip_groups rest"
| "ip_groups _ = []"

definition zero_run :: "nat list \<Rightarrow> nat \<Rightarrow> nat" where
  "zero_run gs i = length (takeWhile (\<lambda>g. g = 0) (drop i gs))"

definition best_zero_run :: "nat list \<Rightarrow> nat \<times> nat" where
  "best_zero_run gs =
     fold (\<lambda>i (start, len). if 2 \<le> zero_run gs i \<and> len < zero_run gs i then (i, zero_run gs i) else (start, len))
       [0..<length gs] (0, 0)"

definition v6_text :: "nat list \<Rightarrow> string" where
  "v6_text gs =
     (case best_zero_run gs of (start, len) \<Rightarrow>
        if len = 0 then join_with '':'' (map hex_digits gs)
        else join_with '':'' (map hex_digits (take start gs)) @ ''::''
             @ join_with '':'' (map hex_digits (drop (start + len) gs)))"

definition ip_String :: "ip \<Rightarrow> string" where
  "ip_String a =
     (if a = [] then ''<nil>''
      else case ip_To4 a of
        Some b \<Rightarrow> join_with ''.'' (map (\<lambda>x. nat_digits (unat x)) b)
      | None \<Rightarrow> if length a = 16 then v6_text (ip_groups a)
                else CHR ''?'' # concat (map (\<lambda>x. [''0123456789abcdef'' ! (unat x div 16), ''0123456789abcdef'' ! (unat x mod 16)]) a))"

section \<open>Facts\<close>

text \<open>Only a string with a colon is an IPv6 address.\<close>

lemma To4_of_v4: "length f = 4 \<Longrightarrow> ip_To4 (as_16 (Inl f)) = Some (map of_nat f)"
  by (simp add: ip_To4_def as_16_def v4_in_v6_prefix_def)

lemma parse_v4_fields_length: "parse_v4_fields fs v n s = Some f \<Longrightarrow> length fs \<le> 3 \<Longrightarrow> length f = 4"
  by (induction fs v n s rule: parse_v4_fields.induct) (auto split: if_splits)

lemma parse_addr_Inr_colon: "parse_addr s = Some (Inr bs) \<Longrightarrow> CHR '':'' \<in> set s"
proof -
  assume p: "parse_addr s = Some (Inr bs)"
  then obtain i where i: "strings_IndexAny s ''.:%'' = Some i" "s ! i = CHR '':''"
    by (auto simp: parse_addr_def split: option.splits if_splits)
  have "strings_IndexAny t cs = Some j \<Longrightarrow> j < length t" for t cs j
    by (induction t arbitrary: j) (auto split: if_splits)
  with i show ?thesis by (metis nth_mem)
qed

lemma v6_needs_colon:
  assumes "net_ParseIP s = Some a" and "ip_To4 a = None"
  shows "CHR '':'' \<in> set s"
proof -
  obtain r where r: "parse_addr s = Some r" "a = as_16 r"
    using assms(1) by (auto simp: net_ParseIP_def)
  show ?thesis
  proof (cases r)
    case (Inl f)
    then have "parse_v4_fields [] 0 0 s = Some f"
      using r(1) by (auto simp: parse_addr_def split: option.splits if_splits)
    then have "length f = 4" by (auto dest: parse_v4_fields_length)
    with Inl r(2) assms(2) show ?thesis by (simp add: To4_of_v4)
  next
    case (Inr bs)
    with r(1) show ?thesis by (auto intro: parse_addr_Inr_colon)
  qed
qed

lemma ParseIP_no_percent: "net_ParseIP s = Some a \<Longrightarrow> ip_To4 a = None \<Longrightarrow> CHR ''%'' \<notin> set s"
proof -
  assume p: "net_ParseIP s = Some a" "ip_To4 a = None"
  then obtain r where r: "parse_addr s = Some r" "a = as_16 r"
    by (auto simp: net_ParseIP_def)
  show ?thesis
  proof (cases r)
    case (Inl f)
    then have "parse_v4_fields [] 0 0 s = Some f"
      using r(1) by (auto simp: parse_addr_def split: option.splits if_splits)
    then have "length f = 4" by (auto dest: parse_v4_fields_length)
    with Inl r(2) p(2) show ?thesis by (simp add: To4_of_v4)
  next
    case (Inr bs)
    with r(1) show ?thesis by (auto simp: parse_addr_def split: option.splits if_splits)
  qed
qed

lemma SplitHostPort_plain:
  assumes "set h \<inter> set '':[]'' = {}" and "set p \<inter> set '':[]'' = {}"
  shows "net_SplitHostPort (h @ CHR '':'' # p) = Some (h, p)"
proof -
  have "strings_LastIndexByte (h @ CHR '':'' # p) (CHR '':'') = Some (length h)"
    using assms by (intro LastIndexByte_append) auto
  moreover have "\<not> strings_HasPrefix (h @ CHR '':'' # p) ''[''"
    using assms by (cases h) auto
  ultimately show ?thesis using assms by (auto simp: net_SplitHostPort_def)
qed

lemma SplitHostPort_bracketed:
  assumes "set h \<inter> set ''[]'' = {}" and "set p \<inter> set '':[]'' = {}"
  shows "net_SplitHostPort (''['' @ h @ '']:'' @ p) = Some (h, p)"
proof -
  let ?s = "CHR ''['' # h @ CHR '']'' # CHR '':'' # p"
  have l: "strings_LastIndexByte ?s (CHR '':'') = Some (Suc (Suc (length h)))"
    using assms LastIndexByte_append [of "CHR '':''" p "CHR ''['' # h @ '']''"] by auto
  have i: "strings_IndexByte ?s (CHR '']'') = Some (Suc (length h))"
    using assms IndexByte_append [of "CHR '']''" "CHR ''['' # h" "CHR '':'' # p"] by auto
  have "net_SplitHostPort ?s = Some (h, p)"
    using assms by (simp add: net_SplitHostPort_def l i del: strings_LastIndexByte.simps strings_IndexByte.simps)
  then show ?thesis by simp
qed

lemma SplitHostPort_no_brackets:
  assumes "net_SplitHostPort s = Some (h, p)" and "\<not> strings_HasPrefix s ''[''"
  shows "s = h @ CHR '':'' # p \<and> set h \<inter> set '':[]'' = {} \<and> set p \<inter> set '':[]'' = {}"
proof -
  obtain i where i: "strings_LastIndexByte s (CHR '':'') = Some i"
    using assms(1) by (auto simp: net_SplitHostPort_def split: option.splits)
  have hp: "h = take i s" "p = drop (Suc i) s" "CHR '':'' \<notin> set (take i s)"
    "CHR ''['' \<notin> set s" "CHR '']'' \<notin> set s"
    using assms i by (auto simp: net_SplitHostPort_def split: if_splits)
  moreover have "s = take i s @ CHR '':'' # drop (Suc i) s" "CHR '':'' \<notin> set (drop (Suc i) s)"
    using LastIndexByte_split [OF i] by auto
  ultimately show ?thesis by (auto dest: in_set_takeD in_set_dropD)
qed

lemma cidr_mask_numeral: "cidr_mask n (numeral k) = cidr_mask n (Suc (pred_numeral k))"
  by (simp add: numeral_eq_Suc)

lemma replicate_numeral_eval: "replicate (numeral k) x = x # replicate (pred_numeral k) x"
  by (simp add: numeral_eq_Suc)

lemmas ip_eval =
  net_ParseIP_def parse_addr_def parse_v4_fields.simps parse_v6_def v6_groups.simps hex_group.simps
  hex_val_def hex_letters_def v4_in_v6_prefix_def as_16_def ip_To4_def ip_IsLinkLocalUnicast_def
  ip_IsLoopback_def ip_IsUnspecified_def

lemmas cidr_eval =
  net_ParseCIDR_def cidr_mask.simps cidr_mask_numeral ip_Mask_def ipnet_Contains_def
  Let_def replicate_numeral_eval

lemmas hostport_eval = net_SplitHostPort_def net_JoinHostPort_def

declare ip_eval [go_eval] cidr_eval [go_eval] hostport_eval [go_eval]

end
