(* ===== verification/Netutil.thy ===== *)
theory Netutil
  imports GoNet
begin

text \<open>
  Package \<open>internal/pkg/netutil\<close> (\<open>netutil.go\<close>): classifying address strings and formatting
  host and port pairs, URLs and host engine endpoints.
\<close>

section \<open>Address strings\<close>

definition stripBrackets :: "string \<Rightarrow> string" where
  "stripBrackets s =
     (if strings_HasPrefix s ''['' \<and> strings_HasSuffix s '']''
      then take (length s - 2) (drop 1 s) else s)"

definition stripZone :: "string \<Rightarrow> string" where
  "stripZone s =
     (case strings_IndexByte s (CHR ''%'') of Some idx \<Rightarrow> take idx s | None \<Rightarrow> s)"

definition IsIPv6 :: "string \<Rightarrow> bool" where
  "IsIPv6 ipStr =
     (let clean = stripZone (stripBrackets ipStr)
      in case net_ParseIP clean of None \<Rightarrow> False | Some ip \<Rightarrow> ip_To4 ip = None)"

definition IsLinkLocal :: "string \<Rightarrow> bool" where
  "IsLinkLocal ipStr =
     (let clean = stripZone (stripBrackets ipStr)
      in case net_ParseIP clean of
           None \<Rightarrow> False
         | Some ip \<Rightarrow> ip_To4 ip = None \<and> ip_IsLinkLocalUnicast ip)"

definition AttachScopeIfLinkLocal :: "string \<Rightarrow> string \<Rightarrow> string" where
  "AttachScopeIfLinkLocal ipStr iface =
     (if iface = [] \<or> \<not> IsLinkLocal ipStr then ipStr
      else if strings_Contains ipStr ''%'' then ipStr
      else if strings_HasPrefix ipStr ''['' \<and> strings_HasSuffix ipStr '']''
      then ''['' @ take (length ipStr - 2) (drop 1 ipStr) @ ''%'' @ iface @ '']''
      else ipStr @ ''%'' @ iface)"

section \<open>Formatting\<close>

definition FormatHostPort :: "string \<Rightarrow> int \<Rightarrow> string" where
  "FormatHostPort host port =
     (let cleanHost = stripBrackets host
      in net_JoinHostPort cleanHost (strconv_Itoa port))"

definition FormatHTTPURL :: "string \<Rightarrow> string \<Rightarrow> int \<Rightarrow> string \<Rightarrow> string" where
  "FormatHTTPURL scheme host port path =
     (let scheme = (if scheme = [] then ''http'' else scheme);
          cleanHost = stripBrackets host;
          cleanHost =
            (if strings_Contains cleanHost ''%'' \<and> \<not> strings_Contains cleanHost ''%25''
             then strings_ReplaceFirst cleanHost ''%'' ''%25'' else cleanHost);
          hostPort = net_JoinHostPort cleanHost (strconv_Itoa port);
          path = (if \<not> strings_HasPrefix path ''/'' then ''/'' @ path else path)
      in scheme @ ''://'' @ hostPort @ path)"

section \<open>Normalising endpoints\<close>

datatype endpoint_error =
    EmptyEndpoint
  | MalformedBracketed string
  | InvalidAfterBracket string

text \<open>The scheme and the remainder \<open>NormalizeEndpoint\<close> works on.\<close>

definition endpoint_scheme :: "string \<Rightarrow> string" where
  "endpoint_scheme endpoint = (if strings_HasPrefix endpoint ''tcp://'' then ''tcp://'' else [])"

definition endpoint_rem :: "string \<Rightarrow> string" where
  "endpoint_rem endpoint = strings_TrimPrefix endpoint ''tcp://''"

definition non_tcp :: "string \<Rightarrow> bool" where
  "non_tcp endpoint =
     (strings_HasPrefix endpoint ''vsock://'' \<or> strings_HasPrefix endpoint ''unix://'')"

definition normalize_bracketed ::
  "string \<Rightarrow> string \<Rightarrow> string \<Rightarrow> int \<Rightarrow> endpoint_error + string" where
  "normalize_bracketed endpoint scheme rem defaultPort =
     (case strings_IndexByte rem (CHR '']'') of
        None \<Rightarrow> Inl (MalformedBracketed endpoint)
      | Some closeBracket \<Rightarrow>
          (let hostPart = take (closeBracket - 1) (drop 1 rem);
               rest = drop (closeBracket + 1) rem
           in if rest = [] then Inr (scheme @ ''['' @ hostPart @ '']:'' @ strconv_Itoa defaultPort)
              else if \<not> strings_HasPrefix rest '':'' then Inl (InvalidAfterBracket endpoint)
              else Inr endpoint))"

text \<open>The host and the port of an unbracketed IPv6 address followed by a port.\<close>

definition split_ipv6_port :: "string \<Rightarrow> (string \<times> int) option" where
  "split_ipv6_port rem =
     (case strings_LastIndexByte rem (CHR '':'') of
        None \<Rightarrow> None
      | Some lastColon \<Rightarrow>
          (let possibleHost = take lastColon rem;
               possiblePort = drop (lastColon + 1) rem
           in case strconv_Atoi possiblePort of
                None \<Rightarrow> None
              | Some p \<Rightarrow>
                  (if 0 < p \<and> p \<le> 65535 \<and> IsIPv6 possibleHost then Some (possibleHost, p)
                   else None)))"

definition normalize_unbracketed :: "string \<Rightarrow> string \<Rightarrow> string \<Rightarrow> int \<Rightarrow> string" where
  "normalize_unbracketed endpoint scheme rem defaultPort =
     (case net_SplitHostPort rem of
        Some (host, portStr) \<Rightarrow>
          (if IsIPv6 host then scheme @ ''['' @ host @ '']:'' @ portStr else endpoint)
      | None \<Rightarrow>
          (case split_ipv6_port rem of
             Some (possibleHost, p) \<Rightarrow> scheme @ ''['' @ possibleHost @ '']:'' @ strconv_Itoa p
           | None \<Rightarrow>
               (if IsIPv6 rem then scheme @ ''['' @ rem @ '']:'' @ strconv_Itoa defaultPort
                else scheme @ rem @ '':'' @ strconv_Itoa defaultPort)))"

definition NormalizeEndpoint :: "string \<Rightarrow> int \<Rightarrow> endpoint_error + string" where
  "NormalizeEndpoint endpoint0 defaultPort =
     (let endpoint = strings_TrimSpace endpoint0
      in if endpoint = [] then Inl EmptyEndpoint
         else if non_tcp endpoint then Inr endpoint
         else
           (let scheme = endpoint_scheme endpoint; rem = endpoint_rem endpoint
            in if strings_HasPrefix rem ''[''
               then normalize_bracketed endpoint scheme rem defaultPort
               else Inr (normalize_unbracketed endpoint scheme rem defaultPort)))"

lemmas netutil_eval =
  stripBrackets_def stripZone_def IsIPv6_def IsLinkLocal_def AttachScopeIfLinkLocal_def
  FormatHostPort_def FormatHTTPURL_def endpoint_scheme_def endpoint_rem_def non_tcp_def
  normalize_bracketed_def split_ipv6_port_def normalize_unbracketed_def NormalizeEndpoint_def

declare netutil_eval [go_eval]

section \<open>Facts about address strings\<close>

lemma set_stripBrackets: "set (stripBrackets s) \<subseteq> set s"
  by (auto simp: stripBrackets_def dest: in_set_takeD in_set_dropD)

lemma set_stripZone: "set (stripZone s) \<subseteq> set s"
  by (auto simp: stripZone_def split: option.splits dest: in_set_takeD)

lemma stripBrackets_plain: "\<not> strings_HasPrefix s ''['' \<Longrightarrow> stripBrackets s = s"
  by (simp add: stripBrackets_def)

lemma stripBrackets_bracketed [simp]: "stripBrackets (CHR ''['' # s @ '']'') = s"
proof -
  have "strings_HasSuffix (CHR ''['' # s @ '']'') '']''" by (simp add: HasSuffix_single)
  then show ?thesis by (simp add: stripBrackets_def)
qed

lemma stripZone_none: "CHR ''%'' \<notin> set s \<Longrightarrow> stripZone s = s"
  using IndexByte_None [of s "CHR ''%''"] by (simp add: stripZone_def)

lemma stripZone_scoped: "CHR ''%'' \<notin> set s \<Longrightarrow> stripZone (s @ CHR ''%'' # z) = s"
  by (simp add: stripZone_def IndexByte_append)

lemma IsIPv6_colon: "IsIPv6 s \<Longrightarrow> CHR '':'' \<in> set s"
  using set_stripBrackets [of s] set_stripZone [of "stripBrackets s"]
  by (auto simp: IsIPv6_def Let_def split: option.splits dest!: v6_needs_colon)

lemma IsLinkLocal_IsIPv6: "IsLinkLocal s \<Longrightarrow> IsIPv6 s"
  by (auto simp: IsLinkLocal_def IsIPv6_def Let_def split: option.splits)

lemma IsLinkLocal_cong:
  "stripZone (stripBrackets s) = stripZone (stripBrackets t) \<Longrightarrow> IsLinkLocal s = IsLinkLocal t"
  by (simp add: IsLinkLocal_def)

text \<open>A host \<open>net.SplitHostPort\<close> returns for an unbracketed string is never an IPv6 address.\<close>

lemma split_host_not_IPv6:
  assumes "net_SplitHostPort rem = Some (host, portStr)" and "\<not> strings_HasPrefix rem ''[''"
  shows "\<not> IsIPv6 host"
  using SplitHostPort_no_brackets [OF assms] IsIPv6_colon by auto

section \<open>Facts about endpoints\<close>

text \<open>The shape every endpoint the program hands on should have.\<close>

definition normal_endpoint :: "string \<Rightarrow> bool" where
  "normal_endpoint r =
     (r \<noteq> [] \<and> strings_TrimSpace r = r
      \<and> (non_tcp r \<or> net_SplitHostPort (endpoint_rem r) \<noteq> None))"

text \<open>
  The inputs the normaliser is meant for: a host with at most one colon and no brackets, an
  IPv6 address with or without a port, or a bracketed host with or without a port.
\<close>

definition bracket_free :: "string \<Rightarrow> bool" where
  "bracket_free s = (CHR ''['' \<notin> set s \<and> CHR '']'' \<notin> set s)"

definition well_formed_rem :: "string \<Rightarrow> bool" where
  "well_formed_rem rem \<longleftrightarrow>
     bracket_free rem \<and> (strings_CountByte rem (CHR '':'') \<le> 1 \<or> IsIPv6 rem
                           \<or> split_ipv6_port rem \<noteq> None)
   \<or> (\<exists>h p. bracket_free h \<and> bracket_free p \<and> CHR '':'' \<notin> set p
          \<and> (rem = CHR ''['' # h @ '']'' \<or> rem = CHR ''['' # h @ '']:'' @ p))"

definition well_formed_endpoint :: "string \<Rightarrow> bool" where
  "well_formed_endpoint e \<longleftrightarrow>
     (let t = strings_TrimSpace e in non_tcp t \<or> well_formed_rem (endpoint_rem t))"

lemma endpoint_split: "endpoint_scheme e @ endpoint_rem e = e"
  by (auto simp: endpoint_scheme_def endpoint_rem_def strings_TrimPrefix_def HasPrefix_iff)

lemma endpoint_scheme_cases: "endpoint_scheme e = ''tcp://'' \<or> endpoint_scheme e = [] \<and> endpoint_rem e = e"
  by (auto simp: endpoint_scheme_def endpoint_rem_def strings_TrimPrefix_def)

lemma endpoint_rem_tcp [simp]: "endpoint_rem (''tcp://'' @ x) = x"
  by (simp add: endpoint_rem_def strings_TrimPrefix_def)

lemma endpoint_rem_bracket [simp]: "endpoint_rem (CHR ''['' # x) = CHR ''['' # x"
  by (simp add: endpoint_rem_def strings_TrimPrefix_def)

lemma normal_endpoint_stable:
  assumes "normal_endpoint r"
  shows "NormalizeEndpoint r dp = Inr r"
proof (cases "non_tcp r")
  case True
  with assms show ?thesis by (simp add: NormalizeEndpoint_def normal_endpoint_def)
next
  case False
  then obtain h p where hp: "net_SplitHostPort (endpoint_rem r) = Some (h, p)"
    using assms by (auto simp: normal_endpoint_def)
  show ?thesis
  proof (cases "strings_HasPrefix (endpoint_rem r) ''[''")
    case True
    then obtain e where e: "strings_IndexByte (endpoint_rem r) (CHR '']'') = Some e"
      and l: "strings_LastIndexByte (endpoint_rem r) (CHR '':'') = Some (Suc e)"
      using hp by (auto simp: net_SplitHostPort_def split: option.splits if_splits)
    have "drop (Suc e) (endpoint_rem r) = CHR '':'' # drop (Suc (Suc e)) (endpoint_rem r)"
      using LastIndexByte_split [OF l]
      by (metis append_eq_conv_conj length_take min.absorb2 order_less_imp_le)
    with True e False assms show ?thesis
      by (simp add: NormalizeEndpoint_def normal_endpoint_def normalize_bracketed_def)
  next
    case nb: False
    with hp False assms split_host_not_IPv6 [OF hp nb] show ?thesis
      by (simp add: NormalizeEndpoint_def normal_endpoint_def normalize_unbracketed_def)
  qed
qed

lemma plain_ascii [simp]:
  "plain_byte (CHR '':'')" "plain_byte (CHR ''['')" "plain_byte (CHR '']'')" "plain_byte (CHR ''t'')"
  by (simp_all add: plain_byte_def unicode_spaces_def)

lemma bracket_free_Itoa [simp]: "bracket_free (strconv_Itoa i)"
  by (simp add: bracket_free_def Itoa_no)

lemma Itoa_no_colon [simp]: "CHR '':'' \<notin> set (strconv_Itoa i)"
  by (simp add: Itoa_no)

text \<open>The remainder the normaliser builds in the bracketed and in the plain form.\<close>

lemma split_built_bracketed:
  "bracket_free h \<Longrightarrow> bracket_free p \<Longrightarrow> CHR '':'' \<notin> set p
    \<Longrightarrow> net_SplitHostPort (CHR ''['' # h @ '']:'' @ p) = Some (h, p)"
  using SplitHostPort_bracketed [of h p] by (auto simp: bracket_free_def)

lemma split_built_plain:
  "bracket_free h \<Longrightarrow> CHR '':'' \<notin> set h \<Longrightarrow> bracket_free p \<Longrightarrow> CHR '':'' \<notin> set p
    \<Longrightarrow> net_SplitHostPort (h @ CHR '':'' # p) = Some (h, p)"
  by (rule SplitHostPort_plain) (auto simp: bracket_free_def)

lemma normal_bracketed:
  assumes "s = ''tcp://'' \<or> s = []" and "bracket_free h"
  shows "normal_endpoint (s @ ''['' @ h @ '']:'' @ strconv_Itoa i)"
proof -
  let ?x = "CHR ''['' # h @ '']:'' @ strconv_Itoa i"
  have split: "net_SplitHostPort ?x = Some (h, strconv_Itoa i)"
    using assms(2) split_built_bracketed [of h "strconv_Itoa i"] by simp
  have trim: "strings_TrimSpace (s @ ?x) = s @ ?x"
    using assms(1) by (intro TrimSpace_plain) (auto simp: Itoa_last_plain)
  have "endpoint_rem (s @ ?x) = ?x"
    using assms(1) endpoint_rem_tcp [of ?x] by auto
  then show ?thesis
    using split trim by (simp add: normal_endpoint_def)
qed

lemma rem_plus_port_no_scheme:
  assumes "\<not> strings_HasPrefix r ''tcp://''"
  shows "\<not> strings_HasPrefix (r @ CHR '':'' # strconv_Itoa i) ''tcp://''"
proof
  assume p: "strings_HasPrefix (r @ CHR '':'' # strconv_Itoa i) ''tcp://''"
  have slash: "CHR ''/'' \<notin> set (strconv_Itoa i)" by (simp add: Itoa_no)
  obtain c d where c: "strconv_Itoa i = c # d" using Itoa_nonempty by (meson neq_Nil_conv)
  have "6 \<le> length r"
  proof (rule ccontr)
    assume "\<not> 6 \<le> length r"
    then have "length r = 0 \<or> length r = 1 \<or> length r = 2 \<or> length r = 3 \<or> length r = 4 \<or> length r = 5"
      by linarith
    then show False
      using p slash c by (auto simp: strings_HasPrefix_def length_Suc_conv numeral_eq_Suc)
  qed
  with p assms show False by (simp add: strings_HasPrefix_def)
qed

lemma normal_plain:
  assumes t: "strings_TrimSpace e = e" "e \<noteq> []" and h: "bracket_free (endpoint_rem e)" "CHR '':'' \<notin> set (endpoint_rem e)"
  shows "normal_endpoint (e @ '':'' @ strconv_Itoa i)"
proof -
  let ?r = "endpoint_rem e" and ?x = "CHR '':'' # strconv_Itoa i"
  have "endpoint_rem (e @ ?x) = ?r @ ?x"
  proof (cases "strings_HasPrefix e ''tcp://''")
    case True
    then obtain y where "e = ''tcp://'' @ y" by (auto simp: HasPrefix_iff)
    then show ?thesis using endpoint_rem_tcp [of "y @ ?x"] endpoint_rem_tcp [of y] by simp
  next
    case False
    then show ?thesis
      using rem_plus_port_no_scheme [OF False] by (simp add: endpoint_rem_def strings_TrimPrefix_def)
  qed
  moreover have "net_SplitHostPort (?r @ ?x) = Some (?r, strconv_Itoa i)"
    using h by (simp add: split_built_plain)
  moreover have "strings_TrimSpace (e @ ?x) = e @ ?x"
    using t by (intro TrimSpace_append) (auto simp: Itoa_last_plain)
  ultimately show ?thesis by (simp add: normal_endpoint_def)
qed

lemma count_le_1_cases:
  assumes "strings_CountByte s c \<le> 1"
  obtains "c \<notin> set s" | a b where "s = a @ c # b" and "c \<notin> set a" and "c \<notin> set b"
proof (cases "c \<in> set s")
  case True
  then obtain a b where s: "s = a @ c # b" and a: "c \<notin> set a"
    by (meson split_list_first)
  have "filter (\<lambda>x. x = c) b = []" using assms s by (simp add: strings_CountByte_def)
  then have "c \<notin> set b" by (auto simp: filter_empty_conv)
  with s a show ?thesis by (rule that(2))
qed (rule that(1))

lemma normal_trim:
  assumes "strings_TrimSpace e \<noteq> []" and "net_SplitHostPort (endpoint_rem (strings_TrimSpace e)) \<noteq> None"
  shows "normal_endpoint (strings_TrimSpace e)"
  using assms by (simp add: normal_endpoint_def)

lemma bracket_free_take: "bracket_free s \<Longrightarrow> bracket_free (take n s)"
  by (auto simp: bracket_free_def dest: in_set_takeD)

lemma normalize_bracketed_normal:
  assumes t: "strings_TrimSpace e = e" "e \<noteq> []"
    and rem: "endpoint_rem e = CHR ''['' # h @ '']'' \<or> endpoint_rem e = CHR ''['' # h @ '']:'' @ p"
    and free: "bracket_free h" "bracket_free p" "CHR '':'' \<notin> set p"
    and r: "normalize_bracketed e (endpoint_scheme e) (endpoint_rem e) dp = Inr r"
  shows "normal_endpoint r"
proof -
  have idx: "strings_IndexByte (CHR ''['' # h @ CHR '']'' # x) (CHR '']'') = Some (Suc (length h))" for x
    using free(1) IndexByte_append [of "CHR '']''" "CHR ''['' # h" x] by (auto simp: bracket_free_def)
  show ?thesis
    using rem
  proof
    assume "endpoint_rem e = CHR ''['' # h @ '']''"
    then have "r = endpoint_scheme e @ ''['' @ h @ '']:'' @ strconv_Itoa dp"
      using r idx [of "[]"] by (simp add: normalize_bracketed_def)
    then show ?thesis using endpoint_scheme_cases [of e] free(1) normal_bracketed by blast
  next
    assume e: "endpoint_rem e = CHR ''['' # h @ '']:'' @ p"
    then have "r = e"
      using r idx [of "CHR '':'' # p"] by (simp add: normalize_bracketed_def)
    moreover have "net_SplitHostPort (endpoint_rem e) = Some (h, p)"
      using free split_built_bracketed e by simp
    ultimately show ?thesis using t by (simp add: normal_endpoint_def)
  qed
qed

lemma split_ipv6_portE:
  assumes "split_ipv6_port rem = Some (h, p)"
  obtains i where "h = take i rem" and "IsIPv6 h"
  using assms by (auto simp: split_ipv6_port_def Let_def split: option.splits if_splits)

lemma normalize_unbracketed_normal:
  assumes t: "strings_TrimSpace e = e" "e \<noteq> []" and nb: "\<not> strings_HasPrefix (endpoint_rem e) ''[''"
    and free: "bracket_free (endpoint_rem e)"
    and colons: "strings_CountByte (endpoint_rem e) (CHR '':'') \<le> 1 \<or> IsIPv6 (endpoint_rem e)
       \<or> split_ipv6_port (endpoint_rem e) \<noteq> None"
  shows "normal_endpoint (normalize_unbracketed e (endpoint_scheme e) (endpoint_rem e) dp)"
proof -
  let ?rem = "endpoint_rem e" and ?s = "endpoint_scheme e"
  have s: "?s = ''tcp://'' \<or> ?s = []" using endpoint_scheme_cases [of e] by blast
  show ?thesis
  proof (cases "net_SplitHostPort ?rem")
    case (Some hp)
    then obtain h p where hp: "net_SplitHostPort ?rem = Some (h, p)" by (cases hp) auto
    then have "normalize_unbracketed e ?s ?rem dp = e"
      using split_host_not_IPv6 [OF hp nb] by (simp add: normalize_unbracketed_def)
    then show ?thesis using t hp by (simp add: normal_endpoint_def)
  next
    case no_split: None
    show ?thesis
    proof (cases "split_ipv6_port ?rem")
      case (Some hp)
      then obtain h p where hp: "split_ipv6_port ?rem = Some (h, p)" by (cases hp) auto
      then have "bracket_free h" using free bracket_free_take by (metis split_ipv6_portE)
      then show ?thesis
        using no_split hp s normal_bracketed [of ?s h p] by (simp add: normalize_unbracketed_def)
    next
      case no_port: None
      show ?thesis
      proof (cases "IsIPv6 ?rem")
        case True
        then show ?thesis
          using no_split no_port s free normal_bracketed [of ?s ?rem dp]
          by (simp add: normalize_unbracketed_def)
      next
        case False
        then have "strings_CountByte ?rem (CHR '':'') \<le> 1" using colons no_port by simp
        then have "CHR '':'' \<notin> set ?rem"
        proof (rule count_le_1_cases)
          fix a b
          assume "?rem = a @ CHR '':'' # b" "CHR '':'' \<notin> set a" "CHR '':'' \<notin> set b"
          then have False using no_split free split_built_plain [of a b] by (auto simp: bracket_free_def)
          then show ?thesis ..
        qed
        moreover have "normalize_unbracketed e ?s ?rem dp = e @ '':'' @ strconv_Itoa dp"
          using no_split no_port False endpoint_split [of e]
          by (simp add: normalize_unbracketed_def flip: append_assoc)
        ultimately show ?thesis using t free normal_plain [of e dp] by simp
      qed
    qed
  qed
qed

lemma NormalizeEndpoint_normal:
  assumes "well_formed_endpoint e" and "NormalizeEndpoint e dp = Inr r"
  shows "normal_endpoint r"
proof -
  let ?t = "strings_TrimSpace e" and ?rem = "endpoint_rem (strings_TrimSpace e)"
  have t: "?t \<noteq> []" using assms(2) by (auto simp: NormalizeEndpoint_def)
  show ?thesis
  proof (cases "non_tcp ?t")
    case True
    with assms(2) t show ?thesis by (auto simp: NormalizeEndpoint_def normal_endpoint_def)
  next
    case False
    then have wf: "well_formed_rem ?rem" using assms(1) by (simp add: well_formed_endpoint_def Let_def)
    show ?thesis
    proof (cases "strings_HasPrefix ?rem ''[''")
      case True
      then have "\<not> bracket_free ?rem" by (auto simp: HasPrefix_iff bracket_free_def)
      then obtain h p where "bracket_free h" "bracket_free p" "CHR '':'' \<notin> set p"
        "?rem = CHR ''['' # h @ '']'' \<or> ?rem = CHR ''['' # h @ '']:'' @ p"
        using wf by (auto simp: well_formed_rem_def)
      moreover have "normalize_bracketed ?t (endpoint_scheme ?t) ?rem dp = Inr r"
        using assms(2) False t True by (simp add: NormalizeEndpoint_def Let_def)
      ultimately show ?thesis using normalize_bracketed_normal [of ?t h p dp r] t by simp
    next
      case nb: False
      then have "bracket_free ?rem \<and> (strings_CountByte ?rem (CHR '':'') \<le> 1 \<or> IsIPv6 ?rem
           \<or> split_ipv6_port ?rem \<noteq> None)"
        using wf by (auto simp: well_formed_rem_def)
      moreover have "r = normalize_unbracketed ?t (endpoint_scheme ?t) ?rem dp"
        using assms(2) False t nb by (simp add: NormalizeEndpoint_def Let_def)
      ultimately show ?thesis using normalize_unbracketed_normal [of ?t dp] t nb by simp
    qed
  qed
qed

section \<open>IPv6 addresses have two colons\<close>

lemma CountByte_Cons [simp]:
  "strings_CountByte (x # xs) c = (if x = c then Suc (strings_CountByte xs c) else strings_CountByte xs c)"
  by (simp add: strings_CountByte_def)

lemma CountByte_Nil [simp]: "strings_CountByte [] c = 0"
  by (simp add: strings_CountByte_def)

lemma CountByte_append [simp]:
  "strings_CountByte (a @ b) c = strings_CountByte a c + strings_CountByte b c"
  by (simp add: strings_CountByte_def)

lemma CountByte_take: "strings_CountByte (take n s) c \<le> strings_CountByte s c"
  by (metis CountByte_append append_take_drop_id le_add1)

lemma CountByte_drop: "strings_CountByte (drop n s) c \<le> strings_CountByte s c"
  by (metis CountByte_append append_take_drop_id le_add2)

lemma hex_group_count:
  "hex_group acc off s = Some (v, n, r) \<Longrightarrow> strings_CountByte r c \<le> strings_CountByte s c"
  by (induction acc off s rule: hex_group.induct) (auto split: option.splits if_splits)

lemma v6_groups_count:
  assumes "v6_groups bs ell s = Some (bs', ell', r)"
  shows "(ell' = None \<longrightarrow> length bs' \<le> length bs + 2 * strings_CountByte s (CHR '':'') + 4)
       \<and> (ell = None \<and> ell' \<noteq> None \<longrightarrow> 2 \<le> strings_CountByte s (CHR '':''))"
  using assms
proof (induction bs ell s rule: v6_groups.induct)
  case (1 bs ell s)
  show ?case
  proof (cases "16 \<le> length bs")
    case True
    with "1.prems" show ?thesis by (auto simp: v6_groups.simps [of bs])
  next
    case small: False
    then obtain acc off q where g: "hex_group 0 0 s = Some (acc, off, q)" and off: "off \<noteq> 0"
      using "1.prems" by (auto simp: v6_groups.simps [of bs] split: option.splits prod.splits if_splits)
    note le = hex_group_count [OF g, of "CHR '':''"]
    note eq = "1.prems"
    show ?thesis
    proof (cases "strings_HasPrefix q ''.''")
      case True
      with eq small g off show ?thesis
        by (auto simp: v6_groups.simps [of bs] split: if_splits dest!: parse_v4_fields_length)
    next
      case nodot: False
      show ?thesis
      proof (cases q)
        case Nil
        with eq small g off show ?thesis by (auto simp: v6_groups.simps [of bs] Let_def)
      next
        case (Cons c r1)
        then have r1: "c = CHR '':''" "r1 \<noteq> []"
          using eq small g off nodot by (auto simp: v6_groups.simps [of bs] Let_def split: if_splits)
        show ?thesis
        proof (cases "strings_HasPrefix r1 '':''")
          case False
          then have "v6_groups (bs @ [acc div 256, acc mod 256]) ell r1 = Some (bs', ell', r)"
            using eq small g off nodot Cons r1 by (simp add: v6_groups.simps [of bs] Let_def)
          from "1.IH"(2) [OF small g refl refl off nodot refl Cons _ False this] small r1 le Cons
          show ?thesis by auto
        next
          case True
          then obtain r2 where r2: "r1 = CHR '':'' # r2" by (auto simp: HasPrefix_iff)
          then have two: "2 \<le> strings_CountByte s (CHR '':'')" using le Cons r1 by simp
          show ?thesis
          proof (cases "r2 = []")
            case True
            with eq small g off nodot Cons r1 r2 two show ?thesis
              by (auto simp: v6_groups.simps [of bs] Let_def split: if_splits)
          next
            case nonempty: False
            then have v: "v6_groups (bs @ [acc div 256, acc mod 256]) (Some (length bs + 2)) r2 = Some (bs', ell', r)"
              and "ell = None"
              using eq small g off nodot Cons r1 r2
              by (auto simp: v6_groups.simps [of bs] Let_def split: if_splits)
            from "1.IH"(1) [OF small g refl refl off nodot refl Cons _ True _ _] v nonempty r2 small r1 le Cons two \<open>ell = None\<close>
            show ?thesis by auto
          qed
        qed
      qed
    qed
  qed
qed

lemma parse_v6_two_colons:
  assumes "parse_v6 s = Some bs"
  shows "2 \<le> strings_CountByte s (CHR '':'')"
proof (cases "strings_HasPrefix s ''::''")
  case True
  then show ?thesis by (auto simp: HasPrefix_iff)
next
  case False
  then have "s \<noteq> ''::''" by auto
  with False obtain bs' ell' where v: "v6_groups [] None s = Some (bs', ell', [])"
    and l: "ell' = None \<longrightarrow> 16 \<le> length bs'"
    using assms by (auto simp: parse_v6_def split: option.splits if_splits)
  show ?thesis
  proof (cases ell')
    case None
    with l v6_groups_count [OF v] show ?thesis by simp
  next
    case (Some e)
    with v6_groups_count [OF v] show ?thesis by simp
  qed
qed

lemma IsIPv6_two_colons:
  assumes "IsIPv6 s"
  shows "2 \<le> strings_CountByte s (CHR '':'')"
proof -
  let ?c = "stripZone (stripBrackets s)"
  obtain ip where ip: "net_ParseIP ?c = Some ip" "ip_To4 ip = None"
    using assms by (auto simp: IsIPv6_def Let_def split: option.splits)
  then obtain a where a: "parse_addr ?c = Some a" "ip = as_16 a" by (auto simp: net_ParseIP_def)
  have "2 \<le> strings_CountByte ?c (CHR '':'')"
  proof (cases a)
    case (Inl f)
    then have "length f = 4"
      using a(1) by (auto simp: parse_addr_def split: option.splits if_splits dest: parse_v4_fields_length)
    with Inl a(2) ip(2) show ?thesis by (simp add: To4_of_v4)
  next
    case (Inr bs)
    then have "parse_v6 ?c = Some bs"
      using a(1) by (auto simp: parse_addr_def split: option.splits if_splits)
    then show ?thesis by (rule parse_v6_two_colons)
  qed
  also have "\<dots> \<le> strings_CountByte (stripBrackets s) (CHR '':'')"
    by (auto simp: stripZone_def CountByte_take split: option.split)
  also have "\<dots> \<le> strings_CountByte s (CHR '':'')"
    using order_trans [OF CountByte_take CountByte_drop] by (auto simp: stripBrackets_def)
  finally show ?thesis .
qed

text \<open>So \<open>net.SplitHostPort\<close> refuses every unbracketed IPv6 address, with or without a port.\<close>

lemma split_two_colons:
  assumes "2 \<le> strings_CountByte s (CHR '':'')" and "\<not> strings_HasPrefix s ''[''"
  shows "net_SplitHostPort s = None"
proof (rule ccontr)
  assume "net_SplitHostPort s \<noteq> None"
  then obtain h p where "net_SplitHostPort s = Some (h, p)" by auto
  from SplitHostPort_no_brackets [OF this assms(2)]
  have "s = h @ CHR '':'' # p" "CHR '':'' \<notin> set h" "CHR '':'' \<notin> set p" by auto
  then have "strings_CountByte s (CHR '':'') = 1"
    by (auto simp: strings_CountByte_def filter_empty_conv)
  with assms(1) show False by simp
qed

lemma IsIPv6_nonempty: "IsIPv6 s \<Longrightarrow> s \<noteq> []"
  using IsIPv6_colon by fastforce

section \<open>Properties\<close>

text \<open>C17: once an endpoint of a supported form has been normalised, every later normalisation
  returns it unchanged, and it is ready to be dialled: it is a vsock or unix endpoint, or
  \<open>net.SplitHostPort\<close> splits what follows the optional \<open>tcp://\<close> into a host and a port.\<close>

theorem NormalizeEndpoint_idempotent:
  assumes "well_formed_endpoint e" and "NormalizeEndpoint e dp = Inr r"
  shows "NormalizeEndpoint r dp' = Inr r
    \<and> (non_tcp r \<or> (\<exists>h p. net_SplitHostPort (endpoint_rem r) = Some (h, p)))"
  using NormalizeEndpoint_normal [OF assms] normal_endpoint_stable
  by (auto simp: normal_endpoint_def)

lemma NormalizeEndpoint_idempotent_witness:
  "NormalizeEndpoint ''tcp://[fe80::1%vnet0]:5555'' 0 = Inr ''tcp://[fe80::1%vnet0]:5555''
   \<and> (non_tcp ''tcp://[fe80::1%vnet0]:5555''
      \<or> (\<exists>h p. net_SplitHostPort (endpoint_rem ''tcp://[fe80::1%vnet0]:5555'') = Some (h, p)))"
proof -
  have t: "strings_TrimSpace '' tcp://[fe80::1%vnet0] '' = ''tcp://[fe80::1%vnet0]''"
    by (simp add: space_eval strings_HasPrefix_def strings_HasSuffix_def)
  have "bracket_free ''fe80::1%vnet0'' \<and> bracket_free ([] :: string)"
    by (simp add: bracket_free_def)
  then have "well_formed_rem ''[fe80::1%vnet0]''"
    unfolding well_formed_rem_def
    by (intro disjI2 exI [of _ "''fe80::1%vnet0''"] exI [of _ "[]"]) simp
  then have "well_formed_endpoint '' tcp://[fe80::1%vnet0] ''"
    by (simp add: well_formed_endpoint_def t endpoint_rem_def strings_TrimPrefix_def Let_def)
  moreover have "NormalizeEndpoint '' tcp://[fe80::1%vnet0] '' 5555 = Inr ''tcp://[fe80::1%vnet0]:5555''"
    by (simp add: NormalizeEndpoint_def t) (simp add: go_eval)
  ultimately show ?thesis by (rule NormalizeEndpoint_idempotent)
qed

text \<open>C28: an unbracketed IPv6 host comes out in brackets, scope included. With a port, that is the port;
  without one it is the default port, unless the last group of the address can itself be read as a
  decimal port of a shorter address: then the normaliser takes it for the port.\<close>

theorem NormalizeEndpoint_brackets_IPv6:
  assumes "IsIPv6 h" and "bracket_free h" and "strings_TrimSpace (''tcp://'' @ h) = ''tcp://'' @ h"
    and "0 < p" and "p \<le> 65535"
  shows "NormalizeEndpoint (''tcp://'' @ h) dp =
           Inr (case split_ipv6_port h of
                  None \<Rightarrow> ''tcp://['' @ h @ '']:'' @ strconv_Itoa dp
                | Some (h', p') \<Rightarrow> ''tcp://['' @ h' @ '']:'' @ strconv_Itoa p')
       \<and> NormalizeEndpoint (''tcp://'' @ h @ '':'' @ strconv_Itoa p) dp
           = Inr (''tcp://['' @ h @ '']:'' @ strconv_Itoa p)"
proof -
  let ?hp = "h @ '':'' @ strconv_Itoa p"
  have no_prefix: "\<not> strings_HasPrefix (h @ x) ''[''" for x
    using assms(2) IsIPv6_nonempty [OF assms(1)] by (cases h) (auto simp: bracket_free_def)
  have scheme: "endpoint_scheme (''tcp://'' @ x) = ''tcp://''" "\<not> non_tcp (''tcp://'' @ x)" for x
    by (auto simp: endpoint_scheme_def non_tcp_def)
  have "net_SplitHostPort h = None"
    using split_two_colons [OF IsIPv6_two_colons [OF assms(1)]] no_prefix [of "[]"] by simp
  then have bare: "NormalizeEndpoint (''tcp://'' @ h) dp =
      Inr (case split_ipv6_port h of
             None \<Rightarrow> ''tcp://['' @ h @ '']:'' @ strconv_Itoa dp
           | Some (h', p') \<Rightarrow> ''tcp://['' @ h' @ '']:'' @ strconv_Itoa p')"
    using assms(1,3) no_prefix [of "[]"] scheme [of h] endpoint_rem_tcp [of h]
    by (simp add: NormalizeEndpoint_def normalize_unbracketed_def split: option.split)
  have trim: "strings_TrimSpace (''tcp://'' @ ?hp) = ''tcp://'' @ ?hp"
    by (rule TrimSpace_plain) (auto simp: Itoa_last_plain)
  have "2 \<le> strings_CountByte ?hp (CHR '':'')" using IsIPv6_two_colons [OF assms(1)] by simp
  then have "net_SplitHostPort ?hp = None" using no_prefix by (rule split_two_colons)
  moreover have "split_ipv6_port ?hp = Some (h, p)"
    using assms(1,4,5) by (simp add: split_ipv6_port_def LastIndexByte_append Atoi_Itoa)
  ultimately have "NormalizeEndpoint (''tcp://'' @ ?hp) dp = Inr (''tcp://['' @ h @ '']:'' @ strconv_Itoa p)"
    using trim no_prefix [of "'':'' @ strconv_Itoa p"] scheme [of ?hp] endpoint_rem_tcp [of ?hp]
    by (simp add: NormalizeEndpoint_def normalize_unbracketed_def)
  with bare show ?thesis by blast
qed

text \<open>The example is an address as a guest configures it for itself; its last group \<open>3456\<close> is read as
  a port, and the address loses it.\<close>

lemma NormalizeEndpoint_brackets_IPv6_witness:
  "NormalizeEndpoint ''tcp://2001:db8::5054:ff:fe12:3456'' 5555
     = Inr ''tcp://[2001:db8::5054:ff:fe12]:3456''
   \<and> NormalizeEndpoint ''tcp://2001:db8::5054:ff:fe12:3456:9400'' 5555
     = Inr ''tcp://[2001:db8::5054:ff:fe12:3456]:9400''"
proof -
  let ?h = "''2001:db8::5054:ff:fe12:3456''"
  have "IsIPv6 ?h" by (simp add: go_eval)
  moreover have "bracket_free ?h" by (simp add: bracket_free_def)
  moreover have "strings_TrimSpace (''tcp://'' @ ?h) = ''tcp://'' @ ?h"
    by (simp add: space_eval strings_HasPrefix_def strings_HasSuffix_def)
  moreover have "split_ipv6_port ?h = Some (''2001:db8::5054:ff:fe12'', 3456)" by (simp add: go_eval)
  moreover have "strconv_Itoa 3456 = ''3456''" "strconv_Itoa 9400 = ''9400''" by (simp_all add: go_eval)
  ultimately show ?thesis
    using NormalizeEndpoint_brackets_IPv6 [of ?h 9400 5555] by simp
qed

text \<open>scoping a link-local address keeps the address: what is left without brackets and zone
  is the original address, the result is still link-local, and scoping it again, with any
  interface, changes nothing.\<close>

theorem AttachScope_keeps_address:
  assumes "IsLinkLocal s" and "CHR ''%'' \<notin> set s" and "iface \<noteq> []" and "bracket_free iface"
  shows "stripZone (stripBrackets (AttachScopeIfLinkLocal s iface)) = stripBrackets s
    \<and> IsLinkLocal (AttachScopeIfLinkLocal s iface)
    \<and> AttachScopeIfLinkLocal (AttachScopeIfLinkLocal s iface) iface' = AttachScopeIfLinkLocal s iface"
proof -
  let ?r = "AttachScopeIfLinkLocal s iface"
  have r: "?r = (if strings_HasPrefix s ''['' \<and> strings_HasSuffix s '']''
                then CHR ''['' # stripBrackets s @ ''%'' @ iface @ '']'' else s @ ''%'' @ iface)"
    using assms by (auto simp: AttachScopeIfLinkLocal_def Contains_byte stripBrackets_def)
  have no: "CHR ''%'' \<notin> set (stripBrackets s)" using assms(2) set_stripBrackets by auto
  have strip: "stripZone (stripBrackets ?r) = stripBrackets s"
  proof (cases "strings_HasPrefix s ''['' \<and> strings_HasSuffix s '']''")
    case True
    then have "stripBrackets ?r = stripBrackets s @ CHR ''%'' # iface"
      using stripBrackets_bracketed [of "stripBrackets s @ ''%'' @ iface"] r by simp
    with no show ?thesis by (simp add: stripZone_scoped)
  next
    case False
    have "\<not> strings_HasSuffix (s @ ''%'' @ iface) '']''"
      using assms(3,4) by (auto simp: HasSuffix_single bracket_free_def dest: last_in_set)
    then have "stripBrackets ?r = s @ CHR ''%'' # iface" using r False by (auto simp: stripBrackets_def)
    moreover have "stripBrackets s = s" using False by (auto simp: stripBrackets_def)
    ultimately show ?thesis using assms(2) by (simp add: stripZone_scoped)
  qed
  moreover have "IsLinkLocal ?r"
    using assms(1) strip stripZone_none [OF no] by (subst IsLinkLocal_cong [of _ s]) simp_all
  moreover have "CHR ''%'' \<in> set ?r" using r by auto
  then have "AttachScopeIfLinkLocal ?r iface' = ?r"
    by (simp add: AttachScopeIfLinkLocal_def [of ?r] Contains_byte)
  ultimately show ?thesis by blast
qed

lemma AttachScope_keeps_address_witness:
  "stripZone (stripBrackets (AttachScopeIfLinkLocal ''[fe80::1]'' ''vnet0'')) = stripBrackets ''[fe80::1]''
   \<and> IsLinkLocal (AttachScopeIfLinkLocal ''[fe80::1]'' ''vnet0'')
   \<and> AttachScopeIfLinkLocal (AttachScopeIfLinkLocal ''[fe80::1]'' ''vnet0'') ''eth0''
       = AttachScopeIfLinkLocal ''[fe80::1]'' ''vnet0''"
  by (rule AttachScope_keeps_address) (simp_all add: go_eval bracket_free_def)

text \<open>the host and port that \<open>FormatHostPort\<close> joins are split again by
  \<open>net.SplitHostPort\<close>, whether the host is a name, an IPv4 address, or an IPv6 address with or
  without brackets and scope.\<close>

theorem FormatHostPort_roundtrip:
  assumes "bracket_free (stripBrackets host)"
  shows "net_SplitHostPort (FormatHostPort host port) = Some (stripBrackets host, strconv_Itoa port)"
  using assms split_built_bracketed [of "stripBrackets host" "strconv_Itoa port"]
    split_built_plain [of "stripBrackets host" "strconv_Itoa port"]
  by (simp add: FormatHostPort_def net_JoinHostPort_def Let_def)

lemma FormatHostPort_roundtrip_witness:
  "net_SplitHostPort (FormatHostPort ''[::1]'' 9401) = Some (stripBrackets ''[::1]'', strconv_Itoa 9401)"
  by (rule FormatHostPort_roundtrip) (simp add: go_eval bracket_free_def)

end
