(* ===== verification/Instance.thy ===== *)
theory Instance
  imports AppConfig Netutil
begin

text \<open>
  Package \<open>internal/pkg/supervisor\<close> (\<open>instance.go\<close>), the sequential part: the record of a child
  exporter, its construction, the name of its socket, the command line of the child process and
  the two HTTP requests sent to it. The supervision loop is the theory \<open>InstanceLoop\<close>.

  The HTTP client is a parameter: \<open>do url\<close> is what a GET request returns, and \<open>valid url\<close> says that
  \<open>http.NewRequest\<close> accepts the address.
\<close>

section \<open>State\<close>

datatype InstanceState =
  StateStarting | StateRunning | StateUnhealthy | StateRestarting | StateStopped

text \<open>The errors \<open>execProcess\<close> returns; the last one is the result of \<open>cmd.Wait\<close>.\<close>

datatype exec_error =
  ListenFailed string | NotUnixListener | ListenerFileFailed | StdoutPipeFailed | StderrPipeFailed
| StartFailed | ExitFailed string

text \<open>
  A context with its cancel function and a channel that is only ever closed are both owned by one
  run of the supervision loop, so \<open>inst_cancelFunc\<close> and \<open>inst_stoppedCh\<close> are the number of that run;
  \<open>None\<close> is the nil function and the channel made by \<open>NewInstance\<close>, which no run closes.
\<close>

record Instance =
  inst_Target :: Target
  inst_SocketPath :: string
  inst_Port :: int
  inst_Config :: ExporterConfig
  inst_state :: InstanceState
  inst_pid :: int
  inst_restartCount :: int
  inst_lastError :: "exec_error option"
  inst_cancelFunc :: "nat option"
  inst_stoppedCh :: "nat option"

section \<open>Construction\<close>

definition socket_char :: "char \<Rightarrow> bool" where
  "socket_char c = (c \<in> set lower_letters \<or> c \<in> set upper_letters \<or> is_digit c
                    \<or> c = CHR ''-'' \<or> c = CHR ''_'')"

definition socket_rune :: "string \<Rightarrow> char" where
  "socket_rune r = (case r of [c] \<Rightarrow> (if socket_char c then c else CHR ''_'') | _ \<Rightarrow> CHR ''_'')"

definition sanitizeSocketName :: "string \<Rightarrow> string" where
  "sanitizeSocketName name = map socket_rune (range_runes name)"

definition with_defaults :: "ExporterConfig \<Rightarrow> ExporterConfig" where
  "with_defaults cfg =
     (let cfg = (if exp_ShutdownTimeout cfg \<le> 0
                 then cfg\<lparr>exp_ShutdownTimeout := DefaultShutdownTimeout\<rparr> else cfg)
      in if exp_SocketDir cfg = [] then cfg\<lparr>exp_SocketDir := DefaultSocketDir\<rparr> else cfg)"

definition default_socket_path :: "Target \<Rightarrow> ExporterConfig \<Rightarrow> string" where
  "default_socket_path t cfg =
     filepath_Join (exp_SocketDir cfg) (sanitizeSocketName (target_key t) @ ''.sock'')"

definition normalized_target :: "Target \<Rightarrow> Target" where
  "normalized_target t =
     (case NormalizeEndpoint (Endpoint t) 5555 of
        Inl _ \<Rightarrow> t
      | Inr normalized \<Rightarrow> t\<lparr>Endpoint := normalized\<rparr>)"

definition NewInstance :: "Target \<Rightarrow> string \<Rightarrow> ExporterConfig \<Rightarrow> Instance" where
  "NewInstance t socketPath cfg0 =
     (let cfg = with_defaults cfg0;
          path = (if socketPath = [] then default_socket_path t cfg else socketPath)
      in \<lparr>inst_Target = normalized_target t, inst_SocketPath = path, inst_Port = 0,
          inst_Config = cfg, inst_state = StateStarting, inst_pid = 0, inst_restartCount = 0,
          inst_lastError = None, inst_cancelFunc = None, inst_stoppedCh = None\<rparr>)"

definition setState :: "InstanceState \<Rightarrow> Instance \<Rightarrow> Instance" where
  "setState s inst = inst\<lparr>inst_state := s\<rparr>"

definition State :: "Instance \<Rightarrow> InstanceState" where
  "State inst = inst_state inst"

section \<open>The command line of the child\<close>

definition exporter_args :: "Instance \<Rightarrow> string list" where
  "exporter_args inst =
     (let cfg = inst_Config inst; args = [''--web-systemd-socket'', ''-r'', Endpoint (inst_Target inst)];
          args = (if exp_CollectorsFile cfg \<noteq> [] then args @ [''-f'', exp_CollectorsFile cfg] else args);
          args = (if exp_CollectInterval cfg > 0
                  then args @ [''-c'', strconv_Itoa (exp_CollectInterval cfg)] else args);
          args = (if exp_WebConfigFile cfg \<noteq> []
                  then args @ [''--web-config-file'', exp_WebConfigFile cfg] else args);
          args = args @ exp_ExtraArgs cfg
      in args @ CustomArgs (inst_Target inst))"

definition activation_script :: string where
  "activation_script = ''export LISTEN_PID=$$; exec '' @ [CHR 0x22] @ ''$@'' @ [CHR 0x22]"

definition shell_args :: "Instance \<Rightarrow> string list" where
  "shell_args inst =
     [''-c'', activation_script, ''_'', exp_BinaryPath (inst_Config inst)] @ exporter_args inst"

definition child_command :: "Instance \<Rightarrow> string \<times> string list" where
  "child_command inst =
     (let netns = NetNS (inst_Target inst)
      in if netns = [] then (''sh'', shell_args inst)
         else if strings_HasPrefix netns ''/''
         then (''nsenter'', [''--net='' @ netns, ''-F'', ''--'', ''sh''] @ shell_args inst)
         else (''ip'', [''netns'', ''exec'', netns, ''sh''] @ shell_args inst))"

section \<open>Requests to the child\<close>

text \<open>The body is \<open>None\<close> when reading it fails.\<close>

datatype http_result = TransportError | Response int "string option"

datatype http_error = RequestInvalid | RequestFailed | StatusError int | BodyFailed

definition endpoint_url :: "string \<Rightarrow> Instance \<Rightarrow> string" where
  "endpoint_url path inst =
     (if inst_SocketPath inst = [] \<and> inst_Port inst > 0
      then FormatHTTPURL ''http'' (exp_ListenHost (inst_Config inst)) (inst_Port inst) path
      else ''http://unix'' @ path)"

definition CheckHealth ::
  "(string \<Rightarrow> bool) \<Rightarrow> (string \<Rightarrow> http_result) \<Rightarrow> Instance \<Rightarrow> http_error option \<times> Instance" where
  "CheckHealth valid do_get inst =
     (let url = endpoint_url ''/health'' inst
      in if \<not> valid url then (Some RequestInvalid, inst)
         else case do_get url of
           TransportError \<Rightarrow> (Some RequestFailed, setState StateUnhealthy inst)
         | Response status _ \<Rightarrow>
             (if status \<noteq> 200 then (Some (StatusError status), setState StateUnhealthy inst)
              else (None, setState StateRunning inst)))"

definition Scrape ::
  "(string \<Rightarrow> bool) \<Rightarrow> (string \<Rightarrow> http_result) \<Rightarrow> Instance \<Rightarrow> http_error + string" where
  "Scrape valid do_get inst =
     (let url = endpoint_url ''/metrics'' inst
      in if \<not> valid url then Inl RequestInvalid
         else case do_get url of
           TransportError \<Rightarrow> Inl RequestFailed
         | Response status body \<Rightarrow>
             (if status \<noteq> 200 then Inl (StatusError status)
              else case body of None \<Rightarrow> Inl BodyFailed | Some data \<Rightarrow> Inr data))"

lemmas instance_eval =
  NewInstance_def with_defaults_def default_socket_path_def normalized_target_def
  sanitizeSocketName_def socket_rune_def socket_char_def setState_def

section \<open>Sockets\<close>

lemma socket_rune_safe [simp]: "socket_char (socket_rune r)"
  by (auto simp: socket_rune_def socket_char_def split: list.splits if_splits)

lemma sanitize_chars: "c \<in> set (sanitizeSocketName n) \<Longrightarrow> socket_char c"
  by (auto simp: sanitizeSocketName_def)

lemma socket_char_facts: "\<not> socket_char (CHR ''/'')" "\<not> socket_char (CHR ''.'')"
  by (simp_all add: socket_char_def lower_letters_def upper_letters_def is_digit_def)

lemma socket_char_ascii: "socket_char c \<Longrightarrow> of_char c < (0x80 :: nat)"
  by (auto simp: socket_char_def lower_letters_def upper_letters_def is_digit_def)

lemma socket_name_facts:
  "CHR ''/'' \<notin> set (sanitizeSocketName n @ ''.sock'')"
  "sanitizeSocketName n @ ''.sock'' \<noteq> ''.''" "sanitizeSocketName n @ ''.sock'' \<noteq> ''..''"
proof -
  show "CHR ''/'' \<notin> set (sanitizeSocketName n @ ''.sock'')"
    using sanitize_chars socket_char_facts(1) by auto
  have "length (sanitizeSocketName n @ ''.sock'') \<ge> 5" by simp
  then show "sanitizeSocketName n @ ''.sock'' \<noteq> ''.''" "sanitizeSocketName n @ ''.sock'' \<noteq> ''..''"
    by auto
qed

lemma sanitize_ascii:
  assumes "\<forall>c \<in> set n. of_char c < (0x80 :: nat)"
  shows "sanitizeSocketName n = map (\<lambda>c. if socket_char c then c else CHR ''_'') n"
  using assms by (simp add: sanitizeSocketName_def range_runes_ascii socket_rune_def)

lemma NewInstance_fields [simp]:
  "inst_Target (NewInstance t p cfg) = normalized_target t"
  "inst_Config (NewInstance t p cfg) = with_defaults cfg"
  "inst_state (NewInstance t p cfg) = StateStarting"
  "inst_pid (NewInstance t p cfg) = 0"
  "inst_restartCount (NewInstance t p cfg) = 0"
  "inst_cancelFunc (NewInstance t p cfg) = None"
  "inst_stoppedCh (NewInstance t p cfg) = None"
  "inst_SocketPath (NewInstance t [] cfg) = default_socket_path t (with_defaults cfg)"
  by (simp_all add: NewInstance_def Let_def)

lemma normalized_target_fields [simp]:
  "ID (normalized_target t) = ID t" "Name (normalized_target t) = Name t"
  "Tenant (normalized_target t) = Tenant t" "NetNS (normalized_target t) = NetNS t"
  "Labels (normalized_target t) = Labels t" "CustomArgs (normalized_target t) = CustomArgs t"
  by (simp_all add: normalized_target_def split: sum.split)

lemma default_socket_path_form:
  assumes "strings_HasPrefix (exp_SocketDir cfg) ''/''"
  shows "default_socket_path t cfg =
    (if filepath_Clean (exp_SocketDir cfg) = ''/'' then [] else filepath_Clean (exp_SocketDir cfg))
      @ ''/'' @ sanitizeSocketName (target_key t) @ ''.sock''"
  unfolding default_socket_path_def
  using Join_component [OF assms _ socket_name_facts, of "target_key t"] by simp

section \<open>What the command line means\<close>

text \<open>
  The abstract view of a child: the network namespace it is put in and the program with its
  arguments. \<open>launched\<close> reads a command line as the tools do: \<open>ip netns exec\<close> and \<open>nsenter\<close> run the
  rest of their arguments inside the namespace, and the shell runs the activation script, which
  replaces itself by its positional parameters.
\<close>

datatype namespace = HostNamespace | NamespaceFile string | NamedNamespace string

definition run_shell :: "string list \<Rightarrow> string list option" where
  "run_shell args =
     (case args of c # script # zero # argv \<Rightarrow>
        (if c = ''-c'' \<and> script = activation_script then Some argv else None) | _ \<Rightarrow> None)"

definition launched :: "string \<times> string list \<Rightarrow> (namespace \<times> string list) option" where
  "launched cmd =
     (if fst cmd = ''sh'' then map_option (Pair HostNamespace) (run_shell (snd cmd))
      else if fst cmd = ''nsenter'' then
        (case snd cmd of net # f # sep # sh # args \<Rightarrow>
           (if strings_HasPrefix net ''--net='' \<and> f = ''-F'' \<and> sep = ''--'' \<and> sh = ''sh''
            then map_option (Pair (NamespaceFile (strings_TrimPrefix net ''--net=''))) (run_shell args)
            else None) | _ \<Rightarrow> None)
      else if fst cmd = ''ip'' then
        (case snd cmd of n # e # ns # sh # args \<Rightarrow>
           (if n = ''netns'' \<and> e = ''exec'' \<and> sh = ''sh''
            then map_option (Pair (NamedNamespace ns)) (run_shell args)
            else None) | _ \<Rightarrow> None)
      else None)"

definition target_namespace :: "Target \<Rightarrow> namespace" where
  "target_namespace t =
     (if NetNS t = [] then HostNamespace
      else if hd (NetNS t) = CHR ''/'' then NamespaceFile (NetNS t) else NamedNamespace (NetNS t))"

definition optional_flag :: "bool \<Rightarrow> string \<Rightarrow> string \<Rightarrow> string list" where
  "optional_flag present flag v = (if present then [flag, v] else [])"

lemma run_shell_args [simp]:
  "run_shell (shell_args inst) = Some (exp_BinaryPath (inst_Config inst) # exporter_args inst)"
  by (simp add: run_shell_def shell_args_def)

section \<open>Properties\<close>


text \<open>C5: The generated socket lies directly in the socket directory, whatever the target's ID or
  name contains: a target cannot place it elsewhere with slashes or dots.\<close>

theorem socket_path_confined:
  assumes "strings_HasPrefix (exp_SocketDir cfg) ''/''"
  shows "\<exists>base. inst_SocketPath (NewInstance t [] cfg) =
      (if filepath_Clean (exp_SocketDir cfg) = ''/'' then [] else filepath_Clean (exp_SocketDir cfg))
        @ ''/'' @ base @ ''.sock'' \<and> list_all socket_char base"
proof -
  have "exp_SocketDir (with_defaults cfg) = exp_SocketDir cfg"
    using assms by (auto simp: with_defaults_def)
  then have "inst_SocketPath (NewInstance t [] cfg) =
      (if filepath_Clean (exp_SocketDir cfg) = ''/'' then [] else filepath_Clean (exp_SocketDir cfg))
        @ ''/'' @ sanitizeSocketName (target_key t) @ ''.sock''"
    using default_socket_path_form [of "with_defaults cfg" t] assms by simp
  then show ?thesis using sanitize_chars by (auto simp: list_all_iff)
qed

definition default_exporter :: ExporterConfig where
  "default_exporter = cfg_Exporter NewDefaultConfig"

definition hostile_target :: Target where
  "hostile_target = \<lparr>ID = ''../x'', Name = ''vm'', Endpoint = ''10.0.0.5'', Tenant = [], NetNS = [],
                     Labels = None, CustomArgs = []\<rparr>"

lemma default_exporter_dir [simp]: "exp_SocketDir default_exporter = ''/run/dcgm-exporter-supervisor''"
  by (simp add: default_exporter_def NewDefaultConfig_def DefaultSocketDir_def)

theorem socket_path_confined_witness:
  "\<exists>base. inst_SocketPath (NewInstance hostile_target [] default_exporter) =
      ''/run/dcgm-exporter-supervisor/'' @ base @ ''.sock'' \<and> list_all socket_char base"
proof -
  have "filepath_Clean ''/run/dcgm-exporter-supervisor'' = ''/run/dcgm-exporter-supervisor''"
    by (simp add: path_eval strings_HasPrefix_def)
  then show ?thesis
    using socket_path_confined [of default_exporter hostile_target] by simp
qed

text \<open>C33: Two targets with ASCII keys get the same socket exactly when the keys have the same length
  and differ only at positions where both characters are outside letters, digits and minus. So
  distinct targets whose keys use only letters, digits and minus have distinct sockets, while
  distinct IDs such as a.b and a_b share one.\<close>

theorem socket_paths_equal_iff:
  assumes "strings_HasPrefix (exp_SocketDir cfg) ''/''"
    and "\<forall>c \<in> set (target_key t) \<union> set (target_key u). of_char c < (0x80 :: nat)"
  shows "inst_SocketPath (NewInstance t [] cfg) = inst_SocketPath (NewInstance u [] cfg) \<longleftrightarrow>
    list_all2 (\<lambda>c d. c = d \<or> {c, d} \<inter> {x. socket_char x \<and> x \<noteq> CHR ''_''} = {})
      (target_key t) (target_key u)"
proof -
  let ?f = "\<lambda>c. if socket_char c then c else CHR ''_''"
  have "exp_SocketDir (with_defaults cfg) = exp_SocketDir cfg"
    using assms(1) by (auto simp: with_defaults_def)
  then have "inst_SocketPath (NewInstance t [] cfg) = inst_SocketPath (NewInstance u [] cfg) \<longleftrightarrow>
      map ?f (target_key t) = map ?f (target_key u)"
    using assms by (simp add: default_socket_path_form sanitize_ascii)
  also have "\<dots> \<longleftrightarrow> list_all2 (\<lambda>c d. ?f c = ?f d) (target_key t) (target_key u)"
    by (simp add: list_all2_map1 list_all2_map2 flip: list.rel_eq)
  also have "(\<lambda>c d. ?f c = ?f d) = (\<lambda>c d. c = d \<or> {c, d} \<inter> {x. socket_char x \<and> x \<noteq> CHR ''_''} = {})"
    by (intro ext) auto
  finally show ?thesis .
qed

theorem socket_paths_equal_iff_witness:
  "inst_SocketPath (NewInstance (hostile_target\<lparr>ID := ''a.b''\<rparr>) [] default_exporter)
   = inst_SocketPath (NewInstance (hostile_target\<lparr>ID := ''a_b''\<rparr>) [] default_exporter)"
  by (subst socket_paths_equal_iff)
    (auto simp: target_key_def socket_char_def lower_letters_def upper_letters_def is_digit_def)

end
