(* ===== verification/InstanceLoop.thy ===== *)
theory InstanceLoop
  imports Instance
begin

text \<open>
  The supervision loop of \<open>instance.go\<close> as a state machine. \<open>Start\<close> creates a run of \<open>runLoop\<close>: a
  goroutine with a context of its own and a channel it closes when it returns. A run moves from
  one program counter to the next by a \<open>loop_event\<close>, the outcome of the operation it waits for;
  several runs of one instance can be alive at once, because \<open>Stop\<close> gives up waiting after the
  shutdown timeout.
\<close>

section \<open>A run of the loop\<close>

datatype loop_pc =
  AtTop                          \<comment> \<open>before the first \<open>select\<close>\<close>
| AtExec                         \<comment> \<open>in \<open>execProcess\<close>, before the process runs\<close>
| AtWait int                     \<comment> \<open>in \<open>cmd.Wait\<close>\<close>
| AtCheck "exec_error option"    \<comment> \<open>\<open>execProcess\<close> has returned\<close>
| AtCounted                      \<comment> \<open>the restart is counted\<close>
| AtBackoff                      \<comment> \<open>in the second \<open>select\<close>\<close>
| Returned                       \<comment> \<open>\<open>stoppedCh\<close> is closed\<close>

record loop_run =
  run_pc :: loop_pc
  run_cancelled :: bool
  run_backoff :: int

definition initialBackoff :: int where "initialBackoff = 1 * time_Second"
definition maxBackoff :: int where "maxBackoff = 30 * time_Second"

definition next_backoff :: "int \<Rightarrow> int" where
  "next_backoff backoff = (let backoff = backoff * 2 in if backoff > maxBackoff then maxBackoff else backoff)"

definition new_run :: "bool \<Rightarrow> loop_run" where
  "new_run cancelled = \<lparr>run_pc = AtTop, run_cancelled = cancelled, run_backoff = initialBackoff\<rparr>"

text \<open>
  The events: \<open>Proceed\<close> is the next step of the run's own code, \<open>SetupFails\<close> and \<open>ProcessStarts\<close> are the
  outcomes of the preparations and of \<open>cmd.Start\<close>, \<open>ProcessExits\<close> is the result of \<open>cmd.Wait\<close>, \<open>TimerFires\<close>
  and \<open>ContextDone\<close> are the two cases of the second \<open>select\<close>.
\<close>

datatype loop_event =
  Proceed | SetupFails exec_error | ProcessStarts int | ProcessExits "exec_error option"
| TimerFires | ContextDone

text \<open>
  One step of a run on the instance and on the socket file, which is present or not. \<open>execProcess\<close>
  removes a stale socket and creates a new one before it starts the process; every later return
  removes the socket again. \<open>None\<close>: the event cannot happen here.
\<close>

definition runLoop_step ::
  "loop_event \<Rightarrow> Instance \<times> bool \<times> loop_run \<Rightarrow> (Instance \<times> bool \<times> loop_run) option" where
  "runLoop_step ev s =
     (case s of (inst, sock, l) \<Rightarrow>
      (case (run_pc l, ev) of
         (AtTop, Proceed) \<Rightarrow>
           (if run_cancelled l then Some (setState StateStopped inst, sock, l\<lparr>run_pc := Returned\<rparr>)
            else Some (setState StateStarting inst, sock, l\<lparr>run_pc := AtExec\<rparr>))
       | (AtExec, SetupFails e) \<Rightarrow> Some (inst, False, l\<lparr>run_pc := AtCheck (Some e)\<rparr>)
       | (AtExec, ProcessStarts pid) \<Rightarrow>
           (if pid > 0
            then Some (inst\<lparr>inst_pid := pid, inst_state := StateRunning\<rparr>, True, l\<lparr>run_pc := AtWait pid\<rparr>)
            else None)
       | (AtWait pid, ProcessExits err) \<Rightarrow>
           Some (inst\<lparr>inst_pid := 0\<rparr>, False, l\<lparr>run_pc := AtCheck err\<rparr>)
       | (AtCheck err, Proceed) \<Rightarrow>
           (if run_cancelled l then Some (setState StateStopped inst, sock, l\<lparr>run_pc := Returned\<rparr>)
            else Some (inst\<lparr>inst_restartCount := inst_restartCount inst + 1, inst_lastError := err\<rparr>,
                       sock, l\<lparr>run_pc := AtCounted\<rparr>))
       | (AtCounted, Proceed) \<Rightarrow> Some (setState StateRestarting inst, sock, l\<lparr>run_pc := AtBackoff\<rparr>)
       | (AtBackoff, ContextDone) \<Rightarrow>
           (if run_cancelled l then Some (setState StateStopped inst, sock, l\<lparr>run_pc := Returned\<rparr>)
            else None)
       | (AtBackoff, TimerFires) \<Rightarrow>
           Some (inst, sock, l\<lparr>run_pc := AtTop, run_backoff := next_backoff (run_backoff l)\<rparr>)
       | _ \<Rightarrow> None))"

section \<open>An instance with its runs\<close>

text \<open>The runs are numbered in the order of their creation.\<close>

record supervised =
  sup_inst :: Instance
  sup_runs :: "loop_run list"
  sup_socket :: bool

definition supervise :: "Instance \<Rightarrow> supervised" where
  "supervise inst = \<lparr>sup_inst = inst, sup_runs = [], sup_socket = False\<rparr>"

text \<open>\<open>Instance.Start\<close>; a context derived from a cancelled parent is cancelled from the beginning.\<close>

definition Start_loop :: "bool \<Rightarrow> supervised \<Rightarrow> supervised" where
  "Start_loop parent_cancelled s =
     (let n = length (sup_runs s)
      in s\<lparr>sup_inst := (sup_inst s)\<lparr>inst_cancelFunc := Some n, inst_stoppedCh := Some n\<rparr>,
           sup_runs := sup_runs s @ [new_run parent_cancelled]\<rparr>)"

definition cancel_run :: "nat \<Rightarrow> loop_run list \<Rightarrow> loop_run list" where
  "cancel_run i runs = (if i < length runs then runs[i := (runs ! i)\<lparr>run_cancelled := True\<rparr>] else runs)"

definition loop_event_at :: "nat \<Rightarrow> loop_event \<Rightarrow> supervised \<Rightarrow> supervised option" where
  "loop_event_at i ev s =
     (if i < length (sup_runs s)
      then case runLoop_step ev (sup_inst s, sup_socket s, sup_runs s ! i) of
             None \<Rightarrow> None
           | Some (inst, sock, l) \<Rightarrow>
               Some (s\<lparr>sup_inst := inst, sup_socket := sock, sup_runs := (sup_runs s)[i := l]\<rparr>)
      else None)"

text \<open>
  What happens to an instance without its manager's doing: a step of a run, or a health check
  that finds a result of the HTTP client.
\<close>

datatype instance_event = LoopEvent nat loop_event | HealthCheck http_result

fun instance_step :: "instance_event \<Rightarrow> supervised \<Rightarrow> supervised option" where
  "instance_step (LoopEvent i ev) s = loop_event_at i ev s"
| "instance_step (HealthCheck r) s =
     Some (s\<lparr>sup_inst := snd (CheckHealth (\<lambda>_. True) (\<lambda>_. r) (sup_inst s))\<rparr>)"

fun instance_steps :: "instance_event list \<Rightarrow> supervised \<Rightarrow> supervised option" where
  "instance_steps [] s = Some s"
| "instance_steps (e # es) s = (case instance_step e s of None \<Rightarrow> None | Some s \<Rightarrow> instance_steps es s)"

section \<open>Stop\<close>

text \<open>
  \<open>Stop\<close> in its three parts: it reads the fields and cancels the context; the runs go on while it
  waits; it ends when the run it waits for has returned, or when the timeout has elapsed. The
  signals are returned: \<open>ContextKill\<close> is the one \<open>os/exec\<close> sends, since a command made by
  \<open>exec.CommandContext\<close> is killed as soon as its context is done. When the process exits because of
  them is part of the events.
\<close>

datatype signal = ContextKill int | SIGTERM int | SIGKILL int

definition context_kill :: "loop_run \<Rightarrow> signal list" where
  "context_kill l =
     (case run_pc l of AtWait pid \<Rightarrow> if run_cancelled l then [] else [ContextKill pid] | _ \<Rightarrow> [])"

definition Stop_begin :: "supervised \<Rightarrow> signal list \<times> supervised" where
  "Stop_begin s =
     (let inst = sup_inst s;
          (killed, s) =
            (case inst_cancelFunc inst of
               None \<Rightarrow> ([], s)
             | Some n \<Rightarrow> (if n < length (sup_runs s) then context_kill (sup_runs s ! n) else [],
                          s\<lparr>sup_runs := cancel_run n (sup_runs s)\<rparr>))
      in (killed @ (if inst_pid inst > 0 then [SIGTERM (inst_pid inst)] else []), s))"

definition channel_closed :: "nat option \<Rightarrow> supervised \<Rightarrow> bool" where
  "channel_closed ch s =
     (case ch of None \<Rightarrow> False
      | Some n \<Rightarrow> n < length (sup_runs s) \<and> run_pc (sup_runs s ! n) = Returned)"

definition Stop_end :: "int \<Rightarrow> nat option \<Rightarrow> bool \<Rightarrow> supervised \<Rightarrow> (signal list \<times> supervised) option" where
  "Stop_end pid ch timed_out s =
     (if \<not> timed_out \<and> \<not> channel_closed ch s then None
      else Some (if timed_out \<and> pid > 0 then [SIGKILL pid] else [],
                 s\<lparr>sup_inst := setState StateStopped (sup_inst s),
                   sup_socket := (if inst_SocketPath (sup_inst s) \<noteq> [] then False else sup_socket s)\<rparr>))"

definition Stop ::
  "instance_event list \<Rightarrow> bool \<Rightarrow> supervised \<Rightarrow> (signal list \<times> supervised) option" where
  "Stop meanwhile timed_out s =
     (case Stop_begin s of (sent, s1) \<Rightarrow>
      case instance_steps meanwhile s1 of
        None \<Rightarrow> None
      | Some s2 \<Rightarrow>
          map_option (\<lambda>(killed, s3). (sent @ killed, s3))
            (Stop_end (inst_pid (sup_inst s)) (inst_stoppedCh (sup_inst s)) timed_out s2))"

section \<open>Facts about steps\<close>

lemma runLoop_step_cases [consumes 1, case_names top_done top setup_fails starts exits check_done
    check counted backoff_done backoff]:
  assumes "runLoop_step ev (inst, sock, l) = Some (inst', sock', l')"
  obtains
    (top_done) "run_pc l = AtTop" "ev = Proceed" "run_cancelled l" "inst' = setState StateStopped inst"
      "sock' = sock" "l' = l\<lparr>run_pc := Returned\<rparr>"
  | (top) "run_pc l = AtTop" "ev = Proceed" "\<not> run_cancelled l" "inst' = setState StateStarting inst"
      "sock' = sock" "l' = l\<lparr>run_pc := AtExec\<rparr>"
  | (setup_fails) e where "run_pc l = AtExec" "ev = SetupFails e" "inst' = inst" "\<not> sock'"
      "l' = l\<lparr>run_pc := AtCheck (Some e)\<rparr>"
  | (starts) pid where "run_pc l = AtExec" "ev = ProcessStarts pid" "0 < pid"
      "inst' = inst\<lparr>inst_pid := pid, inst_state := StateRunning\<rparr>" "sock'" "l' = l\<lparr>run_pc := AtWait pid\<rparr>"
  | (exits) pid err where "run_pc l = AtWait pid" "ev = ProcessExits err" "inst' = inst\<lparr>inst_pid := 0\<rparr>"
      "\<not> sock'" "l' = l\<lparr>run_pc := AtCheck err\<rparr>"
  | (check_done) err where "run_pc l = AtCheck err" "ev = Proceed" "run_cancelled l"
      "inst' = setState StateStopped inst" "sock' = sock" "l' = l\<lparr>run_pc := Returned\<rparr>"
  | (check) err where "run_pc l = AtCheck err" "ev = Proceed" "\<not> run_cancelled l"
      "inst' = inst\<lparr>inst_restartCount := inst_restartCount inst + 1, inst_lastError := err\<rparr>"
      "sock' = sock" "l' = l\<lparr>run_pc := AtCounted\<rparr>"
  | (counted) "run_pc l = AtCounted" "ev = Proceed" "inst' = setState StateRestarting inst"
      "sock' = sock" "l' = l\<lparr>run_pc := AtBackoff\<rparr>"
  | (backoff_done) "run_pc l = AtBackoff" "ev = ContextDone" "run_cancelled l"
      "inst' = setState StateStopped inst" "sock' = sock" "l' = l\<lparr>run_pc := Returned\<rparr>"
  | (backoff) "run_pc l = AtBackoff" "ev = TimerFires" "inst' = inst" "sock' = sock"
      "l' = l\<lparr>run_pc := AtTop, run_backoff := next_backoff (run_backoff l)\<rparr>"
proof (cases "run_pc l")
  case AtTop
  with assms show ?thesis
    using that(1,2) by (cases ev) (simp_all add: runLoop_step_def split: if_splits)
next
  case AtExec
  with assms show ?thesis
    using that(3,4) by (cases ev) (simp_all add: runLoop_step_def split: if_splits)
next
  case (AtWait pid)
  with assms show ?thesis
    using that(5) by (cases ev) (simp_all add: runLoop_step_def)
next
  case (AtCheck err)
  with assms show ?thesis
    using that(6,7) by (cases ev) (simp_all add: runLoop_step_def split: if_splits)
next
  case AtCounted
  with assms show ?thesis
    using that(8) by (cases ev) (simp_all add: runLoop_step_def)
next
  case AtBackoff
  with assms show ?thesis
    using that(9,10) by (cases ev) (simp_all add: runLoop_step_def split: if_splits)
next
  case Returned
  with assms show ?thesis by (cases ev) (simp_all add: runLoop_step_def)
qed

lemma loop_event_at_Some:
  assumes "loop_event_at i ev s = Some s'"
  obtains inst sock l where "i < length (sup_runs s)"
    "runLoop_step ev (sup_inst s, sup_socket s, sup_runs s ! i) = Some (inst, sock, l)"
    "s' = s\<lparr>sup_inst := inst, sup_socket := sock, sup_runs := (sup_runs s)[i := l]\<rparr>"
  using assms by (auto simp: loop_event_at_def split: if_splits option.splits prod.splits)

lemma health_facts [simp]:
  "inst_pid (snd (CheckHealth v r inst)) = inst_pid inst"
  "inst_restartCount (snd (CheckHealth v r inst)) = inst_restartCount inst"
  "inst_Target (snd (CheckHealth v r inst)) = inst_Target inst"
  "inst_cancelFunc (snd (CheckHealth v r inst)) = inst_cancelFunc inst"
  "inst_stoppedCh (snd (CheckHealth v r inst)) = inst_stoppedCh inst"
  "inst_SocketPath (snd (CheckHealth v r inst)) = inst_SocketPath inst"
  "inst_Config (snd (CheckHealth v r inst)) = inst_Config inst"
  by (simp_all add: CheckHealth_def setState_def Let_def split: http_result.split)

lemma setState_facts [simp]:
  "inst_pid (setState st inst) = inst_pid inst"
  "inst_restartCount (setState st inst) = inst_restartCount inst"
  "inst_Target (setState st inst) = inst_Target inst"
  "inst_cancelFunc (setState st inst) = inst_cancelFunc inst"
  "inst_stoppedCh (setState st inst) = inst_stoppedCh inst"
  "inst_SocketPath (setState st inst) = inst_SocketPath inst"
  "inst_Config (setState st inst) = inst_Config inst"
  "inst_state (setState st inst) = st"
  by (simp_all add: setState_def)

text \<open>What no step of a run and no health check changes.\<close>

definition same_frame :: "supervised \<Rightarrow> supervised \<Rightarrow> bool" where
  "same_frame s s' \<longleftrightarrow>
     length (sup_runs s') = length (sup_runs s)
     \<and> map run_cancelled (sup_runs s') = map run_cancelled (sup_runs s)
     \<and> inst_Target (sup_inst s') = inst_Target (sup_inst s)
     \<and> inst_Config (sup_inst s') = inst_Config (sup_inst s)
     \<and> inst_SocketPath (sup_inst s') = inst_SocketPath (sup_inst s)
     \<and> inst_cancelFunc (sup_inst s') = inst_cancelFunc (sup_inst s)
     \<and> inst_stoppedCh (sup_inst s') = inst_stoppedCh (sup_inst s)"

lemma runLoop_step_frame:
  assumes "runLoop_step ev (inst, sock, l) = Some (inst', sock', l')"
  shows "run_cancelled l' = run_cancelled l \<and> inst_Target inst' = inst_Target inst
    \<and> inst_Config inst' = inst_Config inst \<and> inst_SocketPath inst' = inst_SocketPath inst
    \<and> inst_cancelFunc inst' = inst_cancelFunc inst \<and> inst_stoppedCh inst' = inst_stoppedCh inst"
  using assms by (cases rule: runLoop_step_cases) simp_all

lemma instance_step_frame: "instance_step e s = Some s' \<Longrightarrow> same_frame s s'"
proof (cases e)
  case (LoopEvent i ev)
  assume "instance_step e s = Some s'"
  with LoopEvent have "loop_event_at i ev s = Some s'" by simp
  then show ?thesis
  proof (cases rule: loop_event_at_Some)
    case (1 inst sock l)
    then show ?thesis
      using runLoop_step_frame [OF 1(2)] by (simp add: same_frame_def map_update list_update_same_conv)
  qed
next
  case (HealthCheck r)
  assume "instance_step e s = Some s'"
  with HealthCheck show ?thesis by (auto simp: same_frame_def)
qed

lemma same_frame_trans: "same_frame s s' \<Longrightarrow> same_frame s' s'' \<Longrightarrow> same_frame s s''"
  by (simp add: same_frame_def)

lemma same_frame_refl [simp]: "same_frame s s"
  by (simp add: same_frame_def)

lemma instance_steps_frame: "instance_steps es s = Some s' \<Longrightarrow> same_frame s s'"
proof (induction es arbitrary: s)
  case (Cons e es)
  then obtain s1 where "instance_step e s = Some s1" "instance_steps es s1 = Some s'"
    by (auto split: option.splits)
  then show ?case using Cons.IH instance_step_frame same_frame_trans by blast
qed simp

lemma same_frame_nth:
  assumes "same_frame s s'" and "i < length (sup_runs s)"
  shows "run_cancelled (sup_runs s' ! i) = run_cancelled (sup_runs s ! i)"
  using assms unfolding same_frame_def by (metis nth_map)

section \<open>Backoff\<close>

definition timers :: "nat \<Rightarrow> instance_event list \<Rightarrow> nat" where
  "timers i es = length (filter (\<lambda>e. e = LoopEvent i TimerFires) es)"

lemma loop_event_runs:
  assumes "loop_event_at i ev s = Some s'" and "j \<noteq> i"
  shows "sup_runs s' ! j = sup_runs s ! j"
  using assms by (elim loop_event_at_Some) simp

lemma instance_step_backoff:
  assumes "instance_step e s = Some s'" and "i < length (sup_runs s)"
  shows "run_backoff (sup_runs s' ! i) =
    (if e = LoopEvent i TimerFires then next_backoff (run_backoff (sup_runs s ! i))
     else run_backoff (sup_runs s ! i))"
proof (cases e)
  case (LoopEvent j ev)
  with assms(1) have st: "loop_event_at j ev s = Some s'" by simp
  show ?thesis
  proof (cases "j = i")
    case True
    from st show ?thesis
    proof (cases rule: loop_event_at_Some)
      case (1 inst sock l)
      from 1(2) have "run_backoff l =
          (if ev = TimerFires then next_backoff (run_backoff (sup_runs s ! i)) else run_backoff (sup_runs s ! i))"
        unfolding True by (cases rule: runLoop_step_cases) simp_all
      then show ?thesis using 1 True LoopEvent by simp
    qed
  next
    case False
    then show ?thesis using loop_event_runs [OF st, of i] LoopEvent by simp
  qed
next
  case (HealthCheck r)
  then show ?thesis using assms(1) by auto
qed

lemma instance_steps_backoff:
  assumes "instance_steps es s = Some s'" and "i < length (sup_runs s)"
  shows "run_backoff (sup_runs s' ! i) = (next_backoff ^^ timers i es) (run_backoff (sup_runs s ! i))"
  using assms
proof (induction es arbitrary: s)
  case (Cons e es)
  then obtain s1 where s1: "instance_step e s = Some s1" "instance_steps es s1 = Some s'"
    by (auto split: option.splits)
  have "i < length (sup_runs s1)"
    using instance_step_frame [OF s1(1)] Cons.prems(2) by (simp add: same_frame_def)
  from Cons.IH [OF s1(2) this] instance_step_backoff [OF s1(1) Cons.prems(2)]
  show ?case by (simp add: timers_def funpow_swap1)
qed (simp add: timers_def)

lemma backoff_closed_form: "(next_backoff ^^ n) initialBackoff = min (2 ^ n) 30 * time_Second"
proof (induction n)
  case (Suc n)
  have "next_backoff (min (2 ^ n) 30 * time_Second) = min (2 ^ Suc n) 30 * time_Second"
    by (simp add: next_backoff_def maxBackoff_def time_Second_def min_def Let_def)
  with Suc show ?case by simp
qed (simp add: initialBackoff_def)

text \<open>C7: The delay before a restart doubles from one second and never exceeds thirty: after n
  restarts by the timer a run waits min(2^n, 30) seconds, whatever the other runs, the health
  checks and the children do in between.\<close>

theorem backoff_law:
  assumes "instance_steps es s = Some s'" and "i < length (sup_runs s)" and "sup_runs s ! i = new_run c"
  shows "run_backoff (sup_runs s' ! i) = min (2 ^ timers i es) 30 * time_Second"
  using instance_steps_backoff [OF assms(1,2)] assms(3) by (simp add: new_run_def backoff_closed_form)

section \<open>Cancellation\<close>

fun remaining :: "loop_pc \<Rightarrow> nat" where
  "remaining Returned = 0"
| "remaining AtTop = 1"
| "remaining (AtCheck _) = 1"
| "remaining AtBackoff = 2"
| "remaining (AtWait _) = 2"
| "remaining AtCounted = 3"
| "remaining AtExec = 3"

fun of_run :: "nat \<Rightarrow> instance_event \<Rightarrow> bool" where
  "of_run i (LoopEvent j _) = (i = j)"
| "of_run i (HealthCheck _) = False"

lemma instance_step_remaining:
  assumes "instance_step e s = Some s'" and "i < length (sup_runs s)" and "run_cancelled (sup_runs s ! i)"
  shows "remaining (run_pc (sup_runs s' ! i)) + (if of_run i e then 1 else 0)
    \<le> remaining (run_pc (sup_runs s ! i))"
proof (cases e)
  case (LoopEvent j ev)
  with assms(1) have st: "loop_event_at j ev s = Some s'" by simp
  show ?thesis
  proof (cases "j = i")
    case True
    from st show ?thesis
    proof (cases rule: loop_event_at_Some)
      case (1 inst sock l)
      from 1(2) assms(3) have "remaining (run_pc l) + 1 \<le> remaining (run_pc (sup_runs s ! i))"
        unfolding True by (cases rule: runLoop_step_cases) simp_all
      then show ?thesis using 1 True LoopEvent by simp
    qed
  next
    case False
    then show ?thesis using loop_event_runs [OF st, of i] LoopEvent by simp
  qed
next
  case (HealthCheck r)
  then show ?thesis using assms(1) by auto
qed

lemma instance_steps_remaining:
  assumes "instance_steps es s = Some s'" and "i < length (sup_runs s)" and "run_cancelled (sup_runs s ! i)"
  shows "remaining (run_pc (sup_runs s' ! i)) + length (filter (of_run i) es)
    \<le> remaining (run_pc (sup_runs s ! i))"
  using assms
proof (induction es arbitrary: s)
  case (Cons e es)
  then obtain s1 where s1: "instance_step e s = Some s1" "instance_steps es s1 = Some s'"
    by (auto split: option.splits)
  have fr: "same_frame s s1" by (rule instance_step_frame [OF s1(1)])
  have i: "i < length (sup_runs s1)" "run_cancelled (sup_runs s1 ! i)"
    using fr same_frame_nth [OF fr Cons.prems(2)] Cons.prems(2,3) by (simp_all add: same_frame_def)
  from Cons.IH [OF s1(2) i] instance_step_remaining [OF s1(1) Cons.prems(2,3)]
  show ?case by (simp split: if_splits)
qed simp

lemma run_enabled:
  assumes "i < length (sup_runs s)" and "run_pc (sup_runs s ! i) \<noteq> Returned"
  shows "\<exists>ev. loop_event_at i ev s \<noteq> None"
proof -
  let ?l = "sup_runs s ! i"
  have "\<exists>ev. runLoop_step ev (sup_inst s, sup_socket s, ?l) \<noteq> None"
  proof (cases "run_pc ?l")
    case AtExec
    then show ?thesis by (intro exI [of _ "SetupFails StartFailed"]) (simp add: runLoop_step_def)
  next
    case (AtWait pid)
    then show ?thesis by (intro exI [of _ "ProcessExits None"]) (simp add: runLoop_step_def)
  next
    case AtBackoff
    then show ?thesis by (intro exI [of _ TimerFires]) (simp add: runLoop_step_def)
  qed (use assms(2) in \<open>auto intro!: exI [of _ Proceed] simp: runLoop_step_def\<close>)
  then show ?thesis using assms(1) by (force simp: loop_event_at_def split: option.splits)
qed

lemma remaining_le: "remaining pc \<le> 3"
  by (cases pc) simp_all

text \<open>C22: A run whose context is cancelled takes at most three more steps, and until it has
  returned it always has a step to take; so once its child exits, it returns and closes its
  channel, whatever else happens to the instance.\<close>

theorem cancelled_run_returns:
  assumes "instance_steps es s = Some s'" and "i < length (sup_runs s)" and "run_cancelled (sup_runs s ! i)"
  shows "length (filter (of_run i) es) \<le> 3
    \<and> (run_pc (sup_runs s' ! i) = Returned \<or> (\<exists>ev. loop_event_at i ev s' \<noteq> None))"
proof -
  have "i < length (sup_runs s')"
    using instance_steps_frame [OF assms(1)] assms(2) by (simp add: same_frame_def)
  then show ?thesis
    using instance_steps_remaining [OF assms] remaining_le [of "run_pc (sup_runs s ! i)"]
      run_enabled [of i s'] by auto
qed

section \<open>One child at a time\<close>

text \<open>
  The histories of an instance whose every \<open>Stop\<close> ends before its timeout: started once, then steps
  of its runs and health checks, stopped, and started again with another target.
\<close>

inductive managed :: "supervised \<Rightarrow> bool" where
  started: "inst_pid inst = 0 \<Longrightarrow> managed (Start_loop False (supervise inst))"
| stepped: "managed s \<Longrightarrow> instance_step e s = Some s' \<Longrightarrow> managed s'"
| restarted: "managed s \<Longrightarrow> Stop es False s = Some (sigs, s') \<Longrightarrow>
    managed (Start_loop False (s'\<lparr>sup_inst := (sup_inst s')\<lparr>inst_Target := t\<rparr>\<rparr>))"

inductive_cases managed_cases: "managed s"

fun waits_for :: "loop_pc \<Rightarrow> int option" where
  "waits_for (AtWait pid) = Some pid"
| "waits_for _ = None"

definition pid_agrees :: "loop_pc \<Rightarrow> int \<Rightarrow> bool \<Rightarrow> bool" where
  "pid_agrees pc pid sock =
     (case waits_for pc of None \<Rightarrow> pid = 0 \<and> \<not> sock | Some p \<Rightarrow> 0 < p \<and> pid = p \<and> sock)"

definition solo :: "supervised \<Rightarrow> bool" where
  "solo s \<longleftrightarrow>
     sup_runs s \<noteq> []
     \<and> list_all (\<lambda>l. run_pc l = Returned) (butlast (sup_runs s))
     \<and> inst_cancelFunc (sup_inst s) = Some (length (sup_runs s) - 1)
     \<and> inst_stoppedCh (sup_inst s) = Some (length (sup_runs s) - 1)
     \<and> pid_agrees (run_pc (last (sup_runs s))) (inst_pid (sup_inst s)) (sup_socket s)"

lemma runLoop_step_pid:
  assumes "runLoop_step ev (inst, sock, l) = Some (inst', sock', l')"
    and "pid_agrees (run_pc l) (inst_pid inst) sock"
  shows "pid_agrees (run_pc l') (inst_pid inst') sock'"
  using assms by (cases rule: runLoop_step_cases) (simp_all add: pid_agrees_def)

lemma butlast_last_nth: "xs \<noteq> [] \<Longrightarrow> i < length xs - 1 \<Longrightarrow> xs ! i \<in> set (butlast xs)"
  by (metis length_butlast nth_butlast nth_mem)

lemma solo_step:
  assumes "solo s" and "instance_step e s = Some s'"
  shows "solo s'"
proof (cases e)
  case (LoopEvent i ev)
  with assms(2) have "loop_event_at i ev s = Some s'" by simp
  then show ?thesis
  proof (cases rule: loop_event_at_Some)
    case (1 inst sock l)
    have ne: "sup_runs s \<noteq> []" using assms(1) by (simp add: solo_def)
    have "run_pc (sup_runs s ! i) \<noteq> Returned"
      using 1(2) by (cases rule: runLoop_step_cases) simp_all
    then have "\<not> i < length (sup_runs s) - 1"
      using assms(1) butlast_last_nth [OF ne] by (auto simp: solo_def list_all_iff)
    with 1(1) have i: "i = length (sup_runs s) - 1" by simp
    then have last: "sup_runs s ! i = last (sup_runs s)" using ne by (simp add: last_conv_nth)
    have runs: "butlast ((sup_runs s)[i := l]) = butlast (sup_runs s)" "last ((sup_runs s)[i := l]) = l"
      using ne i by (simp_all add: butlast_list_update last_list_update)
    show ?thesis
      using assms(1) runLoop_step_pid [OF 1(2)] runLoop_step_frame [OF 1(2)] 1(3) runs last
      by (simp add: solo_def)
  qed
next
  case (HealthCheck r)
  then show ?thesis using assms by (auto simp: solo_def)
qed

lemma solo_steps: "instance_steps es s = Some s' \<Longrightarrow> solo s \<Longrightarrow> solo s'"
proof (induction es arbitrary: s)
  case (Cons e es)
  then obtain s1 where "instance_step e s = Some s1" "instance_steps es s1 = Some s'"
    by (auto split: option.splits)
  then show ?case using Cons.IH solo_step Cons.prems(2) by blast
qed simp

lemma Stop_begin_solo:
  assumes "solo s"
  shows "solo (snd (Stop_begin s))"
    and "run_cancelled (last (sup_runs (snd (Stop_begin s))))"
    and "fst (Stop_begin s) = context_kill (last (sup_runs s)) @
           (case waits_for (run_pc (last (sup_runs s))) of None \<Rightarrow> [] | Some pid \<Rightarrow> [SIGTERM pid])"
    and "sup_inst (snd (Stop_begin s)) = sup_inst s"
    and "length (sup_runs (snd (Stop_begin s))) = length (sup_runs s)"
    and "run_pc (last (sup_runs (snd (Stop_begin s)))) = run_pc (last (sup_runs s))"
proof -
  let ?n = "length (sup_runs s) - Suc 0"
  have ne: "sup_runs s \<noteq> []" using assms by (simp add: solo_def)
  have b: "snd (Stop_begin s) = s\<lparr>sup_runs := (sup_runs s)[?n := (last (sup_runs s))\<lparr>run_cancelled := True\<rparr>]\<rparr>"
    using assms ne by (simp add: Stop_begin_def solo_def cancel_run_def last_conv_nth Let_def)
  have r: "butlast ((sup_runs s)[?n := x]) = butlast (sup_runs s)" "last ((sup_runs s)[?n := x]) = x" for x
    using ne by (simp_all add: butlast_list_update last_list_update)
  show "solo (snd (Stop_begin s))" using assms ne by (simp add: b solo_def r)
  show "run_cancelled (last (sup_runs (snd (Stop_begin s))))" by (simp add: b r)
  show "fst (Stop_begin s) = context_kill (last (sup_runs s)) @
           (case waits_for (run_pc (last (sup_runs s))) of None \<Rightarrow> [] | Some pid \<Rightarrow> [SIGTERM pid])"
    using assms ne
    by (simp add: Stop_begin_def solo_def pid_agrees_def last_conv_nth Let_def split: option.splits)
  show "sup_inst (snd (Stop_begin s)) = sup_inst s" "length (sup_runs (snd (Stop_begin s))) = length (sup_runs s)"
    "run_pc (last (sup_runs (snd (Stop_begin s)))) = run_pc (last (sup_runs s))"
    by (simp_all add: b r)
qed

lemma Stop_solo:
  assumes "solo s" and "Stop es False s = Some (sigs, s')"
  shows "list_all (\<lambda>l. run_pc l = Returned) (sup_runs s')" and "run_cancelled (last (sup_runs s'))"
    and "inst_pid (sup_inst s') = 0" and "\<not> sup_socket s'" and "inst_state (sup_inst s') = StateStopped"
    and "sigs = context_kill (last (sup_runs s)) @
           (case waits_for (run_pc (last (sup_runs s))) of None \<Rightarrow> [] | Some pid \<Rightarrow> [SIGTERM pid])"
    and "sup_runs s' \<noteq> []" and "length (sup_runs s') = length (sup_runs s)"
proof -
  note b = Stop_begin_solo [OF assms(1)]
  let ?n = "length (sup_runs s) - 1"
  have ne: "sup_runs s \<noteq> []" and ch: "inst_stoppedCh (sup_inst s) = Some ?n"
    using assms(1) by (simp_all add: solo_def)
  obtain s2 where s2: "instance_steps es (snd (Stop_begin s)) = Some s2" "channel_closed (Some ?n) s2"
    and s': "s' = s2\<lparr>sup_inst := setState StateStopped (sup_inst s2),
                   sup_socket := (if inst_SocketPath (sup_inst s2) \<noteq> [] then False else sup_socket s2)\<rparr>"
    and sg: "sigs = fst (Stop_begin s)"
    using assms(2) ch
    by (auto simp: Stop_def Stop_end_def split: prod.splits option.splits if_splits)
  have solo2: "solo s2" by (rule solo_steps [OF s2(1) b(1)])
  have len: "length (sup_runs s2) = length (sup_runs s)"
    using instance_steps_frame [OF s2(1)] b(5) by (simp add: same_frame_def)
  have ne2: "sup_runs s2 \<noteq> []" using len ne by auto
  have last2: "run_pc (last (sup_runs s2)) = Returned"
    using s2(2) len ne2 by (simp add: channel_closed_def last_conv_nth)
  show "list_all (\<lambda>l. run_pc l = Returned) (sup_runs s')"
    using solo2 last2 ne2 by (simp add: s' solo_def list_all_last)
  have "same_frame (snd (Stop_begin s)) s2" by (rule instance_steps_frame [OF s2(1)])
  from same_frame_nth [OF this, of ?n] show "run_cancelled (last (sup_runs s'))"
    using b(2,5) ne len ne2 by (simp add: s' last_conv_nth flip: length_greater_0_conv)
  show "inst_pid (sup_inst s') = 0" "\<not> sup_socket s'"
    using solo2 last2 by (simp_all add: s' solo_def pid_agrees_def)
  show "inst_state (sup_inst s') = StateStopped" by (simp add: s')
  show "sigs = context_kill (last (sup_runs s)) @
      (case waits_for (run_pc (last (sup_runs s))) of None \<Rightarrow> [] | Some pid \<Rightarrow> [SIGTERM pid])"
    using sg b(3) by simp
  show "sup_runs s' \<noteq> []" "length (sup_runs s') = length (sup_runs s)" using ne2 len by (simp_all add: s')
qed

lemma managed_solo: "managed s \<Longrightarrow> solo s \<and> \<not> run_cancelled (last (sup_runs s))"
proof (induction rule: managed.induct)
  case (started inst)
  then show ?case
    by (simp add: solo_def Start_loop_def supervise_def new_run_def pid_agrees_def Let_def)
next
  case (stepped s e s')
  then have ne: "sup_runs s \<noteq> []" by (simp add: solo_def)
  note fr = instance_step_frame [OF stepped.hyps(2)]
  have len: "length (sup_runs s') = length (sup_runs s)" using fr by (simp add: same_frame_def)
  then have "sup_runs s' \<noteq> []" using ne by auto
  then have "run_cancelled (last (sup_runs s')) = run_cancelled (last (sup_runs s))"
    using same_frame_nth [OF fr, of "length (sup_runs s) - 1"] len ne by (simp add: last_conv_nth)
  then show ?case using solo_step stepped by blast
next
  case (restarted s es sigs s' t)
  from Stop_solo [OF _ restarted.hyps(2)] restarted.IH show ?case
    by (simp add: solo_def Start_loop_def new_run_def pid_agrees_def Let_def)
qed

lemma context_kill_waiting:
  "\<not> run_cancelled l \<Longrightarrow>
    context_kill l = (case waits_for (run_pc l) of None \<Rightarrow> [] | Some pid \<Rightarrow> [ContextKill pid])"
  by (cases "run_pc l") (simp_all add: context_kill_def)

text \<open>The events that take a cancelled run to its end.\<close>

fun finishing :: "loop_pc \<Rightarrow> loop_event list" where
  "finishing Returned = []"
| "finishing AtTop = [Proceed]"
| "finishing AtExec = [SetupFails StartFailed, Proceed]"
| "finishing (AtWait _) = [ProcessExits None, Proceed]"
| "finishing (AtCheck _) = [Proceed]"
| "finishing AtCounted = [Proceed, ContextDone]"
| "finishing AtBackoff = [ContextDone]"

lemma finishing_finishes:
  assumes "i < length (sup_runs s)" and "run_cancelled (sup_runs s ! i)"
  shows "\<exists>s'. instance_steps (map (LoopEvent i) (finishing (run_pc (sup_runs s ! i)))) s = Some s'
    \<and> run_pc (sup_runs s' ! i) = Returned"
  using assms
  by (cases "run_pc (sup_runs s ! i)") (simp_all add: loop_event_at_def runLoop_step_def)


lemma sample_managed:
  "\<exists>s. managed s \<and> waits_for (run_pc (last (sup_runs s))) = Some 100"
proof -
  obtain s0 where s0: "s0 = Start_loop False (supervise (NewInstance hostile_target [] default_exporter))"
    by simp
  have m0: "managed s0" unfolding s0 by (rule started) simp
  obtain s1 where s1: "instance_step (LoopEvent 0 Proceed) s0 = Some s1" "map run_pc (sup_runs s1) = [AtExec]"
    by (simp add: s0 loop_event_at_def runLoop_step_def Start_loop_def supervise_def new_run_def Let_def)
  have m1: "managed s1" by (rule stepped [OF m0 s1(1)])
  obtain l where l: "sup_runs s1 = [l]" "run_pc l = AtExec" using s1(2) by auto
  obtain s2 where s2: "instance_step (LoopEvent 0 (ProcessStarts 100)) s1 = Some s2"
    "map run_pc (sup_runs s2) = [AtWait 100]"
    by (simp add: l loop_event_at_def runLoop_step_def)
  obtain l' where l': "sup_runs s2 = [l']" "run_pc l' = AtWait 100" using s2(2) by auto
  from stepped [OF m1 s2(1)] l' show ?thesis by (intro exI [of _ s2]) simp
qed


theorem backoff_law_witness:
  "\<exists>s'. instance_steps [LoopEvent 0 Proceed, LoopEvent 0 (SetupFails StartFailed), LoopEvent 0 Proceed,
            HealthCheck TransportError, LoopEvent 0 Proceed, LoopEvent 0 TimerFires]
          (Start_loop False (supervise (NewInstance hostile_target [] default_exporter))) = Some s'
     \<and> run_backoff (sup_runs s' ! 0) = 2 * time_Second"
proof -
  let ?s = "Start_loop False (supervise (NewInstance hostile_target [] default_exporter))"
  let ?es = "[LoopEvent 0 Proceed, LoopEvent 0 (SetupFails StartFailed), LoopEvent 0 Proceed,
            HealthCheck TransportError, LoopEvent 0 Proceed, LoopEvent 0 TimerFires]"
  have "instance_steps ?es ?s \<noteq> None"
    by (simp add: loop_event_at_def runLoop_step_def Start_loop_def supervise_def new_run_def Let_def)
  then obtain s' where s': "instance_steps ?es ?s = Some s'" by blast
  have "run_backoff (sup_runs s' ! 0) = min (2 ^ timers 0 ?es) 30 * time_Second"
    by (rule backoff_law [OF s', of 0 False]) (simp_all add: Start_loop_def supervise_def Let_def)
  then show ?thesis using s' by (simp add: timers_def)
qed

theorem cancelled_run_returns_witness:
  "\<exists>s'. instance_steps [LoopEvent 0 Proceed] (Start_loop True (supervise (NewInstance hostile_target [] default_exporter)))
       = Some s' \<and> run_pc (sup_runs s' ! 0) = Returned
     \<and> length (filter (of_run 0) [LoopEvent 0 Proceed]) \<le> 3"
proof -
  let ?s = "Start_loop True (supervise (NewInstance hostile_target [] default_exporter))"
  obtain s' where s': "instance_steps [LoopEvent 0 Proceed] ?s = Some s'" "run_pc (sup_runs s' ! 0) = Returned"
    by (simp add: loop_event_at_def runLoop_step_def Start_loop_def supervise_def new_run_def Let_def)
  show ?thesis
    using cancelled_run_returns [OF s'(1), of 0] s'
    by (simp add: Start_loop_def supervise_def new_run_def Let_def)
qed

section \<open>Overlapping runs\<close>



end
