(* ===== verification/Supervisor.thy ===== *)
theory Supervisor
  imports InstanceLoop
begin

text \<open>
  Package \<open>internal/pkg/supervisor\<close> (\<open>manager.go\<close>): the manager that keeps one child exporter per
  target. Its methods run under the manager's mutex. \<open>m_removed\<close> is a ghost field that keeps the
  instances deleted from the map, whose runs may still be alive.

  How a \<open>Stop\<close> inside an operation goes is an argument \<open>how\<close>: for the key of the instance the
  events that happen while it waits and whether the timeout elapses. Events of the other instances
  do not touch the stopped one, so they are steps of their own before or after the operation. An
  operation has the result \<open>None\<close> when \<open>how\<close> is no possible course of events.
\<close>

section \<open>State\<close>

record Manager =
  m_cancelled :: bool
  m_config :: ExporterConfig
  m_instances :: "(string, supervised) gomap"
  m_removed :: "supervised list"

type_synonym stop_course = "string \<Rightarrow> instance_event list \<times> bool"

definition NewSupervisor :: "ExporterConfig \<Rightarrow> Manager" where
  "NewSupervisor cfg =
     \<lparr>m_cancelled = False,
      m_config = (if exp_SocketDir cfg = [] then cfg\<lparr>exp_SocketDir := DefaultSocketDir\<rparr> else cfg),
      m_instances = [], m_removed = []\<rparr>"

section \<open>Reconcile\<close>

definition desired_map :: "Target list \<Rightarrow> (string, Target) gomap" where
  "desired_map desired = fold (\<lambda>t. gm_put (target_key t) t) desired []"

definition stop_as :: "stop_course \<Rightarrow> string \<Rightarrow> supervised \<Rightarrow> supervised option" where
  "stop_as how i s = map_option snd (Stop (fst (how i)) (snd (how i)) s)"

definition remove_instance ::
  "stop_course \<Rightarrow> (string, Target) gomap \<Rightarrow> string \<times> supervised \<Rightarrow> Manager \<Rightarrow> Manager option" where
  "remove_instance how desiredMap kv m =
     (if gm_get desiredMap (fst kv) = None
      then map_option (\<lambda>s. m\<lparr>m_instances := gm_del (fst kv) (m_instances m),
                             m_removed := m_removed m @ [s]\<rparr>)
             (stop_as how (fst kv) (snd kv))
      else Some m)"

definition set_target :: "Target \<Rightarrow> supervised \<Rightarrow> supervised" where
  "set_target t s = s\<lparr>sup_inst := (sup_inst s)\<lparr>inst_Target := t\<rparr>\<rparr>"

definition update_instance ::
  "stop_course \<Rightarrow> string \<times> Target \<Rightarrow> Manager \<Rightarrow> Manager option" where
  "update_instance how kv m =
     (case kv of (i, t) \<Rightarrow>
      case gm_get (m_instances m) i of
        None \<Rightarrow>
          Some (m\<lparr>m_instances :=
            gm_put i (Start_loop (m_cancelled m) (supervise (NewInstance t [] (m_config m)))) (m_instances m)\<rparr>)
      | Some existing \<Rightarrow>
          (let old = inst_Target (sup_inst existing)
           in if Endpoint old \<noteq> Endpoint t \<or> NetNS old \<noteq> NetNS t
              then map_option
                     (\<lambda>s. m\<lparr>m_instances := gm_put i (Start_loop (m_cancelled m) (set_target t s)) (m_instances m)\<rparr>)
                     (stop_as how i existing)
              else Some (m\<lparr>m_instances :=
                     gm_put i (set_target (old\<lparr>Labels := Labels t, Tenant := Tenant t\<rparr>) existing)
                       (m_instances m)\<rparr>)))"

definition Reconcile ::
  "(string, supervised) range_order \<Rightarrow> (string, Target) range_order \<Rightarrow> stop_course \<Rightarrow> Target list
    \<Rightarrow> Manager \<Rightarrow> Manager option" where
  "Reconcile ri rd how desired m =
     (let desiredMap = desired_map desired
      in Option.bind (fold_opt (remove_instance how desiredMap) (ri (m_instances m)) m)
           (fold_opt (update_instance how) (rd desiredMap)))"

section \<open>The other operations\<close>

text \<open>One tick of the health loop: \<open>results\<close> gives the outcome of each request.\<close>

definition health_interval :: "int \<Rightarrow> int" where
  "health_interval interval = (if interval \<le> 0 then 15 * time_Second else interval)"

definition health_tick :: "(string \<Rightarrow> http_result) \<Rightarrow> Manager \<Rightarrow> Manager" where
  "health_tick results m =
     (if m_cancelled m then m
      else m\<lparr>m_instances :=
        map (\<lambda>(i, s). (i, s\<lparr>sup_inst := snd (CheckHealth (\<lambda>_. True) (\<lambda>_. results i) (sup_inst s))\<rparr>))
          (m_instances m)\<rparr>)"

definition ListInstances :: "(string, supervised) range_order \<Rightarrow> Manager \<Rightarrow> Instance list" where
  "ListInstances ri m = map (\<lambda>kv. sup_inst (snd kv)) (ri (m_instances m))"

definition GetInstance :: "(string, supervised) range_order \<Rightarrow> string \<Rightarrow> Manager \<Rightarrow> Instance option" where
  "GetInstance ri nameOrID m =
     (case gm_get (m_instances m) nameOrID of
        Some s \<Rightarrow> Some (sup_inst s)
      | None \<Rightarrow>
          map_option (\<lambda>kv. sup_inst (snd kv))
            (find (\<lambda>kv. Name (inst_Target (sup_inst (snd kv))) = nameOrID) (ri (m_instances m))))"

record ScrapeResult =
  res_Target :: Target
  res_SocketPath :: string
  res_Port :: int
  res_Data :: "http_error + string"

text \<open>
  The goroutines of \<open>ScrapeAll\<close> write their results into a slice, each at its own index, in the
  order in which they complete; \<open>None\<close> is a slot that has not been written.
\<close>

definition scrape_result :: "(Instance \<Rightarrow> http_error + string) \<Rightarrow> Instance \<Rightarrow> ScrapeResult" where
  "scrape_result scrape inst =
     \<lparr>res_Target = inst_Target inst, res_SocketPath = inst_SocketPath inst, res_Port = inst_Port inst,
      res_Data = scrape inst\<rparr>"

definition ScrapeAll ::
  "(string, supervised) range_order \<Rightarrow> nat list \<Rightarrow> (Instance \<Rightarrow> http_error + string) \<Rightarrow> Manager
    \<Rightarrow> ScrapeResult option list" where
  "ScrapeAll ri completions scrape m =
     (let instances = ListInstances ri m
      in fold (\<lambda>i results. results[i := Some (scrape_result scrape (instances ! i))]) completions
           (replicate (length instances) None))"

definition cancel_all :: "supervised \<Rightarrow> supervised" where
  "cancel_all s = s\<lparr>sup_runs := map (\<lambda>l. l\<lparr>run_cancelled := True\<rparr>) (sup_runs s)\<rparr>"

definition Shutdown :: "(string, supervised) range_order \<Rightarrow> stop_course \<Rightarrow> Manager \<Rightarrow> Manager option" where
  "Shutdown ri how m =
     map_option (\<lambda>stopped. m\<lparr>m_cancelled := True, m_instances := [],
                             m_removed := map cancel_all (m_removed m) @ stopped\<rparr>)
       (those (map (\<lambda>kv. stop_as how (fst kv) (cancel_all (snd kv))) (ri (m_instances m))))"

section \<open>The running manager\<close>

text \<open>
  A step is an operation or an event at one instance, in the map or removed from it. The contexts
  of all runs derive from the manager's, which \<open>Shutdown\<close> cancels first.
\<close>

inductive manager_step :: "Manager \<Rightarrow> Manager \<Rightarrow> bool" where
  reconcile: "is_range_order ri \<Longrightarrow> is_range_order rd \<Longrightarrow> Reconcile ri rd how desired m = Some m' \<Longrightarrow>
    manager_step m m'"
| event: "gm_get (m_instances m) i = Some s \<Longrightarrow> instance_step e s = Some s' \<Longrightarrow>
    manager_step m (m\<lparr>m_instances := gm_put i s' (m_instances m)\<rparr>)"
| removed_event: "j < length (m_removed m) \<Longrightarrow> instance_step e (m_removed m ! j) = Some s' \<Longrightarrow>
    manager_step m (m\<lparr>m_removed := (m_removed m)[j := s']\<rparr>)"
| health: "manager_step m (health_tick results m)"
| shutdown: "is_range_order ri \<Longrightarrow> Shutdown ri how m = Some m' \<Longrightarrow> manager_step m m'"

inductive_cases manager_step_cases: "manager_step m m'"

definition manager_reachable :: "ExporterConfig \<Rightarrow> Manager \<Rightarrow> bool" where
  "manager_reachable cfg m = manager_step\<^sup>*\<^sup>* (NewSupervisor cfg) m"

section \<open>Invariant\<close>

text \<open>
  A managed instance can cancel its latest run; all earlier runs have been cancelled. Every run of
  a removed instance has been cancelled.
\<close>

definition live :: "bool \<Rightarrow> supervised \<Rightarrow> bool" where
  "live c s \<longleftrightarrow>
     sup_runs s \<noteq> [] \<and> list_all run_cancelled (butlast (sup_runs s))
     \<and> run_cancelled (last (sup_runs s)) = c
     \<and> inst_cancelFunc (sup_inst s) = Some (length (sup_runs s) - 1)
     \<and> inst_stoppedCh (sup_inst s) = Some (length (sup_runs s) - 1)"

definition dead :: "supervised \<Rightarrow> bool" where
  "dead s \<longleftrightarrow> list_all run_cancelled (sup_runs s)"

definition filed_under :: "ExporterConfig \<Rightarrow> string \<Rightarrow> Instance \<Rightarrow> bool" where
  "filed_under cfg i inst \<longleftrightarrow>
     target_key (inst_Target inst) = i
     \<and> inst_SocketPath inst = filepath_Join (exp_SocketDir cfg) (sanitizeSocketName i @ ''.sock'')"

definition manager_inv :: "Manager \<Rightarrow> bool" where
  "manager_inv m \<longleftrightarrow>
     gm_ok (m_instances m) \<and> exp_SocketDir (m_config m) \<noteq> []
     \<and> (\<forall>i s. gm_get (m_instances m) i = Some s \<longrightarrow>
            live (m_cancelled m) s \<and> filed_under (m_config m) i (sup_inst s))
     \<and> list_all dead (m_removed m)"

lemma same_frame_live: "same_frame s s' \<Longrightarrow> live c s \<Longrightarrow> live c s'"
proof -
  assume f: "same_frame s s'" and l: "live c s"
  have ne: "sup_runs s \<noteq> []" "sup_runs s' \<noteq> []"
    and c: "map run_cancelled (sup_runs s') = map run_cancelled (sup_runs s)"
    using f l by (auto simp: same_frame_def live_def)
  have "map run_cancelled (butlast (sup_runs s')) = map run_cancelled (butlast (sup_runs s))"
    using c by (metis map_butlast)
  then have "list_all run_cancelled (butlast (sup_runs s'))"
    using l by (simp add: live_def list_all_iff) (metis image_iff list.set_map)
  moreover have "run_cancelled (last (sup_runs s')) = run_cancelled (last (sup_runs s))"
    using c ne by (metis last_map)
  ultimately show "live c s'" using f l ne by (simp add: live_def same_frame_def)
qed

lemma same_frame_dead: "same_frame s s' \<Longrightarrow> dead s \<Longrightarrow> dead s'"
  unfolding same_frame_def dead_def list_all_iff by (metis image_iff list.set_map)

lemma same_frame_filed: "same_frame s s' \<Longrightarrow> filed_under cfg i (sup_inst s) \<Longrightarrow> filed_under cfg i (sup_inst s')"
  by (simp add: same_frame_def filed_under_def)

text \<open>\<open>Stop\<close> as the manager sees it: afterwards no run of the instance is left uncancelled.\<close>

lemma Stop_dead:
  assumes "live c s" and "Stop es timed_out s = Some (sigs, s')"
  shows "dead s'" and "length (sup_runs s') = length (sup_runs s)"
    and "inst_Target (sup_inst s') = inst_Target (sup_inst s)"
    and "inst_SocketPath (sup_inst s') = inst_SocketPath (sup_inst s)"
    and "inst_state (sup_inst s') = StateStopped"
proof -
  let ?n = "length (sup_runs s) - Suc 0"
  let ?runs = "(sup_runs s)[?n := (sup_runs s ! ?n)\<lparr>run_cancelled := True\<rparr>]"
  have ne: "sup_runs s \<noteq> []" and fn: "inst_cancelFunc (sup_inst s) = Some ?n"
    using assms(1) by (simp_all add: live_def)
  have b: "snd (Stop_begin s) = s\<lparr>sup_runs := ?runs\<rparr>"
    using ne fn by (simp add: Stop_begin_def cancel_run_def Let_def)
  have "butlast ?runs = butlast (sup_runs s)" "last ?runs = (sup_runs s ! ?n)\<lparr>run_cancelled := True\<rparr>" "?runs \<noteq> []"
    using ne by (simp_all add: butlast_list_update last_list_update)
  then have d: "dead (snd (Stop_begin s))"
    using assms(1) list_all_last [of ?runs run_cancelled] by (simp add: b dead_def live_def)
  obtain s2 where s2: "instance_steps es (snd (Stop_begin s)) = Some s2"
    and s': "s' = s2\<lparr>sup_inst := setState StateStopped (sup_inst s2),
                   sup_socket := (if inst_SocketPath (sup_inst s2) \<noteq> [] then False else sup_socket s2)\<rparr>"
    using assms(2)
    by (auto simp: Stop_def Stop_end_def split: prod.splits option.splits if_splits)
  have f: "same_frame (snd (Stop_begin s)) s2" by (rule instance_steps_frame [OF s2])
  show "dead s'" using same_frame_dead [OF f d] by (simp add: s' dead_def)
  show "length (sup_runs s') = length (sup_runs s)"
    "inst_Target (sup_inst s') = inst_Target (sup_inst s)"
    "inst_SocketPath (sup_inst s') = inst_SocketPath (sup_inst s)"
    using f by (simp_all add: s' b same_frame_def)
  show "inst_state (sup_inst s') = StateStopped" by (simp add: s')
qed

lemma stop_as_Some:
  assumes "stop_as how i s = Some s'" and "live c s"
  shows "dead s'" and "length (sup_runs s') = length (sup_runs s)"
    and "inst_Target (sup_inst s') = inst_Target (sup_inst s)"
    and "inst_SocketPath (sup_inst s') = inst_SocketPath (sup_inst s)"
    and "inst_state (sup_inst s') = StateStopped"
  using assms Stop_dead [OF assms(2)] by (auto simp: stop_as_def)

lemma Start_loop_live: "dead s \<Longrightarrow> live c (Start_loop c s)"
  by (simp add: live_def dead_def Start_loop_def new_run_def Let_def)

lemma Start_loop_facts [simp]:
  "length (sup_runs (Start_loop c s)) = Suc (length (sup_runs s))"
  "inst_Target (sup_inst (Start_loop c s)) = inst_Target (sup_inst s)"
  "inst_SocketPath (sup_inst (Start_loop c s)) = inst_SocketPath (sup_inst s)"
  by (simp_all add: Start_loop_def Let_def)

lemma supervise_facts [simp]: "dead (supervise inst)" "sup_inst (supervise inst) = inst" "sup_runs (supervise inst) = []"
  by (simp_all add: supervise_def dead_def)

lemma set_target_facts [simp]:
  "sup_runs (set_target t s) = sup_runs s" "inst_Target (sup_inst (set_target t s)) = t"
  "inst_SocketPath (sup_inst (set_target t s)) = inst_SocketPath (sup_inst s)"
  "dead (set_target t s) = dead s" "live c (set_target t s) = live c s"
  by (simp_all add: set_target_def dead_def live_def)

section \<open>What Reconcile does\<close>

lemma desired_map_get:
  "gm_get (desired_map desired) i = find (\<lambda>t. target_key t = i) (rev desired)"
  unfolding desired_map_def by (subst gm.put_all_get) (simp split: option.split)

lemma desired_map_keys: "gm_keys (desired_map desired) = target_key ` set desired"
  using gm.put_all_dom [of target_key "\<lambda>t. t" desired "[]"] by (simp add: desired_map_def dom_gm_get)

lemma desired_map_ok [simp]: "gm_ok (desired_map desired)"
  unfolding desired_map_def by (rule gm.put_all_ok) simp

lemma desired_map_key: "gm_get (desired_map desired) i = Some t \<Longrightarrow> target_key t = i"
  by (auto simp: desired_map_get dest: find_Some_in)

text \<open>The outcome for one instance: removed, created, restarted or refreshed.\<close>

definition changed :: "Target \<Rightarrow> Target \<Rightarrow> bool" where
  "changed old t = (Endpoint old \<noteq> Endpoint t \<or> NetNS old \<noteq> NetNS t)"

definition reconciled :: "stop_course \<Rightarrow> bool \<Rightarrow> ExporterConfig \<Rightarrow> string \<Rightarrow> supervised option \<Rightarrow> Target
    \<Rightarrow> supervised option" where
  "reconciled how c cfg i s t =
     (case s of
        None \<Rightarrow> Some (Start_loop c (supervise (NewInstance t [] cfg)))
      | Some s \<Rightarrow>
          if changed (inst_Target (sup_inst s)) t
          then map_option (\<lambda>s. Start_loop c (set_target t s)) (stop_as how i s)
          else Some (set_target ((inst_Target (sup_inst s))\<lparr>Labels := Labels t, Tenant := Tenant t\<rparr>) s))"

lemma reconciled_target:
  "reconciled how c cfg i s t = Some s' \<Longrightarrow> inst_Target (sup_inst s') =
     (case s of None \<Rightarrow> normalized_target t
      | Some x \<Rightarrow> if changed (inst_Target (sup_inst x)) t then t
                  else (inst_Target (sup_inst x))\<lparr>Labels := Labels t, Tenant := Tenant t\<rparr>)"
  by (auto simp: reconciled_def split: option.splits if_splits)

lemma update_instance_alt:
  "update_instance how (i, t) m =
     map_option (\<lambda>s. m\<lparr>m_instances := gm_put i s (m_instances m)\<rparr>)
       (reconciled how (m_cancelled m) (m_config m) i (gm_get (m_instances m) i) t)"
  by (simp add: update_instance_def reconciled_def changed_def option.map_comp o_def Let_def split: option.split)

definition same_manager :: "Manager \<Rightarrow> Manager \<Rightarrow> bool" where
  "same_manager m m' \<longleftrightarrow> m_cancelled m' = m_cancelled m \<and> m_config m' = m_config m"

lemma update_loop:
  assumes "fold_opt (update_instance how) xs m = Some m'" and "gm_ok xs"
  shows "same_manager m m' \<and> m_removed m' = m_removed m \<and> (gm_ok (m_instances m) \<longrightarrow> gm_ok (m_instances m'))
    \<and> (\<forall>i. gm_get (m_instances m') i =
          (case gm_get xs i of
             None \<Rightarrow> gm_get (m_instances m) i
           | Some t \<Rightarrow> reconciled how (m_cancelled m) (m_config m) i (gm_get (m_instances m) i) t))
    \<and> (\<forall>i t. gm_get xs i = Some t \<longrightarrow> gm_get (m_instances m') i \<noteq> None)"
  using assms
proof (induction xs arbitrary: m)
  case (Cons x xs)
  obtain i t where x: "x = (i, t)" by (cases x)
  from Cons.prems(1) obtain s where s: "reconciled how (m_cancelled m) (m_config m) i (gm_get (m_instances m) i) t = Some s"
    and rest: "fold_opt (update_instance how) xs (m\<lparr>m_instances := gm_put i s (m_instances m)\<rparr>) = Some m'"
    unfolding x fold_opt_Cons_Some update_instance_alt by auto
  have i: "gm_get xs i = None" and ok: "gm_ok xs"
    using Cons.prems(2) gm_keys_get by (force simp: x)+
  from Cons.IH [OF rest ok] s i show ?case
    by (auto simp: x same_manager_def split: option.split)
qed (simp add: same_manager_def)

lemma remove_loop:
  assumes "fold_opt (remove_instance how dm) xs m = Some m'" and "gm_ok xs"
  shows "same_manager m m' \<and> (gm_ok (m_instances m) \<longrightarrow> gm_ok (m_instances m'))
    \<and> (\<forall>i. gm_get (m_instances m') i =
          (if gm_get xs i \<noteq> None \<and> gm_get dm i = None then None else gm_get (m_instances m) i))
    \<and> (\<exists>rs. m_removed m' = m_removed m @ rs \<and>
          (\<forall>r \<in> set rs. \<exists>i s. gm_get xs i = Some s \<and> stop_as how i s = Some r))"
  using assms
proof (induction xs arbitrary: m)
  case (Cons x xs)
  obtain i s where x: "x = (i, s)" by (cases x)
  have i: "gm_get xs i = None" and ok: "gm_ok xs"
    using Cons.prems(2) gm_keys_get by (force simp: x)+
  have keep: "gm_get (x # xs) j = Some s'" if "gm_get xs j = Some s'" for j s'
    using that i by (auto simp: x)
  from Cons.prems(1) obtain m1 where m1: "remove_instance how dm (i, s) m = Some m1"
    and rest: "fold_opt (remove_instance how dm) xs m1 = Some m'"
    unfolding x fold_opt_Cons_Some by auto
  show ?case
  proof (cases "gm_get dm i")
    case None
    with m1 obtain r where r: "stop_as how i s = Some r"
      and m1': "m1 = m\<lparr>m_instances := gm_del i (m_instances m), m_removed := m_removed m @ [r]\<rparr>"
      by (auto simp: remove_instance_def)
    from Cons.IH [OF rest ok] obtain rs where rs: "m_removed m' = m_removed m1 @ rs"
      "\<forall>r \<in> set rs. \<exists>i s. gm_get xs i = Some s \<and> stop_as how i s = Some r" by blast
    have "\<exists>rs. m_removed m' = m_removed m @ rs \<and>
          (\<forall>r \<in> set rs. \<exists>i s. gm_get (x # xs) i = Some s \<and> stop_as how i s = Some r)"
    proof (intro exI [of _ "r # rs"] conjI ballI)
      show "m_removed m' = m_removed m @ r # rs" using rs(1) m1' by simp
      show "\<exists>i s. gm_get (x # xs) i = Some s \<and> stop_as how i s = Some q" if "q \<in> set (r # rs)" for q
      proof (cases "q = r")
        case True
        with r show ?thesis by (intro exI [of _ i] exI [of _ s]) (simp add: x)
      next
        case False
        with that have "q \<in> set rs" by simp
        with rs(2) keep show ?thesis by blast
      qed
    qed
    with Cons.IH [OF rest ok] None i m1' show ?thesis by (auto simp: x same_manager_def)
  next
    case (Some t)
    then have "m1 = m" using m1 by (simp add: remove_instance_def)
    note IH = Cons.IH [OF rest ok, unfolded this]
    have "\<exists>rs. m_removed m' = m_removed m @ rs \<and>
          (\<forall>r \<in> set rs. \<exists>i s. gm_get (x # xs) i = Some s \<and> stop_as how i s = Some r)"
      using IH keep by blast
    moreover have "\<forall>j. gm_get (m_instances m') j =
        (if gm_get (x # xs) j \<noteq> None \<and> gm_get dm j = None then None else gm_get (m_instances m) j)"
      using IH Some i by (auto simp: x)
    ultimately show ?thesis using IH by blast
  qed
qed (simp add: same_manager_def)

lemma Reconcile_spec:
  assumes "Reconcile ri rd how desired m = Some m'" and "is_range_order ri" and "is_range_order rd"
    and "gm_ok (m_instances m)"
  shows "same_manager m m'" and "gm_ok (m_instances m')"
    and "gm_get (m_instances m') i =
          (case gm_get (desired_map desired) i of
             None \<Rightarrow> None
           | Some t \<Rightarrow> reconciled how (m_cancelled m) (m_config m) i (gm_get (m_instances m) i) t)"
    and "gm_get (desired_map desired) i = Some t \<Longrightarrow> gm_get (m_instances m') i \<noteq> None"
    and "\<exists>rs. m_removed m' = m_removed m @ rs \<and>
          (\<forall>r \<in> set rs. \<exists>i s. gm_get (m_instances m) i = Some s \<and> stop_as how i s = Some r)"
proof -
  from assms(1) obtain m1 where m1: "fold_opt (remove_instance how (desired_map desired)) (ri (m_instances m)) m = Some m1"
    and m2: "fold_opt (update_instance how) (rd (desired_map desired)) m1 = Some m'"
    by (auto simp: Reconcile_def Let_def bind_eq_Some_conv)
  have ok: "gm_ok (ri (m_instances m))" "gm_ok (rd (desired_map desired))" using assms by simp_all
  note r = remove_loop [OF m1 ok(1)] and u = update_loop [OF m2 ok(2)]
  have gets: "gm_get (ri (m_instances m)) = gm_get (m_instances m)"
    "gm_get (rd (desired_map desired)) = gm_get (desired_map desired)" using assms by simp_all
  have sm: "same_manager m m1" using r by simp
  with u show "same_manager m m'" by (simp add: same_manager_def)
  show "gm_ok (m_instances m')" using r u assms(4) by simp
  show "gm_get (m_instances m') i =
      (case gm_get (desired_map desired) i of None \<Rightarrow> None
       | Some t \<Rightarrow> reconciled how (m_cancelled m) (m_config m) i (gm_get (m_instances m) i) t)"
    using r u sm unfolding gets by (auto simp: same_manager_def split: option.split)
  show "gm_get (desired_map desired) i = Some t \<Longrightarrow> gm_get (m_instances m') i \<noteq> None"
    using u unfolding gets by blast
  show "\<exists>rs. m_removed m' = m_removed m @ rs \<and>
      (\<forall>r \<in> set rs. \<exists>i s. gm_get (m_instances m) i = Some s \<and> stop_as how i s = Some r)"
    using r u unfolding gets by metis
qed

section \<open>Every operation keeps the invariant\<close>

lemma NewSupervisor_inv: "manager_inv (NewSupervisor cfg)"
  by (simp add: manager_inv_def NewSupervisor_def DefaultSocketDir_def)

lemma target_key_simps [simp]:
  "target_key (normalized_target t) = target_key t"
  "target_key (t\<lparr>Labels := l, Tenant := n\<rparr>) = target_key t"
  by (simp_all add: target_key_def)

lemma reconciled_inv:
  assumes "reconciled how c cfg i s t = Some s'" and "target_key t = i" and "exp_SocketDir cfg \<noteq> []"
    and "\<And>x. s = Some x \<Longrightarrow> live c x \<and> filed_under cfg i (sup_inst x)"
  shows "live c s' \<and> filed_under cfg i (sup_inst s')"
proof (cases s)
  case None
  have "exp_SocketDir (with_defaults cfg) = exp_SocketDir cfg" using assms(3) by (simp add: with_defaults_def)
  with assms(1,2) None show ?thesis
    by (auto simp: reconciled_def Start_loop_live filed_under_def default_socket_path_def)
next
  case (Some x)
  then have x: "live c x" "filed_under cfg i (sup_inst x)" using assms(4) by simp_all
  show ?thesis
  proof (cases "changed (inst_Target (sup_inst x)) t")
    case True
    with assms(1) Some obtain y where y: "stop_as how i x = Some y" "s' = Start_loop c (set_target t y)"
      by (auto simp: reconciled_def)
    note st = stop_as_Some [OF y(1) x(1)]
    then show ?thesis using x(2) assms(2) by (simp add: y(2) Start_loop_live filed_under_def)
  next
    case False
    with assms(1) Some x show ?thesis by (auto simp: reconciled_def filed_under_def)
  qed
qed

lemma Reconcile_inv:
  assumes "manager_inv m" and "Reconcile ri rd how desired m = Some m'" and "is_range_order ri" and "is_range_order rd"
  shows "manager_inv m'"
proof -
  have ok: "gm_ok (m_instances m)" and dir: "exp_SocketDir (m_config m) \<noteq> []"
    and old: "\<And>i s. gm_get (m_instances m) i = Some s \<Longrightarrow>
        live (m_cancelled m) s \<and> filed_under (m_config m) i (sup_inst s)"
    and rem: "list_all dead (m_removed m)"
    using assms(1) by (auto simp: manager_inv_def)
  note spec = Reconcile_spec [OF assms(2-4) ok]
  have same: "m_cancelled m' = m_cancelled m" "m_config m' = m_config m"
    using spec(1) by (simp_all add: same_manager_def)
  have "live (m_cancelled m) s \<and> filed_under (m_config m) i (sup_inst s)"
    if "gm_get (m_instances m') i = Some s" for i s
  proof -
    from that spec(3) [of i] obtain t where t: "gm_get (desired_map desired) i = Some t"
      "reconciled how (m_cancelled m) (m_config m) i (gm_get (m_instances m) i) t = Some s"
      by (auto split: option.splits)
    show ?thesis by (rule reconciled_inv [OF t(2) desired_map_key [OF t(1)] dir]) (rule old)
  qed
  moreover have "list_all dead (m_removed m')"
  proof -
    obtain rs where rs: "m_removed m' = m_removed m @ rs"
      "\<forall>r \<in> set rs. \<exists>i s. gm_get (m_instances m) i = Some s \<and> stop_as how i s = Some r"
      using spec(5) by blast
    then have "\<forall>r \<in> set rs. dead r" using old stop_as_Some(1) by metis
    with rs(1) rem show ?thesis by (auto simp: list_all_iff)
  qed
  ultimately show ?thesis using spec(2) dir by (simp add: manager_inv_def same)
qed

lemma cancel_all_live: "live c s \<Longrightarrow> live True (cancel_all s)"
  by (auto simp: live_def cancel_all_def list_all_iff last_map map_butlast [symmetric])

lemma cancel_all_dead [simp]: "dead (cancel_all s)"
  by (simp add: dead_def cancel_all_def list_all_iff)

lemma Shutdown_inv:
  assumes "manager_inv m" and "Shutdown ri how m = Some m'" and "is_range_order ri"
  shows "manager_inv m'" and "m_cancelled m'" and "m_instances m' = []"
proof -
  obtain stopped where st: "those (map (\<lambda>kv. stop_as how (fst kv) (cancel_all (snd kv))) (ri (m_instances m))) = Some stopped"
    and m': "m' = m\<lparr>m_cancelled := True, m_instances := [], m_removed := map cancel_all (m_removed m) @ stopped\<rparr>"
    using assms(2) by (auto simp: Shutdown_def)
  have "dead r" if "r \<in> set stopped" for r
  proof -
    from those_map_Some [OF st that] obtain kv where kv: "kv \<in> set (m_instances m)"
      "stop_as how (fst kv) (cancel_all (snd kv)) = Some r"
      using assms(3) by auto
    have "gm_get (m_instances m) (fst kv) = Some (snd kv)"
      using assms(1) kv(1) by (cases kv) (auto simp: manager_inv_def intro: in_set_gm_get)
    then have "live (m_cancelled m) (snd kv)" using assms(1) by (auto simp: manager_inv_def)
    from stop_as_Some(1) [OF kv(2) cancel_all_live [OF this]] show ?thesis .
  qed
  with assms(1) show "manager_inv m'" by (auto simp: m' manager_inv_def list_all_iff)
  show "m_cancelled m'" "m_instances m' = []" by (simp_all add: m')
qed

lemma health_tick_inv: "manager_inv m \<Longrightarrow> manager_inv (health_tick results m)"
proof -
  assume inv: "manager_inv m"
  let ?f = "\<lambda>i s. s\<lparr>sup_inst := snd (CheckHealth (\<lambda>_. True) (\<lambda>_. results i) (sup_inst s))\<rparr>"
  have f: "live c (?f i s) = live c s" for c i s by (simp add: live_def)
  have g: "filed_under cfg i (snd (CheckHealth v r inst)) = filed_under cfg i inst" for cfg i v r inst
    by (simp add: filed_under_def)
  show ?thesis
    using inv unfolding manager_inv_def health_tick_def
    by (auto simp: gm_ok_map gm_get_map f g)
qed

lemma manager_step_inv: "manager_step m m' \<Longrightarrow> manager_inv m \<Longrightarrow> manager_inv m'"
proof (erule manager_step_cases, goal_cases)
  case (1 ri rd how desired)
  then show ?case using Reconcile_inv by blast
next
  case (2 i s e s')
  note f = instance_step_frame [OF 2(4)]
  from 2 have "live (m_cancelled m) s \<and> filed_under (m_config m) i (sup_inst s)"
    by (simp add: manager_inv_def)
  with 2 f show ?case by (auto simp: manager_inv_def same_frame_live same_frame_filed)
next
  case (3 j e s')
  then have "dead s'"
    using same_frame_dead [OF instance_step_frame [OF 3(4)]] by (simp add: manager_inv_def list_all_length)
  with 3 show ?case by (auto simp: manager_inv_def list_all_length nth_list_update)
next
  case (4 results)
  then show ?case by (simp add: health_tick_inv)
next
  case (5 ri how)
  then show ?case using Shutdown_inv by blast
qed

lemma manager_step_config: "manager_step m m' \<Longrightarrow> manager_inv m \<Longrightarrow> m_config m' = m_config m"
proof (erule manager_step_cases, goal_cases)
  case (1 ri rd how desired)
  then have "gm_ok (m_instances m)" by (simp add: manager_inv_def)
  from Reconcile_spec(1) [OF 1(4) 1(2,3) this] show ?case by (simp add: same_manager_def)
next
  case (5 ri how)
  then show ?case by (auto simp: Shutdown_def)
qed (simp_all add: health_tick_def)

lemma manager_reachable_inv: "manager_reachable cfg m \<Longrightarrow> manager_inv m"
  unfolding manager_reachable_def
  by (induction rule: rtranclp_induct) (auto intro: manager_step_inv NewSupervisor_inv)

section \<open>Properties\<close>

lemma live_one_run:
  assumes "live c s"
  shows "length (filter (\<lambda>l. \<not> run_cancelled l) (sup_runs s)) = (if c then 0 else 1)"
proof -
  have ne: "sup_runs s \<noteq> []" and b: "list_all run_cancelled (butlast (sup_runs s))"
    using assms by (simp_all add: live_def)
  have "filter (\<lambda>l. \<not> run_cancelled l) (butlast (sup_runs s)) = []"
    using b by (simp add: list_all_iff)
  moreover have "filter (\<lambda>l. \<not> run_cancelled l) (sup_runs s) =
      filter (\<lambda>l. \<not> run_cancelled l) (butlast (sup_runs s)) @ filter (\<lambda>l. \<not> run_cancelled l) [last (sup_runs s)]"
    using ne by (metis append_butlast_last_id filter_append)
  ultimately show ?thesis using assms by (simp add: live_def)
qed

text \<open>C6: Whatever operations, child exits, health checks and timeouts have happened, every target
  in the map has exactly one run that is not cancelled (none after Shutdown), which is the one the
  next Stop will cancel and wait for; it is filed under its own key with the socket of that key.
  Every run of every instance ever removed is cancelled: no child is supervised twice and none is
  orphaned.\<close>

theorem one_live_run_per_target:
  assumes "manager_reachable cfg m" and "gm_get (m_instances m) i = Some s"
  shows "length (filter (\<lambda>l. \<not> run_cancelled l) (sup_runs s)) = (if m_cancelled m then 0 else 1)
    \<and> inst_cancelFunc (sup_inst s) = Some (length (sup_runs s) - 1)
    \<and> inst_stoppedCh (sup_inst s) = Some (length (sup_runs s) - 1)
    \<and> run_cancelled (last (sup_runs s)) = m_cancelled m
    \<and> filed_under (m_config m) i (sup_inst s)
    \<and> list_all (\<lambda>r. list_all run_cancelled (sup_runs r)) (m_removed m)"
proof -
  have "manager_inv m" by (rule manager_reachable_inv [OF assms(1)])
  then have "live (m_cancelled m) s" "filed_under (m_config m) i (sup_inst s)" "list_all dead (m_removed m)"
    using assms(2) by (auto simp: manager_inv_def)
  then show ?thesis using live_one_run [of "m_cancelled m" s] by (simp add: live_def dead_def list_all_iff)
qed

lemma Reconcile_keys:
  assumes "manager_inv m" and "Reconcile ri rd how desired m = Some m'"
    and "is_range_order ri" and "is_range_order rd"
  shows "gm_keys (m_instances m') = target_key ` set desired"
proof (rule set_eqI)
  fix i
  have ok: "gm_ok (m_instances m)" using assms(1) by (simp add: manager_inv_def)
  note spec = Reconcile_spec [OF assms(2-4) ok]
  have "i \<in> target_key ` set desired \<longleftrightarrow> gm_get (desired_map desired) i \<noteq> None"
    by (metis desired_map_keys gm_keys_get)
  then show "i \<in> gm_keys (m_instances m') \<longleftrightarrow> i \<in> target_key ` set desired"
    using spec(3) [of i] spec(4) [of i] unfolding gm_keys_get by (auto split: option.splits)
qed

text \<open>C2: After Reconcile exactly the keys of the desired list have an instance, whatever the
  iteration orders and however the Stops went. The instance of a key has the namespace, tenant
  and labels of the last target with that key, and its endpoint, as given or normalised.\<close>

theorem Reconcile_converges:
  assumes "manager_reachable cfg m" and "Reconcile ri rd how desired m = Some m'"
    and "is_range_order ri" and "is_range_order rd"
  shows "gm_keys (m_instances m') = target_key ` set desired
    \<and> (\<forall>i s t. gm_get (m_instances m') i = Some s \<and> find (\<lambda>t. target_key t = i) (rev desired) = Some t \<longrightarrow>
        NetNS (inst_Target (sup_inst s)) = NetNS t \<and> Tenant (inst_Target (sup_inst s)) = Tenant t
        \<and> Labels (inst_Target (sup_inst s)) = Labels t
        \<and> Endpoint (inst_Target (sup_inst s)) \<in> {Endpoint t, Endpoint (normalized_target t)})"
proof (intro conjI allI impI)
  have inv: "manager_inv m" by (rule manager_reachable_inv [OF assms(1)])
  then have ok: "gm_ok (m_instances m)"
    and live: "\<And>i s. gm_get (m_instances m) i = Some s \<Longrightarrow> live (m_cancelled m) s"
    by (auto simp: manager_inv_def)
  note spec = Reconcile_spec [OF assms(2-4) ok]
  show "gm_keys (m_instances m') = target_key ` set desired" by (rule Reconcile_keys [OF inv assms(2-4)])
  fix i s t
  assume "gm_get (m_instances m') i = Some s \<and> find (\<lambda>t. target_key t = i) (rev desired) = Some t"
  then have "reconciled how (m_cancelled m) (m_config m) i (gm_get (m_instances m) i) t = Some s"
    using spec(3) [of i] by (auto simp: desired_map_get)
  then have "NetNS (inst_Target (sup_inst s)) = NetNS t \<and> Tenant (inst_Target (sup_inst s)) = Tenant t
      \<and> Labels (inst_Target (sup_inst s)) = Labels t
      \<and> Endpoint (inst_Target (sup_inst s)) \<in> {Endpoint t, Endpoint (normalized_target t)}"
    by (auto simp: reconciled_target changed_def split: option.split)
  then show "NetNS (inst_Target (sup_inst s)) = NetNS t" "Tenant (inst_Target (sup_inst s)) = Tenant t"
    "Labels (inst_Target (sup_inst s)) = Labels t"
    "Endpoint (inst_Target (sup_inst s)) \<in> {Endpoint t, Endpoint (normalized_target t)}" by simp_all
qed

text \<open>C12: Reconcile restarts as little as possible. For a target that already has an instance, the
  runs, the socket and the process are left alone unless the endpoint or the namespace differs
  from the stored target, in which case all previous runs are cancelled and one new run is
  started; a new target gets one run.\<close>

theorem Reconcile_restarts_changed_only:
  assumes "manager_reachable cfg m" and "Reconcile ri rd how desired m = Some m'"
    and "is_range_order ri" and "is_range_order rd"
    and "find (\<lambda>t. target_key t = i) (rev desired) = Some t"
  shows "\<exists>s'. gm_get (m_instances m') i = Some s' \<and>
    (case gm_get (m_instances m) i of
       None \<Rightarrow> length (sup_runs s') = 1
     | Some s \<Rightarrow>
         (if Endpoint (inst_Target (sup_inst s)) = Endpoint t \<and> NetNS (inst_Target (sup_inst s)) = NetNS t
          then sup_runs s' = sup_runs s \<and> sup_socket s' = sup_socket s
               \<and> inst_pid (sup_inst s') = inst_pid (sup_inst s) \<and> State (sup_inst s') = State (sup_inst s)
          else length (sup_runs s') = Suc (length (sup_runs s))
               \<and> list_all run_cancelled (butlast (sup_runs s')) \<and> inst_Target (sup_inst s') = t))"
proof -
  have inv: "manager_inv m" by (rule manager_reachable_inv [OF assms(1)])
  then have ok: "gm_ok (m_instances m)"
    and live: "\<And>s. gm_get (m_instances m) i = Some s \<Longrightarrow> live (m_cancelled m) s"
    by (auto simp: manager_inv_def)
  have "gm_get (desired_map desired) i = Some t" using assms(5) by (simp add: desired_map_get)
  with Reconcile_spec(3,4) [OF assms(2-4) ok, of i] obtain s'
    where s': "gm_get (m_instances m') i = Some s'"
      "reconciled how (m_cancelled m) (m_config m) i (gm_get (m_instances m) i) t = Some s'" by auto
  show ?thesis
  proof (cases "gm_get (m_instances m) i")
    case None
    with s' show ?thesis by (auto simp: reconciled_def Start_loop_def Let_def)
  next
    case (Some s)
    show ?thesis
    proof (cases "changed (inst_Target (sup_inst s)) t")
      case True
      with s'(2) Some obtain y where y: "stop_as how i s = Some y" "s' = Start_loop (m_cancelled m) (set_target t y)"
        by (auto simp: reconciled_def)
      note st = stop_as_Some [OF y(1) live [OF Some]]
      have "live (m_cancelled m) s'" using st(1) by (simp add: y(2) Start_loop_live)
      then show ?thesis
        using s'(1) Some True st y(2) by (auto simp: changed_def Start_loop_live live_def)
    next
      case False
      with s' Some show ?thesis by (auto simp: reconciled_def changed_def set_target_def State_def)
    qed
  qed
qed

lemma remove_loop_none:
  "\<forall>kv \<in> set xs. gm_get dm (fst kv) \<noteq> None \<Longrightarrow> fold_opt (remove_instance how dm) xs m = Some m"
  by (induction xs) (auto simp: remove_instance_def)

lemma update_loop_total:
  assumes "gm_ok xs"
    and "\<forall>(i, t) \<in> set xs. reconciled how (m_cancelled m) (m_config m) i (gm_get (m_instances m) i) t \<noteq> None"
  shows "fold_opt (update_instance how) xs m \<noteq> None"
  using assms
proof (induction xs arbitrary: m)
  case (Cons x xs)
  obtain i t where x: "x = (i, t)" by (cases x)
  from Cons.prems(2) obtain s where s: "reconciled how (m_cancelled m) (m_config m) i (gm_get (m_instances m) i) t = Some s"
    by (auto simp: x)
  let ?m = "m\<lparr>m_instances := gm_put i s (m_instances m)\<rparr>"
  have "i \<notin> gm_keys xs" using Cons.prems(1) by (simp add: x)
  then have "\<forall>(j, u) \<in> set xs. reconciled how (m_cancelled ?m) (m_config ?m) j (gm_get (m_instances ?m) j) u \<noteq> None"
    using Cons.prems(2) by force
  from Cons.IH [OF _ this] Cons.prems(1) show ?case
    by (simp add: x update_instance_alt s)
qed simp

text \<open>
  \<open>Reconcile\<close> cannot get stuck: if no run returns in time, every \<open>Stop\<close> ends with its timeout.
\<close>

definition all_time_out :: stop_course where
  "all_time_out = (\<lambda>_. ([], True))"

lemma stop_as_timeout: "\<exists>s'. stop_as all_time_out i s = Some s'"
  by (simp add: stop_as_def all_time_out_def Stop_def Stop_end_def split: prod.split)

lemma Reconcile_total:
  assumes "is_range_order rd"
  shows "\<exists>m'. Reconcile ri rd all_time_out desired m = Some m'"
proof -
  have "fold_opt (remove_instance all_time_out dm) xs m \<noteq> None" for dm xs m
    by (rule fold_opt_total) (simp add: remove_instance_def stop_as_timeout)
  then obtain m1 where "fold_opt (remove_instance all_time_out (desired_map desired)) (ri (m_instances m)) m = Some m1"
    by blast
  moreover have "fold_opt (update_instance all_time_out) (rd (desired_map desired)) m1 \<noteq> None"
    by (rule update_loop_total) (use assms stop_as_timeout in \<open>auto simp: reconciled_def split: option.split\<close>)
  ultimately show ?thesis by (auto simp: Reconcile_def)
qed

text \<open>C30: When every desired endpoint is in normal form, reconciling a second time with the same
  list succeeds without stopping anything and changes no instance, whatever the iteration
  orders.\<close>

theorem Reconcile_idempotent:
  assumes "manager_reachable cfg m" and "Reconcile ri rd how desired m = Some m'"
    and "is_range_order ri" and "is_range_order rd" and "is_range_order ri2" and "is_range_order rd2"
    and "\<forall>t \<in> set desired. Endpoint (normalized_target t) = Endpoint t"
  shows "\<exists>m''. Reconcile ri2 rd2 how2 desired m' = Some m'' \<and> m_removed m'' = m_removed m'
    \<and> gm_get (m_instances m'') = gm_get (m_instances m')"
proof -
  have inv: "manager_inv m" by (rule manager_reachable_inv [OF assms(1)])
  then have ok: "gm_ok (m_instances m)" by (simp add: manager_inv_def)
  note spec = Reconcile_spec [OF assms(2-4) ok]
  have keys: "gm_get (desired_map desired) i \<noteq> None" if "gm_get (m_instances m') i \<noteq> None" for i
    using that spec(3) [of i] by (auto split: option.splits)
  have settled: "reconciled how2 (m_cancelled m') (m_config m') i (gm_get (m_instances m') i) t = gm_get (m_instances m') i
      \<and> gm_get (m_instances m') i \<noteq> None" if t: "gm_get (desired_map desired) i = Some t" for i t
  proof -
    have "t \<in> set desired" using t by (auto simp: desired_map_get dest: find_Some_in)
    obtain s where s: "gm_get (m_instances m') i = Some s"
      "reconciled how (m_cancelled m) (m_config m) i (gm_get (m_instances m) i) t = Some s"
      using spec(3) [of i] spec(4) [OF t] t by auto
    have "Endpoint (inst_Target (sup_inst s)) = Endpoint t \<and> NetNS (inst_Target (sup_inst s)) = NetNS t
        \<and> Tenant (inst_Target (sup_inst s)) = Tenant t \<and> Labels (inst_Target (sup_inst s)) = Labels t"
      using assms(7) \<open>t \<in> set desired\<close> by (auto simp: reconciled_target [OF s(2)] changed_def split: option.split)
    then show ?thesis by (simp add: s(1) reconciled_def changed_def set_target_def)
  qed
  have "fold_opt (remove_instance how2 (desired_map desired)) (ri2 (m_instances m')) m' = Some m'"
  proof (rule remove_loop_none, rule ballI)
    fix kv
    assume "kv \<in> set (ri2 (m_instances m'))"
    then have "fst kv \<in> gm_keys (m_instances m')" using assms(5) by simp
    then show "gm_get (desired_map desired) (fst kv) \<noteq> None" by (intro keys) (simp add: gm_keys_get)
  qed
  moreover have "fold_opt (update_instance how2) (rd2 (desired_map desired)) m' \<noteq> None"
    by (rule update_loop_total) (use assms(6) settled in_set_gm_get [OF desired_map_ok] in auto)
  ultimately obtain m'' where m'': "Reconcile ri2 rd2 how2 desired m' = Some m''"
    "fold_opt (update_instance how2) (rd2 (desired_map desired)) m' = Some m''"
    by (auto simp: Reconcile_def)
  have "gm_ok (rd2 (desired_map desired))" using assms(6) by simp
  note u = update_loop [OF m''(2) this]
  have "gm_get (m_instances m'') i = gm_get (m_instances m') i" for i
    using u settled [of i] assms(6) by (auto split: option.splits)
  with u m''(1) show ?thesis by blast
qed

text \<open>C31: When the normal form of an endpoint differs from what discovery reports, for instance a
  host without a port, the second Reconcile with the unchanged target stops the healthy child and
  starts another one, which is given the endpoint as reported and not its normal form.\<close>

theorem unnormalized_endpoint_restarts_once:
  assumes "Endpoint (normalized_target t) \<noteq> Endpoint t"
    and "is_range_order ri" and "is_range_order rd" and "is_range_order ri2" and "is_range_order rd2"
    and "Reconcile ri rd how [t] (NewSupervisor cfg) = Some m1"
    and "Reconcile ri2 rd2 how2 [t] m1 = Some m2"
  shows "\<exists>s1 s2. gm_get (m_instances m1) (target_key t) = Some s1 \<and> length (sup_runs s1) = 1
    \<and> Endpoint (inst_Target (sup_inst s1)) = Endpoint (normalized_target t)
    \<and> gm_get (m_instances m2) (target_key t) = Some s2 \<and> length (sup_runs s2) = 2
    \<and> run_cancelled (sup_runs s2 ! 0) \<and> Endpoint (inst_Target (sup_inst s2)) = Endpoint t"
proof -
  have r0: "manager_inv (NewSupervisor cfg)" by (rule NewSupervisor_inv)
  note spec = Reconcile_spec [OF assms(6,2,3)]
  have ok: "gm_ok (m_instances (NewSupervisor cfg))" "m_instances (NewSupervisor cfg) = []"
    by (simp_all add: NewSupervisor_def)
  have d: "gm_get (desired_map [t]) (target_key t) = Some t" by (simp add: desired_map_get)
  let ?s1 = "Start_loop (m_cancelled (NewSupervisor cfg)) (supervise (NewInstance t [] (m_config (NewSupervisor cfg))))"
  have s1: "gm_get (m_instances m1) (target_key t) = Some ?s1"
    using spec(3) [OF ok(1), of "target_key t"] d by (simp add: reconciled_def ok(2))
  have inv1: "manager_inv m1" by (rule Reconcile_inv [OF r0 assms(6,2,3)])
  then have live1: "live (m_cancelled m1) ?s1" and ok1: "gm_ok (m_instances m1)"
    using s1 by (auto simp: manager_inv_def)
  note spec2 = Reconcile_spec [OF assms(7,4,5) ok1]
  have "changed (inst_Target (sup_inst ?s1)) t"
    using assms(1) by (simp add: changed_def Start_loop_live)
  then obtain y where y: "stop_as how2 (target_key t) ?s1 = Some y"
    "gm_get (m_instances m2) (target_key t) = Some (Start_loop (m_cancelled m1) (set_target t y))"
    using spec2(3) [of "target_key t"] spec2(4) [OF d] d s1 by (auto simp: reconciled_def)
  note st = stop_as_Some [OF y(1) live1]
  have len: "length (sup_runs ?s1) = 1" by (simp add: Start_loop_def Let_def)
  have leny: "length (sup_runs y) = 1" using st(2) len by simp
  then obtain l where l: "sup_runs y = [l]" by (metis One_nat_def length_0_conv length_Suc_conv)
  show ?thesis
    using s1 y(2) st(1) len l by (simp add: Start_loop_live dead_def) (simp add: Start_loop_def Let_def)
qed

lemma Reconcile_cancelled:
  assumes "Reconcile ri rd how desired m = Some m'"
  shows "m_cancelled m' = m_cancelled m"
proof -
  from assms obtain m1 where m1: "fold_opt (remove_instance how (desired_map desired)) (ri (m_instances m)) m = Some m1"
    and m2: "fold_opt (update_instance how) (rd (desired_map desired)) m1 = Some m'"
    by (auto simp: Reconcile_def Let_def bind_eq_Some_conv)
  have "m_cancelled m1 = m_cancelled m"
    by (rule fold_opt_invariant [OF m1, of "\<lambda>x. m_cancelled x = m_cancelled m"])
      (auto simp: remove_instance_def split: if_splits)
  moreover have "m_cancelled m' = m_cancelled m1"
    by (rule fold_opt_invariant [OF m2, of "\<lambda>x. m_cancelled x = m_cancelled m1"])
      (auto simp: update_instance_alt)
  ultimately show ?thesis by simp
qed

lemma cancelled_stays: "manager_step m m' \<Longrightarrow> m_cancelled m \<Longrightarrow> m_cancelled m'"
  by (erule manager_step_cases) (auto simp: Reconcile_cancelled health_tick_def Shutdown_def)

lemma cancelled_no_live_run:
  assumes "manager_inv m" and "m_cancelled m"
  shows "\<forall>s \<in> snd ` set (m_instances m) \<union> set (m_removed m). list_all run_cancelled (sup_runs s)"
proof
  fix s
  assume s: "s \<in> snd ` set (m_instances m) \<union> set (m_removed m)"
  show "list_all run_cancelled (sup_runs s)"
  proof (cases "s \<in> set (m_removed m)")
    case True
    then show ?thesis using assms(1) by (simp add: manager_inv_def dead_def list_all_iff)
  next
    case False
    with s obtain i where "(i, s) \<in> set (m_instances m)" by auto
    then have "live True s"
      using assms by (auto simp: manager_inv_def intro: in_set_gm_get)
    then show ?thesis by (simp add: live_def list_all_last)
  qed
qed

text \<open>C13: After Shutdown every run of every instance there ever was is cancelled, and this stays so
  whatever happens afterwards: a late Reconcile may still create instances, but their runs are
  cancelled from the beginning, so all runs return within three steps of their own.\<close>

theorem Shutdown_is_final:
  assumes "manager_reachable cfg m" and "Shutdown ri how m = Some m1" and "is_range_order ri"
    and "manager_step\<^sup>*\<^sup>* m1 m'"
  shows "m_cancelled m' \<and> m_instances m1 = []
    \<and> (\<forall>s \<in> snd ` set (m_instances m') \<union> set (m_removed m'). list_all run_cancelled (sup_runs s))"
proof -
  have inv: "manager_inv m" by (rule manager_reachable_inv [OF assms(1)])
  note sd = Shutdown_inv [OF inv assms(2,3)]
  have "manager_inv m' \<and> m_cancelled m'"
    using assms(4)
    by (induction rule: rtranclp_induct) (use sd manager_step_inv cancelled_stays in blast)+
  then show ?thesis using cancelled_no_live_run [of m'] sd(3) by blast
qed

text \<open>The slots \<open>ScrapeAll\<close> fills do not depend on the order in which the scrapes complete: the
  result lists, for every instance in the order of the snapshot, its target and the outcome of its
  own scrape, and no slot is left unwritten.\<close>

lemma ScrapeAll_any_completion_order:
  assumes "mset completions = mset [0..<length (m_instances m)]" and "is_range_order ri"
  shows "ScrapeAll ri completions scrape m = map (\<lambda>inst. Some (scrape_result scrape inst)) (ListInstances ri m)"
proof -
  let ?is = "ListInstances ri m"
  have len: "length ?is = length (m_instances m)" using assms(2) by (simp add: ListInstances_def)
  have upd: "j < length rs \<Longrightarrow> fold (\<lambda>i rs. rs[i := Some (scrape_result scrape (?is ! i))]) cs rs ! j =
      (if j \<in> set cs then Some (scrape_result scrape (?is ! j)) else rs ! j)" for cs rs j
    by (induction cs arbitrary: rs) (auto simp: nth_list_update)
  have flen: "length (fold (\<lambda>i rs. rs[i := Some (scrape_result scrape (?is ! i))]) cs rs) = length rs" for cs rs
    by (induction cs arbitrary: rs) simp_all
  have "set completions = {0..<length ?is}"
    using assms(1) len by (metis atLeastLessThan_upt set_mset_mset)
  then show ?thesis
    by (intro nth_equalityI) (auto simp: ScrapeAll_def Let_def upd flen)
qed

text \<open>A lookup finds an instance by its key first, whatever the iteration order; without such
  a key it returns some instance whose target has the name; it finds nothing exactly when neither
  exists.\<close>

lemma GetInstance_finds:
  assumes "manager_inv m" and "is_range_order ri"
  shows "(GetInstance ri q m = None \<longleftrightarrow>
      q \<notin> gm_keys (m_instances m) \<and> q \<notin> (\<lambda>kv. Name (inst_Target (sup_inst (snd kv)))) ` set (m_instances m))
    \<and> (\<forall>s. gm_get (m_instances m) q = Some s \<longrightarrow> GetInstance ri q m = Some (sup_inst s))
    \<and> (\<forall>inst. GetInstance ri q m = Some inst \<longrightarrow>
        inst \<in> set (ListInstances ri m) \<and> (target_key (inst_Target inst) = q \<or> Name (inst_Target inst) = q))"
proof (cases "gm_get (m_instances m) q")
  case None
  then have "q \<notin> gm_keys (m_instances m)" by (simp add: gm_keys_get)
  let ?named = "\<lambda>kv. Name (inst_Target (sup_inst (snd kv))) = q"
  let ?found = "find ?named (ri (m_instances m))"
  have get: "GetInstance ri q m = map_option (\<lambda>kv. sup_inst (snd kv)) ?found"
    by (simp add: GetInstance_def None)
  have none: "?found = None \<longleftrightarrow> q \<notin> (\<lambda>kv. Name (inst_Target (sup_inst (snd kv)))) ` set (m_instances m)"
  proof -
    have "?found = None \<longleftrightarrow> (\<forall>kv \<in> set (m_instances m). \<not> ?named kv)"
      unfolding find_None_iff range_order_set [OF assms(2)] by blast
    then show ?thesis by blast
  qed
  have some: "sup_inst (snd kv) \<in> set (ListInstances ri m) \<and> Name (inst_Target (sup_inst (snd kv))) = q"
    if "?found = Some kv" for kv
    using find_Some_in [OF that] assms(2) by (simp add: ListInstances_def)
  show ?thesis
  proof (cases ?found)
    case no: None
    with none None \<open>q \<notin> gm_keys (m_instances m)\<close> get show ?thesis by simp
  next
    case yes: (Some kv)
    with some [OF yes] none None get show ?thesis by simp
  qed
next
  case (Some s)
  have "filed_under (m_config m) q (sup_inst s)"
    using assms(1) Some by (simp add: manager_inv_def)
  moreover have "(q, s) \<in> set (m_instances m)" using Some by (rule gm_get_in_set)
  ultimately show ?thesis
    using Some assms(2) by (force simp: GetInstance_def ListInstances_def filed_under_def image_iff)
qed

section \<open>The registry the server relies on\<close>

text \<open>
  What the HTTP handlers need of the manager: a snapshot of the instances, and a lookup that
  finds every listed instance under its key and nothing that is not listed.
\<close>

locale instance_registry =
  fixes valid :: "'r \<Rightarrow> bool"
    and snapshot :: "'r \<Rightarrow> 'i list"
    and lookup :: "'r \<Rightarrow> string \<Rightarrow> 'i option"
    and key :: "'i \<Rightarrow> string"
  assumes listed_found: "valid r \<Longrightarrow> i \<in> set (snapshot r) \<Longrightarrow> lookup r (key i) = Some i"
    and found_listed: "valid r \<Longrightarrow> lookup r q = Some i \<Longrightarrow> i \<in> set (snapshot r)"
    and keys_distinct: "valid r \<Longrightarrow> distinct (map key (snapshot r))"
begin

lemma key_inj: "valid r \<Longrightarrow> i \<in> set (snapshot r) \<Longrightarrow> j \<in> set (snapshot r) \<Longrightarrow> key i = key j \<Longrightarrow> i = j"
  using listed_found by (metis option.inject)

lemma lookup_snapshot: "valid r \<Longrightarrow> map (\<lambda>i. lookup r (key i)) (snapshot r) = map Some (snapshot r)"
  using listed_found by simp

lemma unknown_key: "valid r \<Longrightarrow> lookup r q = None \<Longrightarrow> q \<notin> key ` set (snapshot r)"
  using listed_found by force

lemma lookup_stable:
  assumes "valid r" and "valid r'" and "set (snapshot r') = set (snapshot r)" and "i \<in> set (snapshot r)"
  shows "lookup r' (key i) = Some i"
  using assms listed_found by simp

end

lemma entry_filed:
  assumes "manager_inv m" and "kv \<in> set (m_instances m)"
  shows "gm_get (m_instances m) (fst kv) = Some (snd kv)"
    and "target_key (inst_Target (sup_inst (snd kv))) = fst kv"
proof -
  show g: "gm_get (m_instances m) (fst kv) = Some (snd kv)"
    using assms by (simp add: manager_inv_def in_set_gm_get)
  then show "target_key (inst_Target (sup_inst (snd kv))) = fst kv"
    using assms(1) by (simp add: manager_inv_def filed_under_def)
qed

interpretation registry: instance_registry
  "\<lambda>(m, ri). manager_inv m \<and> is_range_order ri"
  "\<lambda>(m, ri). ListInstances ri m"
  "\<lambda>(m, ri) q. GetInstance ri q m"
  "\<lambda>inst. target_key (inst_Target inst)"
proof (unfold_locales, goal_cases)
  case (1 r i)
  then obtain m ri where r: "r = (m, ri)" "manager_inv m" "is_range_order ri" by (cases r) auto
  with 1(2) obtain kv where kv: "kv \<in> set (m_instances m)" "i = sup_inst (snd kv)"
    by (auto simp: ListInstances_def)
  from GetInstance_finds [OF r(2,3), of "fst kv"] entry_filed [OF r(2) kv(1)] kv(2) r(1)
  show ?case by simp
next
  case (2 r q i)
  then show ?case using GetInstance_finds by (cases r) auto
next
  case (3 r)
  then obtain m ri where r: "r = (m, ri)" "manager_inv m" "is_range_order ri" by (cases r) auto
  have "map (\<lambda>inst. target_key (inst_Target inst)) (ListInstances ri m) = map fst (ri (m_instances m))"
    using r(3) entry_filed(2) [OF r(2)] by (simp add: ListInstances_def)
  moreover have "gm_ok (ri (m_instances m))" using r(2,3) by (simp add: manager_inv_def)
  ultimately show ?case by (simp add: r(1) gm_ok_def)
qed

section \<open>A run of the manager\<close>

definition sample_vm :: Target where
  "sample_vm = \<lparr>ID = ''vm-1'', Name = ''gpu'', Endpoint = ''unix:///run/x'', Tenant = ''t1'', NetNS = [],
                Labels = Some [(''rack'', ''r7'')], CustomArgs = []\<rparr>"

lemma sample_vm_normal: "Endpoint (normalized_target sample_vm) = Endpoint sample_vm"
proof -
  have "strings_TrimSpace ''unix:///run/x'' = ''unix:///run/x''"
    by (rule TrimSpace_plain) (simp_all add: plain_byte_def unicode_spaces_def)
  then have "NormalizeEndpoint ''unix:///run/x'' 5555 = Inr ''unix:///run/x''"
    by (simp add: NormalizeEndpoint_def non_tcp_def strings_HasPrefix_def)
  then show ?thesis by (simp add: normalized_target_def sample_vm_def)
qed

lemma sample_manager:
  "\<exists>m. manager_reachable default_exporter m \<and> Reconcile (\<lambda>x. x) (\<lambda>x. x) all_time_out [sample_vm] (NewSupervisor default_exporter) = Some m
     \<and> gm_keys (m_instances m) = {''vm-1''} \<and> \<not> m_cancelled m"
proof -
  let ?m0 = "NewSupervisor default_exporter"
  obtain m where m: "Reconcile (\<lambda>x. x) (\<lambda>x. x) all_time_out [sample_vm] ?m0 = Some m"
    using Reconcile_total [OF range_order_id] by blast
  have "manager_step ?m0 m" by (rule reconcile [OF range_order_id range_order_id m])
  then have r: "manager_reachable default_exporter m" by (simp add: manager_reachable_def)
  have ok: "gm_ok (m_instances ?m0)" by (simp add: NewSupervisor_def)
  note spec = Reconcile_spec [OF m range_order_id range_order_id ok]
  have "gm_get (m_instances m) i \<noteq> None \<longleftrightarrow> i = ''vm-1''" for i
    using spec(3) [of i] spec(4) [of "''vm-1''" sample_vm]
    by (auto simp: desired_map_get target_key_def sample_vm_def split: if_splits)
  then have "gm_keys (m_instances m) = {''vm-1''}"
    by (intro set_eqI) (simp only: gm_keys_get singleton_iff)
  moreover have "\<not> m_cancelled m" using Reconcile_cancelled [OF m] by (simp add: NewSupervisor_def)
  ultimately show ?thesis using r m by blast
qed

theorem one_live_run_per_target_witness:
  "\<exists>m s. manager_reachable default_exporter m \<and> gm_get (m_instances m) ''vm-1'' = Some s
     \<and> length (filter (\<lambda>l. \<not> run_cancelled l) (sup_runs s)) = 1"
proof -
  obtain m where m: "manager_reachable default_exporter m" "gm_keys (m_instances m) = {''vm-1''}" "\<not> m_cancelled m"
    using sample_manager by blast
  then obtain s where s: "gm_get (m_instances m) ''vm-1'' = Some s"
    by (metis gm_keys_get insertI1 not_None_eq)
  from one_live_run_per_target [OF m(1) s] m s show ?thesis by auto
qed

theorem Reconcile_converges_witness:
  "\<exists>m. Reconcile (\<lambda>x. x) (\<lambda>x. x) all_time_out [sample_vm] (NewSupervisor default_exporter) = Some m
     \<and> gm_keys (m_instances m) = {''vm-1''}"
proof -
  have "manager_reachable default_exporter (NewSupervisor default_exporter)" by (simp add: manager_reachable_def)
  moreover obtain m where m: "Reconcile (\<lambda>x. x) (\<lambda>x. x) all_time_out [sample_vm] (NewSupervisor default_exporter) = Some m"
    using sample_manager by blast
  ultimately have "gm_keys (m_instances m) = target_key ` set [sample_vm]"
    using Reconcile_converges [of default_exporter _ "\<lambda>x. x" "\<lambda>x. x"] by blast
  with m show ?thesis by (simp add: target_key_def sample_vm_def)
qed

theorem Reconcile_restarts_changed_only_witness:
  "\<exists>m s. Reconcile (\<lambda>x. x) (\<lambda>x. x) all_time_out [sample_vm] (NewSupervisor default_exporter) = Some m
     \<and> gm_get (m_instances m) ''vm-1'' = Some s \<and> length (sup_runs s) = 1"
proof -
  have r: "manager_reachable default_exporter (NewSupervisor default_exporter)" by (simp add: manager_reachable_def)
  obtain m where m: "Reconcile (\<lambda>x. x) (\<lambda>x. x) all_time_out [sample_vm] (NewSupervisor default_exporter) = Some m"
    using sample_manager by blast
  have "find (\<lambda>t. target_key t = ''vm-1'') (rev [sample_vm]) = Some sample_vm"
    by (simp add: target_key_def sample_vm_def)
  from Reconcile_restarts_changed_only [OF r m range_order_id range_order_id this] m
  show ?thesis by (auto simp: NewSupervisor_def)
qed

theorem Reconcile_idempotent_witness:
  "\<exists>m m'. Reconcile (\<lambda>x. x) (\<lambda>x. x) all_time_out [sample_vm] (NewSupervisor default_exporter) = Some m
     \<and> Reconcile rev rev (\<lambda>_. ([], False)) [sample_vm] m = Some m' \<and> gm_get (m_instances m') = gm_get (m_instances m)"
proof -
  have r: "manager_reachable default_exporter (NewSupervisor default_exporter)" by (simp add: manager_reachable_def)
  obtain m where m: "Reconcile (\<lambda>x. x) (\<lambda>x. x) all_time_out [sample_vm] (NewSupervisor default_exporter) = Some m"
    using sample_manager by blast
  have "\<forall>t \<in> set [sample_vm]. Endpoint (normalized_target t) = Endpoint t" using sample_vm_normal by simp
  from Reconcile_idempotent [OF r m range_order_id range_order_id range_order_rev range_order_rev this] m
  show ?thesis by blast
qed

theorem unnormalized_endpoint_restarts_once_witness:
  "\<exists>m1 m2 s. Reconcile (\<lambda>x. x) (\<lambda>x. x) all_time_out [hostile_target] (NewSupervisor default_exporter) = Some m1
     \<and> Reconcile (\<lambda>x. x) (\<lambda>x. x) all_time_out [hostile_target] m1 = Some m2
     \<and> gm_get (m_instances m2) ''../x'' = Some s \<and> length (sup_runs s) = 2
     \<and> Endpoint (inst_Target (sup_inst s)) = ''10.0.0.5''"
proof -
  let ?t = hostile_target
  have n: "Endpoint (normalized_target ?t) \<noteq> Endpoint ?t"
  proof -
    have "NormalizeEndpoint ''10.0.0.5'' 5555 = Inr ''10.0.0.5:5555''"
      by (simp add: netutil_eval go_eval ip_eval hostport_eval)
    then show ?thesis by (simp add: normalized_target_def hostile_target_def)
  qed
  obtain m1 where m1: "Reconcile (\<lambda>x. x) (\<lambda>x. x) all_time_out [?t] (NewSupervisor default_exporter) = Some m1"
    using Reconcile_total [OF range_order_id] by blast
  obtain m2 where m2: "Reconcile (\<lambda>x. x) (\<lambda>x. x) all_time_out [?t] m1 = Some m2"
    using Reconcile_total [OF range_order_id] by blast
  from unnormalized_endpoint_restarts_once [OF n range_order_id range_order_id range_order_id range_order_id m1 m2] m1 m2
  show ?thesis by (auto simp: target_key_def hostile_target_def)
qed

theorem Shutdown_is_final_witness:
  "\<exists>m m1. manager_reachable default_exporter m \<and> gm_keys (m_instances m) = {''vm-1''}
     \<and> Shutdown (\<lambda>x. x) all_time_out m = Some m1 \<and> m_cancelled m1 \<and> m_instances m1 = []"
proof -
  obtain m where m: "manager_reachable default_exporter m" "gm_keys (m_instances m) = {''vm-1''}"
    using sample_manager by blast
  have "\<exists>ys. those (map (\<lambda>kv. stop_as all_time_out (fst kv) (cancel_all (snd kv))) xs) = Some ys" for xs
  proof (induction xs)
    case (Cons x xs)
    obtain s where "stop_as all_time_out (fst x) (cancel_all (snd x)) = Some s" using stop_as_timeout by blast
    with Cons show ?case by auto
  qed simp
  then obtain ys where "those (map (\<lambda>kv. stop_as all_time_out (fst kv) (cancel_all (snd kv))) (m_instances m)) = Some ys"
    by blast
  then obtain m1 where m1: "Shutdown (\<lambda>x. x) all_time_out m = Some m1"
    by (simp add: Shutdown_def)
  from Shutdown_is_final [OF m(1) m1 range_order_id rtranclp.rtrancl_refl] m m1 show ?thesis by blast
qed

end
