(* ===== verification/Relabel.thy ===== *)
theory Relabel
  imports GoStrings
begin

text \<open>
  Package \<open>internal/pkg/proxy\<close> (\<open>relabel.go\<close>): rewriting the Prometheus exposition text of a
  child exporter so that every sample carries the labels of its target.
\<close>

section \<open>Label pairs\<close>

definition escapeLabelValue :: "string \<Rightarrow> string" where
  "escapeLabelValue s =
     (let s = strings_ReplaceAll s [CHR 0x5C] [CHR 0x5C, CHR 0x5C];
          s = strings_ReplaceAll s [CHR 0x22] [CHR 0x5C, CHR 0x22];
          s = strings_ReplaceAll s [CHR 0x0A] [CHR 0x5C, CHR ''n'']
      in s)"

text \<open>
  \<open>formatExtraLabels\<close> collects the keys by ranging over the map, sorts them, and writes the
  pairs in that order.
\<close>

definition sorted_keys :: "(string, string) range_order \<Rightarrow> (string, string) gomap \<Rightarrow> string list" where
  "sorted_keys rng labels = sort_Strings (map fst (rng labels))"

definition format_pair :: "(string, string) gomap \<Rightarrow> string \<Rightarrow> string" where
  "format_pair labels k =
     k @ [CHR ''='', CHR 0x22] @ escapeLabelValue (gm_str labels k) @ [CHR 0x22]"

fun format_pairs :: "(string, string) gomap \<Rightarrow> nat \<Rightarrow> string list \<Rightarrow> string" where
  "format_pairs labels i [] = []"
| "format_pairs labels i (k # ks) =
     (if 0 < i then '','' else []) @ format_pair labels k @ format_pairs labels (Suc i) ks"

definition formatExtraLabels ::
  "(string, string) range_order \<Rightarrow> (string, string) gomap \<Rightarrow> string" where
  "formatExtraLabels rng labels =
     (if length labels = 0 then [] else format_pairs labels 0 (sorted_keys rng labels))"

section \<open>Injection\<close>

text \<open>One iteration of the loop over the lines: what it writes to \<open>out\<close>.\<close>

definition inject_line :: "string \<Rightarrow> string \<Rightarrow> string" where
  "inject_line formattedExtra line =
     (let trimmed = strings_TrimSpace line
      in if length trimmed = 0 \<or> strings_HasPrefix trimmed ''#'' then line @ [newline]
         else
           (case strings_IndexByte trimmed (CHR ''{'') of
              Some braceOpen \<Rightarrow>
                (case strings_LastIndexByte trimmed (CHR ''}'') of
                   None \<Rightarrow> line @ [newline]
                 | Some braceClose \<Rightarrow>
                     (if braceClose < braceOpen then line @ [newline]
                      else
                        (let metricName = take braceOpen trimmed;
                             existingLabels = take (braceClose - (braceOpen + 1)) (drop (braceOpen + 1) trimmed);
                             rest = drop (braceClose + 1) trimmed
                         in metricName @ ''{''
                            @ (if 0 < length existingLabels then existingLabels @ '','' else [])
                            @ formattedExtra @ ''}'' @ rest @ [newline])))
            | None \<Rightarrow>
                (case strings_IndexAny trimmed [CHR 0x20, CHR 0x09] of
                   None \<Rightarrow> line @ [newline]
                 | Some spaceIdx \<Rightarrow>
                     (let metricName = take spaceIdx trimmed; rest = drop spaceIdx trimmed
                      in metricName @ ''{'' @ formattedExtra @ ''}'' @ rest @ [newline]))))"

datatype relabel_error = ScanError

definition InjectLabels ::
  "(string, string) range_order \<Rightarrow> string \<Rightarrow> (string, string) gomap \<Rightarrow> relabel_error + string" where
  "InjectLabels rng rawMetrics extraLabels =
     (if length extraLabels = 0 then Inr rawMetrics
      else
        (let formattedExtra = formatExtraLabels rng extraLabels
         in case scan_lines rawMetrics of
              (lines, ok) \<Rightarrow>
                (if \<not> ok then Inl ScanError
                 else Inr (concat (map (inject_line formattedExtra) lines)))))"

section \<open>Reading label values back\<close>

text \<open>
  The reference reader of the exposition format: a label value up to its closing quote, with
  the escapes \<open>\\\<close>, \<open>\"\<close> and \<open>\n\<close>, and a comma separated list of pairs.
\<close>

fun read_value :: "string \<Rightarrow> (string \<times> string) option" where
  "read_value [] = None"
| "read_value (c # cs) =
     (if c = CHR 0x22 then Some ([], cs)
      else if c = newline then None
      else if c = CHR 0x5C then
        (case cs of
           [] \<Rightarrow> None
         | d # ds \<Rightarrow>
             (if d = CHR 0x5C \<or> d = CHR 0x22 then map_option (apfst ((#) d)) (read_value ds)
              else if d = CHR ''n'' then map_option (apfst ((#) newline)) (read_value ds)
              else None))
      else map_option (apfst ((#) c)) (read_value cs))"

lemma read_value_shorter: "read_value s = Some (v, r) \<Longrightarrow> length r < length s"
  by (induction s arbitrary: v r rule: read_value.induct)
    (fastforce split: if_splits list.splits)+

text \<open>One pair \<open>key="value"\<close> at the start of a string, and the text after it.\<close>

definition read_pair :: "string \<Rightarrow> ((string \<times> string) \<times> string) option" where
  "read_pair s =
     (case strings_IndexByte s (CHR ''='') of
        None \<Rightarrow> None
      | Some i \<Rightarrow>
          (if strings_HasPrefix (drop (Suc i) s) [CHR 0x22]
           then map_option (\<lambda>(v, r). ((take i s, v), r)) (read_value (drop (i + 2) s))
           else None))"

lemma read_pair_shorter: "read_pair s = Some (p, r) \<Longrightarrow> length r < length s"
  by (auto simp: read_pair_def split: option.splits if_splits dest!: read_value_shorter)

function read_pairs :: "string \<Rightarrow> (string \<times> string) list option" where
  "read_pairs s =
     (case read_pair s of
        None \<Rightarrow> None
      | Some (p, r) \<Rightarrow>
          (if r = [] then Some [p]
           else if hd r = CHR '','' then map_option ((#) p) (read_pairs (tl r))
           else None))"
  by pat_completeness auto
termination
  by (relation "measure length") (auto dest: read_pair_shorter)

declare read_pairs.simps [simp del]

definition escape_char :: "char \<Rightarrow> string" where
  "escape_char c =
     (if c = CHR 0x5C then [CHR 0x5C, CHR 0x5C]
      else if c = CHR 0x22 then [CHR 0x5C, CHR 0x22]
      else if c = newline then [CHR 0x5C, CHR ''n''] else [c])"

lemma escapeLabelValue_chars: "escapeLabelValue s = concat (map escape_char s)"
  by (induction s) (auto simp: escapeLabelValue_def ReplaceAll_byte escape_char_def newline_def)

lemma escape_no_newline: "newline \<notin> set (escapeLabelValue s)"
  by (auto simp: escapeLabelValue_chars escape_char_def newline_def)

lemma read_escaped: "read_value (escapeLabelValue v @ CHR 0x22 # r) = Some (v, r)"
  by (induction v) (auto simp: escapeLabelValue_chars escape_char_def newline_def)

lemma read_format_pair:
  assumes "CHR ''='' \<notin> set k"
  shows "read_pair (format_pair m k @ r) = Some ((k, gm_str m k), r)"
proof -
  have "strings_IndexByte (format_pair m k @ r) (CHR ''='') = Some (length k)"
    using assms by (simp add: format_pair_def IndexByte_append)
  then show ?thesis by (simp add: read_pair_def format_pair_def read_escaped)
qed

lemma format_pairs_read:
  assumes "\<forall>k \<in> set ks. CHR ''='' \<notin> set k" and "ks \<noteq> []"
  shows "read_pairs (format_pairs m 0 ks) = Some (map (\<lambda>k. (k, gm_str m k)) ks)"
proof -
  have later: "format_pairs m (Suc i) js = (if js = [] then [] else CHR '','' # format_pairs m 0 js)" for i js
  proof (induction js arbitrary: i)
    case (Cons j js)
    show ?case using Cons.IH [of "Suc i"] Cons.IH [of 0] by simp
  qed simp
  show ?thesis
    using assms
  proof (induction ks)
    case (Cons k ks)
    then show ?case
      by (cases "ks = []") (simp_all add: later read_pairs.simps [of "format_pair m k @ x" for x]
          read_pairs.simps [of "format_pair m k"] read_format_pair read_format_pair [of k m "[]", simplified])
  qed simp
qed

lemma sorted_keys_set: "is_range_order rng \<Longrightarrow> set (sorted_keys rng m) = gm_keys m"
  by (simp add: sorted_keys_def sort_Strings_def)

lemma sorted_keys_distinct: "is_range_order rng \<Longrightarrow> gm_ok m \<Longrightarrow> distinct (sorted_keys rng m)"
  using range_order_ok [of rng m] by (simp add: sorted_keys_def sort_Strings_def gm_ok_def)

lemma sorted_keys_sorted: "sorted (sorted_keys rng m)"
  by (simp add: sorted_keys_def sort_Strings_def)

lemma sorted_keys_cong:
  assumes "is_range_order r" "is_range_order r'" "gm_ok m" "gm_ok m'" "gm_get m = gm_get m'"
  shows "sorted_keys r m = sorted_keys r' m'"
proof (rule sorted_distinct_set_unique)
  show "set (sorted_keys r m) = set (sorted_keys r' m')"
    using assms by (metis sorted_keys_set dom_gm_get)
qed (use assms in \<open>simp_all add: sorted_keys_sorted sorted_keys_distinct\<close>)

lemma format_pairs_cong:
  "gm_get m = gm_get m' \<Longrightarrow> format_pairs m i ks = format_pairs m' i ks"
  by (induction ks arbitrary: i) (simp_all add: format_pair_def gm_str_def)

text \<open>the label text is deterministic. Whatever order Go's runtime visits the map in, and
  however the map was built, \<open>formatExtraLabels\<close> returns the same string for the same labels.\<close>

theorem formatExtraLabels_deterministic:
  assumes "is_range_order r" "is_range_order r'" "gm_ok m" "gm_ok m'" "gm_get m = gm_get m'"
  shows "formatExtraLabels r m = formatExtraLabels r' m'"
proof -
  have "m = [] \<longleftrightarrow> m' = []"
    using assms(5) by (metis dom_gm_get image_is_empty set_empty2)
  then show ?thesis
    using assms sorted_keys_cong [OF assms] format_pairs_cong [OF assms(5)]
    by (simp add: formatExtraLabels_def)
qed

lemma formatExtraLabels_deterministic_witness:
  "formatExtraLabels (\<lambda>m. m) [(''zone'', ''us''), (''vm_name'', ''a'')]
     = formatExtraLabels rev [(''vm_name'', ''a''), (''zone'', ''us'')]"
  by (rule formatExtraLabels_deterministic) (auto simp: fun_eq_iff)



section \<open>The exposition format\<close>

text \<open>
  The abstract content of an exposition text: lines that are passed through (comments and blank
  lines) and samples with a metric name, an optional label text and the value part, which holds
  the value and the optional timestamp.
\<close>

datatype exposition_line =
    Passthrough string
  | Sample string "string option" string

fun render :: "exposition_line \<Rightarrow> string" where
  "render (Passthrough l) = l"
| "render (Sample name None v) = name @ v"
| "render (Sample name (Some ls) v) = name @ ''{'' @ ls @ ''}'' @ v"

fun add_labels :: "string \<Rightarrow> exposition_line \<Rightarrow> exposition_line" where
  "add_labels ex (Passthrough l) = Passthrough l"
| "add_labels ex (Sample name None v) = Sample name (Some ex) v"
| "add_labels ex (Sample name (Some ls) v) =
     Sample name (Some (if ls = [] then ex else ls @ '','' @ ex)) v"

definition name_ok :: "string \<Rightarrow> bool" where
  "name_ok name =
     (name \<noteq> [] \<and> list_all (\<lambda>c. plain_byte c \<and> c \<notin> set ''{}'') name \<and> hd name \<noteq> CHR ''#'')"

fun line_ok :: "exposition_line \<Rightarrow> bool" where
  "line_ok (Passthrough l) = (strings_TrimSpace l = [] \<or> strings_HasPrefix (strings_TrimSpace l) ''#'')"
| "line_ok (Sample name None v) =
     (name_ok name \<and> v \<noteq> [] \<and> hd v \<in> {CHR 0x20, CHR 0x09} \<and> plain_byte (last v)
      \<and> CHR ''{'' \<notin> set v)"
| "line_ok (Sample name (Some ls) v) =
     (name_ok name \<and> v \<noteq> [] \<and> plain_byte (last v) \<and> CHR ''}'' \<notin> set v)"

text \<open>What the scanner needs of a line: no newline, no trailing carriage return, not too long.\<close>

definition scan_ok :: "string \<Rightarrow> bool" where
  "scan_ok l =
     (newline \<notin> set l \<and> length l < MaxScanTokenSize \<and> (l = [] \<or> last l \<noteq> CHR 0x0D))"

lemma dropCR_id: "scan_ok l \<Longrightarrow> dropCR l = l"
  by (auto simp: scan_ok_def dropCR_def)

lemma plain_space: "\<not> plain_byte (CHR 0x20)" "\<not> plain_byte (CHR 0x09)"
  by (simp_all add: plain_byte_def unicode_spaces_def)

lemma name_ok_facts:
  assumes "name_ok name"
  shows "name \<noteq> []" and "plain_byte (hd name)" and "hd name \<noteq> CHR ''#''"
    and "CHR ''{'' \<notin> set name" and "CHR ''}'' \<notin> set name"
    and "set name \<inter> set [CHR 0x20, CHR 0x09] = {}"
  using assms plain_space by (auto simp: name_ok_def list_all_iff hd_in_set)

lemma sample_trim:
  assumes "name_ok name" and "plain_byte (last (name @ x))"
  shows "strings_TrimSpace (name @ x) = name @ x"
    and "\<not> strings_HasPrefix (name @ x) ''#''"
  using name_ok_facts [OF assms(1)] assms(2)
  by (auto simp: TrimSpace_plain) (cases name; simp)

lemma inject_sample_plain:
  assumes "line_ok (Sample name None v)"
  shows "inject_line ex (name @ v) = name @ ''{'' @ ex @ ''}'' @ v @ [newline]"
proof -
  have n: "name_ok name" and v: "v \<noteq> []" "hd v \<in> set [CHR 0x20, CHR 0x09]" "plain_byte (last (name @ v))"
    "CHR ''{'' \<notin> set v"
    using assms by auto
  then obtain c w where w: "v = c # w" "c \<in> set [CHR 0x20, CHR 0x09]" by (cases v) auto
  have "strings_IndexAny (name @ v) [CHR 0x20, CHR 0x09] = Some (length name)"
    unfolding w using name_ok_facts(6) [OF n] w(2) by (rule IndexAny_append)
  moreover have "strings_IndexByte (name @ v) (CHR ''{'') = None"
    using v name_ok_facts [OF n] by simp
  ultimately show ?thesis
    using sample_trim [OF n v(3)] name_ok_facts(1) [OF n] by (simp add: inject_line_def Let_def)
qed

lemma inject_sample_labels:
  assumes "line_ok (Sample name (Some ls) v)"
  shows "inject_line ex (name @ ''{'' @ ls @ ''}'' @ v)
     = name @ ''{'' @ (if ls = [] then ex else ls @ '','' @ ex) @ ''}'' @ v @ [newline]"
proof -
  let ?l = "name @ ''{'' @ ls @ ''}'' @ v"
  have n: "name_ok name" and v: "plain_byte (last ?l)" "CHR ''}'' \<notin> set v"
    using assms by auto
  have open_at: "strings_IndexByte ?l (CHR ''{'') = Some (length name)"
    using name_ok_facts(4) [OF n] by (simp add: IndexByte_append)
  have close_at: "strings_LastIndexByte ?l (CHR ''}'') = Some (length name + 1 + length ls)"
    using LastIndexByte_append [OF v(2), of "name @ ''{'' @ ls"] by simp
  show ?thesis
    using sample_trim [OF n v(1)] name_ok_facts(1) [OF n]
    unfolding inject_line_def Let_def open_at close_at
    by (simp add: open_at [simplified] close_at [simplified])
qed

lemma inject_line_refines:
  assumes "line_ok x"
  shows "inject_line ex (render x) = render (add_labels ex x) @ [newline]"
  using assms
proof (cases x)
  case (Passthrough l)
  with assms show ?thesis by (auto simp: inject_line_def Let_def)
next
  case (Sample name ls v)
  with assms show ?thesis
    using inject_sample_plain [of name v ex] inject_sample_labels [of name "the ls" v ex]
    by (cases ls) simp_all
qed

section \<open>Reading extended label texts\<close>

lemma IndexByte_append_left: "strings_IndexByte s c = Some i \<Longrightarrow> strings_IndexByte (s @ t) c = Some i"
  by (induction s arbitrary: i) (auto split: if_splits)

lemma read_value_append: "read_value s = Some (v, r) \<Longrightarrow> read_value (s @ t) = Some (v, r @ t)"
  by (induction s arbitrary: v r rule: read_value.induct)
    (fastforce split: if_splits list.splits)+

lemma read_pair_append: "read_pair s = Some (p, r) \<Longrightarrow> read_pair (s @ t) = Some (p, r @ t)"
proof -
  assume "read_pair s = Some (p, r)"
  then obtain i v where i: "strings_IndexByte s (CHR ''='') = Some i"
    and q: "strings_HasPrefix (drop (Suc i) s) [CHR 0x22]"
    and v: "read_value (drop (i + 2) s) = Some (v, r)" and p: "p = (take i s, v)"
    by (auto simp: read_pair_def split: option.splits if_splits)
  obtain u where u: "drop (Suc i) s = CHR 0x22 # u" using q by (auto simp: HasPrefix_iff)
  then have l: "Suc i < length s" by (metis drop_eq_Nil list.distinct(1) not_le)
  then have "drop (Suc i) (s @ t) = drop (Suc i) s @ t" "take i (s @ t) = take i s"
    "drop (i + 2) (s @ t) = drop (i + 2) s @ t"
    by simp_all
  then show ?thesis
    using p u read_value_append [OF v] IndexByte_append_left [OF i]
    by (simp add: read_pair_def)
qed

lemma read_pairs_append:
  "read_pairs s = Some ps \<Longrightarrow> read_pairs t = Some qs \<Longrightarrow> read_pairs (s @ CHR '','' # t) = Some (ps @ qs)"
proof (induction s arbitrary: ps rule: read_pairs.induct)
  case (1 s)
  then obtain p r where pr: "read_pair s = Some (p, r)"
    by (auto simp: read_pairs.simps [of s] split: option.splits)
  note pr' = read_pair_append [OF pr, of "CHR '','' # t"]
  show ?case
  proof (cases "r = []")
    case True
    then have "ps = [p]" using 1 pr by (simp add: read_pairs.simps [of s])
    with True pr' 1 show ?thesis by (simp add: read_pairs.simps [of "s @ CHR '','' # t"])
  next
    case False
    then obtain ps' where r: "hd r = CHR '',''" and ps': "read_pairs (tl r) = Some ps'" "ps = p # ps'"
      using 1 pr by (auto simp: read_pairs.simps [of s] split: if_splits)
    from "1.IH" [OF pr refl False r ps'(1) "1.prems"(2)] False r ps'(2) pr' show ?thesis
      by (simp add: read_pairs.simps [of "s @ CHR '','' # t"])
  qed
qed

section \<open>Properties of the injection\<close>

text \<open>C8: on exposition text, \<open>InjectLabels\<close> is exactly the abstract operation that adds the label
  text to every sample: comments and blank lines come back byte for byte, in order, and each
  sample keeps its name, its own labels, its value and its timestamp.\<close>

theorem InjectLabels_refines:
  assumes "\<forall>x \<in> set ls. line_ok x \<and> scan_ok (render x)" and "m \<noteq> []"
  shows "InjectLabels rng (unlines (map render ls)) m
    = Inr (unlines (map render (map (add_labels (formatExtraLabels rng m)) ls)))"
proof -
  have "scan_lines (unlines (map render ls) @ []) = (map dropCR (map render ls) @ [], True)"
    using assms(1) by (subst scan_lines_unlines) (auto simp: scan_ok_def)
  moreover have "map dropCR (map render ls) = map render ls"
    using assms(1) by (auto simp: dropCR_id)
  ultimately have scan: "scan_lines (unlines (map render ls)) = (map render ls, True)" by simp
  have "map (inject_line ex) (map render ls) = map (\<lambda>l. l @ [newline]) (map render (map (add_labels ex) ls))" for ex
    using assms(1) by (simp add: inject_line_refines)
  then have "concat (map (inject_line ex) (map render ls)) = unlines (map render (map (add_labels ex) ls))" for ex
    by (simp only: unlines_def)
  then show ?thesis
    using assms(2) by (simp add: InjectLabels_def scan Let_def)
qed

lemma InjectLabels_refines_witness:
  "InjectLabels (\<lambda>m. m) (unlines (map render [Passthrough ''# HELP A a'', Sample ''A'' (Some ''gpu=0'') '' 139'',
       Passthrough [], Sample ''B'' None '' 30 1609459200000'']))
     [(''vm'', ''x'')]
   = Inr (unlines (map render (map (add_labels (formatExtraLabels (\<lambda>m. m) [(''vm'', ''x'')]))
       [Passthrough ''# HELP A a'', Sample ''A'' (Some ''gpu=0'') '' 139'',
        Passthrough [], Sample ''B'' None '' 30 1609459200000''])))"
  by (rule InjectLabels_refines)
    (simp_all add: name_ok_def scan_ok_def plain_byte_def space_eval strings_HasPrefix_def
      strings_HasSuffix_def newline_def MaxScanTokenSize_def)



lemma Split_takeWhile:
  "strings_Split s c = takeWhile (\<lambda>x. x \<noteq> c) s #
     (case dropWhile (\<lambda>x. x \<noteq> c) s of [] \<Rightarrow> [] | _ # r \<Rightarrow> strings_Split r c)"
  by (induction s) auto

lemma scan_lines_ok_iff:
  "snd (scan_lines s) \<longleftrightarrow> (\<forall>l \<in> set (strings_Split s newline). length l < MaxScanTokenSize)"
proof (induction s rule: scan_lines.induct)
  case (1 s)
  let ?l = "takeWhile (\<lambda>c. c \<noteq> newline) s" and ?r = "dropWhile (\<lambda>c. c \<noteq> newline) s"
  show ?case
  proof (cases "s = [] \<or> MaxScanTokenSize \<le> length ?l")
    case True
    then show ?thesis
      by (auto simp: scan_lines.simps [of s] Split_takeWhile [of s] newline_def MaxScanTokenSize_def Let_def)
  next
    case False
    have d: "drop (Suc (length ?l)) s = tl ?r"
      by (metis drop_Suc drop_eq_Nil dropWhile_eq_drop tl_drop)
    have IH: "snd (scan_lines (tl ?r)) \<longleftrightarrow> (\<forall>l \<in> set (strings_Split (tl ?r) newline). length l < MaxScanTokenSize)"
      using "1.IH" [OF _ refl refl] False d by (auto simp: newline_def)
    have "snd (scan_lines s) = snd (scan_lines (tl ?r))"
      using False d by (simp add: scan_lines.simps [of s] newline_def Let_def case_prod_beta)
    also have "\<dots> \<longleftrightarrow> (\<forall>l \<in> set (strings_Split s newline). length l < MaxScanTokenSize)"
    proof (cases ?r)
      case Nil
      have "strings_Split s newline = [?l]"
        by (subst Split_takeWhile) (simp only: Nil list.case)
      with Nil False show ?thesis by (simp only: Nil list.sel scan_lines_Nil) simp
    next
      case (Cons c r)
      have "strings_Split s newline = ?l # strings_Split r newline"
        by (subst Split_takeWhile) (simp only: Cons list.case)
      with Cons False IH show ?thesis by (simp only: Cons list.sel) simp
    qed
    finally show ?thesis .
  qed
qed

text \<open>C27: injection fails on exactly one kind of input: there are labels to inject and some line of
  the exposition text has 65536 bytes or more before its newline.\<close>

theorem InjectLabels_error_iff:
  "InjectLabels rng rawMetrics extraLabels = Inl ScanError \<longleftrightarrow>
     extraLabels \<noteq> [] \<and> (\<exists>l \<in> set (strings_Split rawMetrics newline). MaxScanTokenSize \<le> length l)"
proof -
  have "InjectLabels rng rawMetrics extraLabels = Inl ScanError \<longleftrightarrow>
      extraLabels \<noteq> [] \<and> \<not> snd (scan_lines rawMetrics)"
    by (simp add: InjectLabels_def Let_def case_prod_beta)
  also have "\<dots> \<longleftrightarrow> extraLabels \<noteq> [] \<and>
      (\<exists>l \<in> set (strings_Split rawMetrics newline). MaxScanTokenSize \<le> length l)"
    by (auto simp: scan_lines_ok_iff not_less)
  finally show ?thesis .
qed

section \<open>Evaluation\<close>

lemmas relabel_eval =
  escapeLabelValue_def sorted_keys_def sort_Strings_def format_pair_def format_pairs.simps
  formatExtraLabels_def inject_line_def InjectLabels_def gm_str_def

declare relabel_eval [go_eval]

end
