(* ===== verification/GoJson.thy ===== *)
theory GoJson
  imports Main
begin

text \<open>
  JSON documents as values, before \<open>encoding/json\<close> turns them into text. The fields of an object are
  in the order in which the code fills them.
\<close>

datatype json =
  JString string | JNumber int | JList "json list" | JObject "(string \<times> json) list"

end
