(* ===== verification/Server.thy ===== *)
theory Server
  imports Supervisor Relabel GoJson
begin

text \<open>
  Package \<open>internal/pkg/server\<close> (\<open>server.go\<close>): the HTTP handlers over the supervisor manager. A
  handler is a function of the manager's state to a response. JSON documents are values of the
  type \<open>json\<close> before they are encoded, their objects filled in the order of the code. Routing by
  method and path is done by \<open>gorilla/mux\<close> (not part of the repository): \<open>routes\<close> is the table it
  is given. The text the \<open>fmt\<close> verbs \<open>%q\<close> and \<open>%v\<close> make of a string or an error, and the text of the
  elapsed time, are arguments.
\<close>

section \<open>Server and routes\<close>

datatype handler = Root | Metrics | Targets | Probe | Health

record Server =
  srv_cfg :: Config
  srv_Addr :: string
  srv_ReadTimeout :: int
  srv_WriteTimeout :: int
  srv_WebListenAddresses :: "string list"
  srv_WebConfigFile :: string
  srv_routes :: "(string \<times> string \<times> handler) list"

definition setupRoutes :: "(string \<times> string \<times> handler) list" where
  "setupRoutes =
     [(''GET'', ''/'', Root), (''GET'', ''/metrics'', Metrics), (''GET'', ''/targets'', Targets),
      (''GET'', ''/probe'', Probe), (''GET'', ''/health'', Health)]"

definition NewServer :: "Config \<Rightarrow> Server" where
  "NewServer cfg =
     (let readTimeout = (if cfg_WebReadTimeout cfg \<le> 0 then DefaultWebReadTimeout else cfg_WebReadTimeout cfg);
          writeTimeout = (if cfg_WebWriteTimeout cfg \<le> 0 then DefaultWebWriteTimeout else cfg_WebWriteTimeout cfg)
      in \<lparr>srv_cfg = cfg, srv_Addr = cfg_Address cfg, srv_ReadTimeout = readTimeout,
          srv_WriteTimeout = writeTimeout, srv_WebListenAddresses = [cfg_Address cfg],
          srv_WebConfigFile = cfg_WebConfigFile cfg, srv_routes = setupRoutes\<rparr>)"

section \<open>Responses\<close>

datatype body = Text string | Json json

record Response =
  status :: int
  headers :: "(string, string) gomap"
  content :: body

definition prometheusTextContentType :: string where
  "prometheusTextContentType = ''text/plain; version=0.0.4; charset=utf-8''"

text \<open>\<open>http.Error\<close>.\<close>

definition http_Error :: "string \<Rightarrow> int \<Rightarrow> Response" where
  "http_Error msg code =
     \<lparr>status = code,
      headers = [(''Content-Type'', ''text/plain; charset=utf-8''), (''X-Content-Type-Options'', ''nosniff'')],
      content = Text (msg @ [newline])\<rparr>"

section \<open>The root page\<close>

definition root_page :: "string list" where
  "root_page =
     [''<!DOCTYPE html>'', ''<html>'', ''<head><title>DCGM Exporter Supervisor</title></head>'', ''<body>'',
      ''<h1>DCGM Exporter Supervisor</h1>'', ''<ul>'',
      ''  <li><a href=\"/metrics\">Metrics (Aggregated)</a></li>'',
      ''  <li><a href=\"/targets\">Prometheus HTTP Service Discovery (/targets)</a></li>'',
      ''  <li><a href=\"/probe?target=example\">Probe (/probe?target=&lt;name&gt;)</a></li>'',
      ''  <li><a href=\"/health\">Health Status</a></li>'', ''</ul>'', ''</body>'']"

definition handleRoot :: Response where
  "handleRoot =
     \<lparr>status = 200,
      headers = [(''X-Content-Type-Options'', ''nosniff''), (''Content-Type'', ''text/html; charset=utf-8'')],
      content = Text (concat (map (\<lambda>line. line @ [newline]) root_page) @ ''</html>'')\<rparr>"

section \<open>Metrics\<close>

text \<open>
  How long a handler lets a scrape take: the context expires one second before the configured
  write timeout. \<open>scrape d inst\<close> is the scrape of an instance under a context that expires after
  \<open>d\<close> nanoseconds.
\<close>

definition scrape_deadline :: "Server \<Rightarrow> int" where
  "scrape_deadline s = cfg_WebWriteTimeout (srv_cfg s) - 1 * time_Second"

type_synonym scraper = "int \<Rightarrow> Instance \<Rightarrow> http_error + string"

text \<open>The copying loop over the labels of a target, in an order of the runtime's choice.\<close>

definition copy_labels :: "(string, string) range_order \<Rightarrow> Target \<Rightarrow> (string, string) gomap" where
  "copy_labels rl t = gm_copy_into (rl (label_map t)) []"

definition metrics_labels :: "(string, string) range_order \<Rightarrow> Target \<Rightarrow> (string, string) gomap" where
  "metrics_labels rl t =
     (let labels = copy_labels rl t;
          labels = (if gm_get labels ''vm_name'' = None then gm_put ''vm_name'' (Name t) labels else labels)
      in gm_put ''target_id'' (ID t) labels)"

record aggregate =
  agg_buf :: string
  agg_up :: int
  agg_errors :: int

definition aggregate_result ::
  "(string, string) range_order \<Rightarrow> ScrapeResult \<Rightarrow> aggregate \<Rightarrow> aggregate" where
  "aggregate_result rl res a =
     (case res_Data res of
        Inl _ \<Rightarrow> a\<lparr>agg_errors := agg_errors a + 1\<rparr>
      | Inr data \<Rightarrow>
          (case InjectLabels rl data (metrics_labels rl (res_Target res)) of
             Inl _ \<Rightarrow> a\<lparr>agg_errors := agg_errors a + 1\<rparr>
           | Inr enriched \<Rightarrow>
               a\<lparr>agg_up := agg_up a + 1, agg_buf := agg_buf a @ enriched @ [newline]\<rparr>))"

definition gauge_lines :: "string \<Rightarrow> string \<Rightarrow> string \<Rightarrow> string \<Rightarrow> string" where
  "gauge_lines name help kind v =
     ''# HELP '' @ name @ '' '' @ help @ [newline] @ ''# TYPE '' @ name @ '' '' @ kind @ [newline]
     @ name @ '' '' @ v @ [newline]"

definition self_metrics :: "string \<Rightarrow> int \<Rightarrow> int \<Rightarrow> int \<Rightarrow> string" where
  "self_metrics elapsed targets_total up errors =
     gauge_lines ''dcgm_supervisor_targets_total'' ''Total number of supervised targets'' ''gauge''
       (strconv_Itoa targets_total)
     @ gauge_lines ''dcgm_supervisor_targets_up'' ''Number of successfully scraped targets'' ''gauge''
       (strconv_Itoa up)
     @ gauge_lines ''dcgm_supervisor_scrape_duration_seconds'' ''Time taken to aggregate all target scrapes''
       ''gauge'' elapsed
     @ gauge_lines ''dcgm_supervisor_scrape_errors_total'' ''Total number of target scrape failures''
       ''counter'' (strconv_Itoa errors)"

definition aggregate_all :: "(string, string) range_order \<Rightarrow> ScrapeResult list \<Rightarrow> aggregate" where
  "aggregate_all rl results =
     fold (aggregate_result rl) results \<lparr>agg_buf = [], agg_up = 0, agg_errors = 0\<rparr>"

text \<open>A slot of the result slice that was never written would be left out here; there is none.\<close>

definition handleMetrics ::
  "Server \<Rightarrow> (string, supervised) range_order \<Rightarrow> (string, string) range_order \<Rightarrow> nat list
    \<Rightarrow> scraper \<Rightarrow> string \<Rightarrow> Manager \<Rightarrow> Response" where
  "handleMetrics s ri rl completions scrape elapsed m =
     (let results = List.map_filter (\<lambda>r. r) (ScrapeAll ri completions (scrape (scrape_deadline s)) m);
          a = aggregate_all rl results
      in \<lparr>status = 200, headers = [(''Content-Type'', prometheusTextContentType)],
          content = Text (agg_buf a @ self_metrics elapsed (int (length results)) (agg_up a) (agg_errors a))\<rparr>)"

section \<open>Service discovery\<close>

record HTTPSDTarget =
  sd_Targets :: "string list"
  sd_Labels :: "(string, string) gomap"

definition target_host :: "string \<Rightarrow> string" where
  "target_host address =
     (if strings_HasPrefix address '':'' then ''localhost'' @ address else address)"

definition sd_target :: "string \<Rightarrow> (string, string) range_order \<Rightarrow> Instance \<Rightarrow> HTTPSDTarget" where
  "sd_target host rl inst =
     (let t = inst_Target inst;
          labels = copy_labels rl t;
          labels = gm_put ''vm_name'' (Name t) labels;
          labels = gm_put ''target_id'' (ID t) labels;
          labels = gm_put ''endpoint'' (Endpoint t) labels;
          labels = gm_put ''__metrics_path__'' ''/probe'' labels;
          labels = gm_put ''__param_target'' (ID t) labels
      in \<lparr>sd_Targets = [host], sd_Labels = labels\<rparr>)"

definition sd_json :: "HTTPSDTarget \<Rightarrow> json" where
  "sd_json sd =
     JObject [(''targets'', JList (map JString (sd_Targets sd))),
              (''labels'', JObject (map (\<lambda>(k, v). (k, JString v)) (sd_Labels sd)))]"

definition sd_targets ::
  "Server \<Rightarrow> (string, supervised) range_order \<Rightarrow> (string, string) range_order \<Rightarrow> Manager \<Rightarrow> HTTPSDTarget list" where
  "sd_targets s ri rl m = map (sd_target (target_host (cfg_Address (srv_cfg s))) rl) (ListInstances ri m)"

definition handleTargets ::
  "Server \<Rightarrow> (string, supervised) range_order \<Rightarrow> (string, string) range_order \<Rightarrow> Manager \<Rightarrow> Response" where
  "handleTargets s ri rl m =
     \<lparr>status = 200, headers = [(''Content-Type'', ''application/json'')],
      content = Json (JList (map sd_json (sd_targets s ri rl m)))\<rparr>"

section \<open>Probe\<close>

definition probe_labels :: "(string, string) range_order \<Rightarrow> Target \<Rightarrow> (string, string) gomap" where
  "probe_labels rl t =
     gm_put ''target_id'' (ID t) (gm_put ''vm_name'' (Name t) (copy_labels rl t))"

definition handleProbe ::
  "Server \<Rightarrow> (string, supervised) range_order \<Rightarrow> (string, string) range_order \<Rightarrow> scraper
    \<Rightarrow> (string \<Rightarrow> string) \<Rightarrow> (http_error \<Rightarrow> string)
    \<Rightarrow> (relabel_error \<Rightarrow> string) \<Rightarrow> string \<Rightarrow> Manager \<Rightarrow> Response" where
  "handleProbe s ri rl scrape quote showErr showRelabel targetParam m =
     (if targetParam = [] then http_Error ''missing target query parameter'' 400
      else case GetInstance ri targetParam m of
        None \<Rightarrow> http_Error (''target '' @ quote targetParam @ '' not found'') 404
      | Some inst \<Rightarrow>
          (case scrape (scrape_deadline s) inst of
             Inl err \<Rightarrow> http_Error (''scrape failed: '' @ showErr err) 502
           | Inr data \<Rightarrow>
               (case InjectLabels rl data (probe_labels rl (inst_Target inst)) of
                  Inl err \<Rightarrow> http_Error (''relabel failed: '' @ showRelabel err) 500
                | Inr enriched \<Rightarrow>
                    \<lparr>status = 200, headers = [(''Content-Type'', prometheusTextContentType)],
                     content = Text enriched\<rparr>)))"

section \<open>Health\<close>

fun state_name :: "InstanceState \<Rightarrow> string" where
  "state_name StateStarting = ''starting''"
| "state_name StateRunning = ''running''"
| "state_name StateUnhealthy = ''unhealthy''"
| "state_name StateRestarting = ''restarting''"
| "state_name StateStopped = ''stopped''"

definition health_entry :: "Instance \<Rightarrow> json" where
  "health_entry inst =
     JObject [(''id'', JString (ID (inst_Target inst))), (''port'', JNumber (inst_Port inst)),
              (''state'', JString (state_name (State inst))),
              (''endpoint'', JString (Endpoint (inst_Target inst)))]"

text \<open>The loop over the instances: the flag and the map under construction.\<close>

definition health_loop :: "Instance list \<Rightarrow> bool \<times> (string, json) gomap" where
  "health_loop insts =
     fold (\<lambda>inst (allHealthy, instMap).
             (if State inst = StateUnhealthy \<or> State inst = StateRestarting then False else allHealthy,
              gm_put (Name (inst_Target inst)) (health_entry inst) instMap)) insts (True, [])"

definition handleHealth :: "(string, supervised) range_order \<Rightarrow> Manager \<Rightarrow> Response" where
  "handleHealth ri m =
     (case health_loop (ListInstances ri m) of (allHealthy, instMap) \<Rightarrow>
        \<lparr>status = 200, headers = [(''Content-Type'', ''application/json'')],
         content = Json (JObject
           [(''status'', JString (if allHealthy then ''healthy'' else ''degraded'')),
            (''instances'', JObject instMap)])\<rparr>)"

section \<open>The label maps\<close>

lemma copy_labels_get:
  "is_range_order rl \<Longrightarrow> gm_ok (label_map t) \<Longrightarrow> gm_get (copy_labels rl t) = gm_get (label_map t)"
  by (simp add: copy_labels_def gm_copy_empty_get)

lemma copy_labels_ok [simp]: "gm_ok (copy_labels rl t)"
  by (simp add: copy_labels_def)

text \<open>C34: The labels \<open>/metrics\<close> and \<open>/probe\<close> give to the samples of the same target agree exactly when
  the target carries no label vm_name of its own, or one that equals its name: \<open>/metrics\<close> keeps an
  existing label vm_name, \<open>/probe\<close> replaces it.\<close>

theorem metrics_and_probe_labels_agree_iff:
  assumes "is_range_order rl" and "is_range_order rl'" and "gm_ok (label_map t)"
  shows "gm_get (metrics_labels rl t) = gm_get (probe_labels rl' t) \<longleftrightarrow>
    gm_get (label_map t) ''vm_name'' \<in> {None, Some (Name t)}"
proof -
  have m: "gm_get (metrics_labels rl t) = (if gm_get (label_map t) ''vm_name'' = None
      then (gm_get (label_map t))(''vm_name'' \<mapsto> Name t) else gm_get (label_map t))(''target_id'' \<mapsto> ID t)"
    using assms by (simp add: metrics_labels_def copy_labels_get Let_def)
  have p: "gm_get (probe_labels rl' t) = (gm_get (label_map t))(''vm_name'' \<mapsto> Name t, ''target_id'' \<mapsto> ID t)"
    using assms by (simp add: probe_labels_def copy_labels_get)
  show ?thesis
  proof (cases "gm_get (label_map t) ''vm_name''")
    case None
    then show ?thesis by (simp add: m p)
  next
    case (Some v)
    have "gm_get (metrics_labels rl t) ''vm_name'' = Some v" "gm_get (probe_labels rl' t) ''vm_name'' = Some (Name t)"
      by (simp_all add: m p Some)
    moreover have "v = Name t \<Longrightarrow> gm_get (metrics_labels rl t) = gm_get (probe_labels rl' t)"
      using Some by (auto simp: m p)
    ultimately show ?thesis using Some by auto
  qed
qed

theorem metrics_and_probe_labels_agree_iff_witness:
  "gm_get (metrics_labels rev (sample_vm\<lparr>Labels := Some [(''vm_name'', ''other'')]\<rparr>))
     \<noteq> gm_get (probe_labels rev (sample_vm\<lparr>Labels := Some [(''vm_name'', ''other'')]\<rparr>))"
  by (subst metrics_and_probe_labels_agree_iff) (auto simp: sample_vm_def)

section \<open>Metrics of all instances\<close>

text \<open>The contribution of one instance, independent of the others.\<close>

definition contribution ::
  "(string, string) range_order \<Rightarrow> (Instance \<Rightarrow> http_error + string) \<Rightarrow> Instance \<Rightarrow> string option" where
  "contribution rl scrape inst =
     (case scrape inst of
        Inl _ \<Rightarrow> None
      | Inr data \<Rightarrow>
          (case InjectLabels rl data (metrics_labels rl (inst_Target inst)) of
             Inl _ \<Rightarrow> None | Inr enriched \<Rightarrow> Some enriched))"

lemma aggregate_fold:
  "fold (aggregate_result rl) (map (scrape_result scrape) insts) a =
     a\<lparr>agg_buf := agg_buf a @ unlines (List.map_filter (contribution rl scrape) insts),
       agg_up := agg_up a + int (length (List.map_filter (contribution rl scrape) insts)),
       agg_errors := agg_errors a
         + (int (length insts) - int (length (List.map_filter (contribution rl scrape) insts)))\<rparr>"
proof (induction insts arbitrary: a)
  case (Cons i insts)
  have "aggregate_result rl (scrape_result scrape i) a =
      (case contribution rl scrape i of
         None \<Rightarrow> a\<lparr>agg_errors := agg_errors a + 1\<rparr>
       | Some e \<Rightarrow> a\<lparr>agg_up := agg_up a + 1, agg_buf := agg_buf a @ e @ [newline]\<rparr>)"
    by (simp add: aggregate_result_def contribution_def scrape_result_def split: sum.split)
  then show ?case
    by (simp add: Cons.IH List.map_filter_simps unlines_def split: option.split)
qed (simp add: List.map_filter_simps unlines_def)

text \<open>C14: The page \<open>/metrics\<close> is the contributions of the instances in the order of the snapshot, each
  computed from that instance alone, followed by the supervisor's own metrics. A child that fails
  to answer or sends text that cannot be relabelled is left out and changes nothing else. The
  counters are exact: all instances, those that contributed, and the rest as errors. None of this
  depends on the order in which the scrapes complete.\<close>

theorem handleMetrics_is_per_instance:
  assumes "mset completions = mset [0..<length (m_instances m)]" and "is_range_order ri"
  shows "handleMetrics s ri rl completions scrape elapsed m =
    (let insts = ListInstances ri m;
         parts = List.map_filter (contribution rl (scrape (scrape_deadline s))) insts
     in \<lparr>status = 200, headers = [(''Content-Type'', prometheusTextContentType)],
         content = Text (unlines parts @ self_metrics elapsed (int (length (m_instances m)))
           (int (length parts)) (int (length (m_instances m)) - int (length parts)))\<rparr>)"
proof -
  let ?f = "scrape_result (scrape (scrape_deadline s))"
  have "List.map_filter (\<lambda>r. r) (map (\<lambda>i. Some (f i)) xs) = map f xs" for f :: "Instance \<Rightarrow> ScrapeResult" and xs
    by (induction xs) (simp_all add: List.map_filter_simps)
  then have "List.map_filter (\<lambda>r. r) (ScrapeAll ri completions (scrape (scrape_deadline s)) m)
      = map ?f (ListInstances ri m)"
    by (simp add: ScrapeAll_any_completion_order [OF assms])
  moreover have "length (ListInstances ri m) = length (m_instances m)"
    using assms(2) by (simp add: ListInstances_def)
  ultimately show ?thesis
    by (simp add: handleMetrics_def aggregate_all_def aggregate_fold Let_def)
qed

definition two_instances :: Manager where
  "two_instances = (NewSupervisor default_exporter)\<lparr>m_instances :=
     [(''a'', supervise (NewInstance sample_vm [] default_exporter)),
      (''b'', supervise (NewInstance (sample_vm\<lparr>ID := ''b''\<rparr>) [] default_exporter))]\<rparr>"

theorem handleMetrics_is_per_instance_witness:
  "handleMetrics (NewServer NewDefaultConfig) (\<lambda>x. x) (\<lambda>x. x) [1, 0] (\<lambda>_ _. Inl (StatusError 503)) ''0.000001'' two_instances
   = \<lparr>status = 200, headers = [(''Content-Type'', prometheusTextContentType)],
      content = Text (self_metrics ''0.000001'' 2 0 2)\<rparr>"
  by (subst handleMetrics_is_per_instance)
    (simp_all add: two_instances_def ListInstances_def contribution_def List.map_filter_simps unlines_def
      eval_nat_numeral)

text \<open>C35: With a write timeout of one second or less in the configuration, zero or unset included,
  every scrape runs under an expired context: \<open>/metrics\<close> shows no target up, although the server
  itself falls back to its default write timeout when the configured one is not positive.\<close>

theorem small_write_timeout_fails_every_scrape:
  assumes "\<And>d inst. d \<le> 0 \<Longrightarrow> scrape d inst = Inl RequestFailed"
    and "cfg_WebWriteTimeout cfg \<le> time_Second"
    and "mset completions = mset [0..<length (m_instances m)]" and "is_range_order ri"
  shows "content (handleMetrics (NewServer cfg) ri rl completions scrape elapsed m) =
      Text (self_metrics elapsed (int (length (m_instances m))) 0 (int (length (m_instances m))))
    \<and> 0 < srv_WriteTimeout (NewServer cfg)"
proof -
  have "scrape_deadline (NewServer cfg) \<le> 0"
    using assms(2) by (simp add: scrape_deadline_def NewServer_def Let_def)
  then have "contribution rl (scrape (scrape_deadline (NewServer cfg))) = (\<lambda>_. None)"
    using assms(1) by (intro ext) (simp add: contribution_def)
  moreover have "List.map_filter (\<lambda>_. None) xs = ([] :: string list)" for xs :: "Instance list"
    by (induction xs) (simp_all add: List.map_filter_simps)
  moreover have "length (List.map_filter (\<lambda>r. r) (map (\<lambda>i. Some (f i)) xs)) = length xs"
    "List.map_filter (\<lambda>r. r) (map (\<lambda>i. Some (f i)) xs) = map f xs" for f :: "Instance \<Rightarrow> ScrapeResult" and xs
    by (induction xs) (simp_all add: List.map_filter_simps)
  moreover have "length (ListInstances ri m) = length (m_instances m)"
    using assms(4) by (simp add: ListInstances_def)
  ultimately show ?thesis
    by (simp add: handleMetrics_def ScrapeAll_any_completion_order [OF assms(3,4)] aggregate_all_def
        aggregate_fold unlines_def Let_def)
      (simp add: NewServer_def DefaultWebWriteTimeout_def time_Second_def Let_def)
qed

theorem small_write_timeout_fails_every_scrape_witness:
  "content (handleMetrics (NewServer (NewDefaultConfig\<lparr>cfg_WebWriteTimeout := 0\<rparr>)) (\<lambda>x. x) (\<lambda>x. x) [0, 1]
      (\<lambda>d _. if d \<le> 0 then Inl RequestFailed else Inr ''up 1'') ''0'' two_instances)
   = Text (self_metrics ''0'' 2 0 2)"
  using small_write_timeout_fails_every_scrape
    [of "\<lambda>d _. if d \<le> 0 then Inl RequestFailed else Inr ''up 1''" "NewDefaultConfig\<lparr>cfg_WebWriteTimeout := 0\<rparr>"
      "[0, 1]" two_instances "\<lambda>x. x" "\<lambda>x. x" "''0''"]
  by (simp add: two_instances_def time_Second_def eval_nat_numeral)

section \<open>From service discovery to the probe\<close>

lemma handleProbe_found:
  assumes "GetInstance ri q m = Some inst" and "q \<noteq> []"
  shows "handleProbe s ri rl scrape quote showErr showRelabel q m =
    (case scrape (scrape_deadline s) inst of
       Inl err \<Rightarrow> http_Error (''scrape failed: '' @ showErr err) 502
     | Inr data \<Rightarrow>
         (case InjectLabels rl data (probe_labels rl (inst_Target inst)) of
            Inl err \<Rightarrow> http_Error (''relabel failed: '' @ showRelabel err) 500
          | Inr enriched \<Rightarrow>
              \<lparr>status = 200, headers = [(''Content-Type'', prometheusTextContentType)],
               content = Text enriched\<rparr>))"
  using assms by (simp add: handleProbe_def)

lemma sd_labels_get:
  "gm_get (sd_Labels (sd_target host rl inst)) ''__param_target'' = Some (ID (inst_Target inst))"
  "gm_get (sd_Labels (sd_target host rl inst)) ''__metrics_path__'' = Some ''/probe''"
  "gm_get (sd_Labels (sd_target host rl inst)) ''target_id'' = Some (ID (inst_Target inst))"
  by (simp_all add: sd_target_def Let_def)

text \<open>C15: Every entry of \<open>/targets\<close> belongs to one instance, and scraping it as it says (path
  \<open>/probe\<close>, parameter \<open>target\<close>) scrapes exactly that instance, whatever the iteration orders of the two
  requests: the answer is that child's text with its labels, 502 when the child fails and 500 when
  its text cannot be relabelled, never 404. The exception is a target with an empty ID, which
  \<open>/targets\<close> announces with an empty parameter that \<open>/probe\<close> rejects with 400.\<close>

theorem announced_targets_can_be_probed:
  assumes "manager_reachable cfg m" and "is_range_order ri" and "is_range_order ri'"
    and "sd \<in> set (sd_targets s ri rl m)"
  shows "\<exists>inst q. inst \<in> set (ListInstances ri m) \<and> q = ID (inst_Target inst)
    \<and> gm_get (sd_Labels sd) ''__metrics_path__'' = Some ''/probe''
    \<and> gm_get (sd_Labels sd) ''__param_target'' = Some q
    \<and> handleProbe s ri' rl' scrape quote showErr showRelabel q m =
        (if q = [] then http_Error ''missing target query parameter'' 400
         else case scrape (scrape_deadline s) inst of
           Inl err \<Rightarrow> http_Error (''scrape failed: '' @ showErr err) 502
         | Inr data \<Rightarrow>
             (case InjectLabels rl' data (probe_labels rl' (inst_Target inst)) of
                Inl err \<Rightarrow> http_Error (''relabel failed: '' @ showRelabel err) 500
              | Inr enriched \<Rightarrow>
                  \<lparr>status = 200, headers = [(''Content-Type'', prometheusTextContentType)],
                   content = Text enriched\<rparr>))"
proof -
  have inv: "manager_inv m" by (rule manager_reachable_inv [OF assms(1)])
  obtain inst where inst: "inst \<in> set (ListInstances ri m)"
    "sd = sd_target (target_host (cfg_Address (srv_cfg s))) rl inst"
    using assms(4) by (auto simp: sd_targets_def)
  let ?q = "ID (inst_Target inst)"
  have "set (ListInstances ri' m) = set (ListInstances ri m)"
    using assms(2,3) by (simp add: ListInstances_def)
  then have "GetInstance ri' (target_key (inst_Target inst)) m = Some inst"
    using registry.lookup_stable [of "(m, ri)" "(m, ri')" inst] inv assms(2,3) inst(1) by simp
  then have "?q \<noteq> [] \<Longrightarrow> GetInstance ri' ?q m = Some inst" by (simp add: target_key_def)
  then show ?thesis
    by (intro exI [of _ inst] exI [of _ ?q])
      (use inst in \<open>auto simp: sd_labels_get handleProbe_found, simp add: handleProbe_def\<close>)
qed

theorem announced_targets_can_be_probed_witness:
  "\<exists>m sd q. manager_reachable default_exporter m \<and> sd \<in> set (sd_targets (NewServer NewDefaultConfig) (\<lambda>x. x) (\<lambda>x. x) m)
     \<and> gm_get (sd_Labels sd) ''__param_target'' = Some q
     \<and> status (handleProbe (NewServer NewDefaultConfig) rev (\<lambda>x. x) (\<lambda>_ _. Inl BodyFailed) (\<lambda>x. x) (\<lambda>_. ''e'') (\<lambda>_. ''r'') q m)
           \<in> {400, 502}"
proof -
  let ?s = "NewServer NewDefaultConfig"
  obtain m where m: "manager_reachable default_exporter m" "gm_keys (m_instances m) = {''vm-1''}"
    using sample_manager by blast
  then obtain k where "k \<in> set (m_instances m)" by (metis equals0D imageE insertI1)
  then obtain sd where sd: "sd \<in> set (sd_targets ?s (\<lambda>x. x) (\<lambda>x. x) m)"
    by (auto simp: sd_targets_def ListInstances_def)
  from announced_targets_can_be_probed [OF m(1) range_order_id range_order_rev sd,
      of "\<lambda>x. x" "\<lambda>_ _. Inl BodyFailed" "\<lambda>x. x" "\<lambda>_. ''e''" "\<lambda>_. ''r''"]
  obtain q where q: "gm_get (sd_Labels sd) ''__param_target'' = Some q"
    "handleProbe ?s rev (\<lambda>x. x) (\<lambda>_ _. Inl BodyFailed) (\<lambda>x. x) (\<lambda>_. ''e'') (\<lambda>_. ''r'') q m =
       (if q = [] then http_Error ''missing target query parameter'' 400
        else http_Error (''scrape failed: '' @ ''e'') 502)" by auto
  have "status (handleProbe ?s rev (\<lambda>x. x) (\<lambda>_ _. Inl BodyFailed) (\<lambda>x. x) (\<lambda>_. ''e'') (\<lambda>_. ''r'') q m) \<in> {400, 502}"
    unfolding q(2) by (simp add: http_Error_def)
  with m(1) sd q(1) show ?thesis by blast
qed

section \<open>Health\<close>

lemma health_loop_Nil: "health_loop [] = (True, [])"
  by (simp add: health_loop_def)

lemma health_loop_snoc:
  "health_loop (insts @ [i]) =
     (fst (health_loop insts) \<and> State i \<notin> {StateUnhealthy, StateRestarting},
      gm_put (Name (inst_Target i)) (health_entry i) (snd (health_loop insts)))"
  by (auto simp: health_loop_def split: prod.split)

lemma health_loop_facts:
  "fst (health_loop insts) = list_all (\<lambda>i. State i \<notin> {StateUnhealthy, StateRestarting}) insts"
  "gm_ok (snd (health_loop insts))"
  "gm_keys (snd (health_loop insts)) = (\<lambda>i. Name (inst_Target i)) ` set insts"
  by (induction insts rule: rev_induct) (simp_all add: health_loop_Nil health_loop_snoc)

text \<open>C36: \<open>/health\<close> says degraded exactly when some instance is unhealthy or restarting, a stopped
  one not counting, and answers with status 200 either way. Its instance table has one entry per
  distinct target name, so instances with equal names are shown as one.\<close>

theorem handleHealth_summary:
  assumes "is_range_order ri"
  shows "\<exists>table. handleHealth ri m =
      \<lparr>status = 200, headers = [(''Content-Type'', ''application/json'')],
       content = Json (JObject
         [(''status'', JString (if \<exists>s \<in> snd ` set (m_instances m). State (sup_inst s) \<in> {StateUnhealthy, StateRestarting}
             then ''degraded'' else ''healthy'')),
          (''instances'', JObject table)])\<rparr>
    \<and> length table = card ((\<lambda>s. Name (inst_Target (sup_inst s))) ` snd ` set (m_instances m))"
proof -
  note h = health_loop_facts [of "ListInstances ri m"]
  obtain ok table where ht: "health_loop (ListInstances ri m) = (ok, table)" by (cases "health_loop (ListInstances ri m)")
  have insts: "set (ListInstances ri m) = (\<lambda>s. sup_inst s) ` snd ` set (m_instances m)"
    using assms by (simp add: ListInstances_def image_image)
  have "length table = card (gm_keys table)"
    using h(2) ht distinct_card [of "map fst table"] by (simp add: gm_ok_def)
  then have "length table = card ((\<lambda>s. Name (inst_Target (sup_inst s))) ` snd ` set (m_instances m))"
    using h(3) ht by (simp add: insts image_image)
  moreover have "ok = (\<not> (\<exists>s \<in> snd ` set (m_instances m). State (sup_inst s) \<in> {StateUnhealthy, StateRestarting}))"
    using h(1) ht by (auto simp: list_all_iff insts)
  ultimately show ?thesis by (simp add: handleHealth_def ht)
qed

theorem handleHealth_summary_witness:
  "\<exists>table. content (handleHealth (\<lambda>x. x) two_instances) =
     Json (JObject [(''status'', JString ''healthy''), (''instances'', JObject table)]) \<and> length table = 1"
  using handleHealth_summary [OF range_order_id, of two_instances]
  by (auto simp: two_instances_def State_def sample_vm_def)

end
