(* ===== verification/NetNS.thy ===== *)
theory NetNS
  imports AppConfig GoNet
begin

text \<open>
  Package \<open>internal/pkg/netns\<close> (\<open>resolver.go\<close>): which network namespace a target belongs to. The
  route cache is part of the state, read and written under a mutex. Arguments stand for what is
  outside the repository: \<open>urlHost\<close> is \<open>url.Parse\<close> reduced to the host of the result (\<open>None\<close> for an
  error; what it accepts differs between releases of Go), and \<open>run\<close> executes a command and returns its output.
\<close>

section \<open>State\<close>

record subnetEntry =
  se_cidr :: ipnet
  se_netns :: string

type_synonym routeChecker = "string \<Rightarrow> ip \<Rightarrow> bool"

record Resolver =
  res_cfg :: NetNSConfig
  res_subnets :: "subnetEntry list"
  res_candidates :: "string list"
  res_cache :: "(string, string) gomap"

definition defaultRouteChecker :: "(string list \<Rightarrow> string option) \<Rightarrow> routeChecker" where
  "defaultRouteChecker run netnsName a =
     (case run [''ip'', ''netns'', ''exec'', netnsName, ''ip'', ''route'', ''get'', ip_String a] of
        None \<Rightarrow> False
      | Some s \<Rightarrow> strings_Contains s ''dev '' \<and> \<not> strings_Contains s ''unreachable'')"

section \<open>Construction\<close>

definition item_subnets :: "NetNSItemConfig \<Rightarrow> subnetEntry list" where
  "item_subnets item =
     List.map_filter
       (\<lambda>s. let s = strings_TrimSpace s
            in if s = [] then None
               else map_option (\<lambda>n. \<lparr>se_cidr = n, se_netns = item_Name item\<rparr>) (net_ParseCIDR s))
       (item_Subnets item)"

definition add_item :: "NetNSItemConfig \<Rightarrow> Resolver \<Rightarrow> Resolver" where
  "add_item item r =
     (if item_Name item = [] then r
      else r\<lparr>res_candidates :=
               (if item_Name item \<in> set (res_candidates r) then res_candidates r
                else res_candidates r @ [item_Name item]),
             res_subnets := res_subnets r @ item_subnets item\<rparr>)"

definition NewResolver :: "NetNSConfig \<Rightarrow> Resolver" where
  "NewResolver cfg =
     fold add_item (ns_Items cfg)
       \<lparr>res_cfg = cfg, res_subnets = [], res_candidates = [], res_cache = []\<rparr>"

section \<open>The address of an endpoint\<close>

definition endpoint_host :: "(string \<Rightarrow> string option) \<Rightarrow> string \<Rightarrow> string" where
  "endpoint_host urlHost endpoint =
     (case strings_Index endpoint ''://'' of
        None \<Rightarrow> endpoint
      | Some i \<Rightarrow>
          (case urlHost endpoint of
             Some h \<Rightarrow> if h \<noteq> [] then h else drop (i + 3) endpoint
           | None \<Rightarrow> drop (i + 3) endpoint))"

definition extractIP :: "(string \<Rightarrow> string option) \<Rightarrow> string \<Rightarrow> ip option" where
  "extractIP urlHost endpoint0 =
     (let endpoint = strings_TrimSpace endpoint0
      in if endpoint = [] then None
         else
           (let host = endpoint_host urlHost endpoint;
                h = (case net_SplitHostPort host of Some (h, p) \<Rightarrow> h | None \<Rightarrow> host);
                h = strings_TrimPrefix h ''['';
                h = strings_TrimSuffix h '']'';
                h = (case strings_IndexByte h (CHR ''%'') of Some idx \<Rightarrow> take idx h | None \<Rightarrow> h)
            in net_ParseIP h))"

section \<open>Resolution\<close>

definition target_tenant :: "Target \<Rightarrow> string" where
  "target_tenant t =
     (if Tenant t = [] then
        (case Labels t of
           None \<Rightarrow> []
         | Some labels \<Rightarrow>
             (if gm_str labels ''project_id'' \<noteq> [] then gm_str labels ''project_id''
              else if gm_str labels ''tenant'' \<noteq> [] then gm_str labels ''tenant'' else []))
      else Tenant t)"

definition tenant_item :: "NetNSConfig \<Rightarrow> string \<Rightarrow> string option" where
  "tenant_item cfg tenant =
     map_option item_Name
       (find (\<lambda>item. list_ex (\<lambda>it. strings_EqualFold it tenant) (item_Tenants item)) (ns_Items cfg))"

definition render_template :: "string \<Rightarrow> string \<Rightarrow> string" where
  "render_template template tenant =
     (let ns = strings_ReplaceAll template ''{{.Tenant}}'' tenant
      in strings_ReplaceAll ns ''{{.TenantID}}'' tenant)"

definition Resolve ::
  "(string \<Rightarrow> string option) \<Rightarrow> routeChecker option \<Rightarrow> Resolver \<Rightarrow> Target option \<Rightarrow> string \<times> Resolver" where
  "Resolve urlHost checker r target =
     (case target of
        None \<Rightarrow> ([], r)
      | Some t \<Rightarrow>
        (let cfg = res_cfg r; default = (ns_DefaultNetNS cfg, r); tenant = target_tenant t;
             by_address =
               (case extractIP urlHost (Endpoint t) of
                  None \<Rightarrow> default
                | Some a \<Rightarrow>
                    (case find (\<lambda>se. ipnet_Contains (se_cidr se) a) (res_subnets r) of
                       Some se \<Rightarrow> (se_netns se, r)
                     | None \<Rightarrow>
                         (case checker of
                            None \<Rightarrow> default
                          | Some check \<Rightarrow>
                              if \<not> ns_AutoDetectRoute cfg \<or> res_candidates r = [] then default
                              else
                                (case gm_get (res_cache r) (ip_String a) of
                                   Some cached \<Rightarrow> (cached, r)
                                 | None \<Rightarrow>
                                     (case find (\<lambda>c. check c a) (res_candidates r) of
                                        Some c \<Rightarrow> (c, r\<lparr>res_cache := gm_put (ip_String a) c (res_cache r)\<rparr>)
                                      | None \<Rightarrow> default)))))
         in if NetNS t \<noteq> [] then (NetNS t, r)
            else if tenant \<noteq> [] then
              (case tenant_item cfg tenant of
                 Some ns \<Rightarrow> (ns, r)
               | None \<Rightarrow>
                   (let ns = render_template (ns_Template cfg) tenant
                    in if ns_Template cfg \<noteq> [] \<and> ns \<noteq> [] then (ns, r) else by_address))
            else by_address))"

section \<open>The order of precedence\<close>

text \<open>
  The documented rules, each on its own and in their order: the namespace of the target, the item
  that lists its tenant, the template, the subnets, a cached route, a route found now.
\<close>

definition route_step :: "(string \<Rightarrow> string option) \<Rightarrow> routeChecker option \<Rightarrow> Resolver \<Rightarrow> Target \<Rightarrow> string option" where
  "route_step urlHost checker r t =
     (case (extractIP urlHost (Endpoint t), checker) of
        (Some a, Some check) \<Rightarrow>
          if \<not> ns_AutoDetectRoute (res_cfg r) \<or> res_candidates r = [] then None
          else (case gm_get (res_cache r) (ip_String a) of
                  Some cached \<Rightarrow> Some cached
                | None \<Rightarrow> find (\<lambda>c. check c a) (res_candidates r))
      | _ \<Rightarrow> None)"

definition subnet_step :: "(string \<Rightarrow> string option) \<Rightarrow> Resolver \<Rightarrow> Target \<Rightarrow> string option" where
  "subnet_step urlHost r t =
     (case extractIP urlHost (Endpoint t) of
        None \<Rightarrow> None
      | Some a \<Rightarrow> map_option se_netns (find (\<lambda>se. ipnet_Contains (se_cidr se) a) (res_subnets r)))"

definition precedence ::
  "(string \<Rightarrow> string option) \<Rightarrow> routeChecker option \<Rightarrow> Resolver \<Rightarrow> Target \<Rightarrow> string option list" where
  "precedence urlHost checker r t =
     (let cfg = res_cfg r; tenant = target_tenant t; rendered = render_template (ns_Template cfg) tenant
      in [if NetNS t = [] then None else Some (NetNS t),
          if tenant = [] then None else tenant_item cfg tenant,
          if tenant = [] \<or> ns_Template cfg = [] \<or> rendered = [] then None else Some rendered,
          subnet_step urlHost r t,
          route_step urlHost checker r t])"

fun first_answer :: "'a option list \<Rightarrow> 'a \<Rightarrow> 'a" where
  "first_answer [] d = d"
| "first_answer (Some a # _) d = a"
| "first_answer (None # rest) d = first_answer rest d"

text \<open>C16: The namespace of a target is the answer of the first documented rule that has one: the
  target's own namespace, the item of its tenant, the template, the subnet of its address, a
  route, and else the default namespace.\<close>

theorem Resolve_follows_precedence:
  "fst (Resolve urlHost checker r (Some t)) =
     first_answer (precedence urlHost checker r t) (ns_DefaultNetNS (res_cfg r))"
  by (simp add: Resolve_def precedence_def route_step_def subnet_step_def Let_def split: option.split)

lemma Resolve_state:
  "Resolve urlHost checker r (Some t) = (ns, r') \<Longrightarrow> r' \<noteq> r \<Longrightarrow>
    \<exists>check a. checker = Some check \<and> extractIP urlHost (Endpoint t) = Some a
      \<and> find (\<lambda>c. check c a) (res_candidates r) = Some ns \<and> gm_get (res_cache r) (ip_String a) = None
      \<and> r' = r\<lparr>res_cache := gm_put (ip_String a) ns (res_cache r)\<rparr>
      \<and> ns_AutoDetectRoute (res_cfg r) \<and> NetNS t = []
      \<and> (target_tenant t = [] \<or> tenant_item (res_cfg r) (target_tenant t) = None
          \<and> (ns_Template (res_cfg r) = [] \<or> render_template (ns_Template (res_cfg r)) (target_tenant t) = []))
      \<and> find (\<lambda>se. ipnet_Contains (se_cidr se) a) (res_subnets r) = None"
  by (auto simp: Resolve_def Let_def split: option.splits if_splits)

text \<open>A route found once is kept for ever: resolving the target again gives the same candidate
  without consulting the route checker, even when that route no longer exists. A failed search is
  not remembered.\<close>

theorem found_route_is_kept:
  assumes "Resolve urlHost checker r (Some t) = (ns, r')" and "r' \<noteq> r"
  shows "ns \<in> set (res_candidates r) \<and> (\<forall>check. Resolve urlHost (Some check) r' (Some t) = (ns, r'))"
proof -
  obtain chk a where c: "checker = Some chk" "extractIP urlHost (Endpoint t) = Some a"
    "find (\<lambda>c. chk c a) (res_candidates r) = Some ns"
    "r' = r\<lparr>res_cache := gm_put (ip_String a) ns (res_cache r)\<rparr>" "ns_AutoDetectRoute (res_cfg r)" "NetNS t = []"
    "target_tenant t = [] \<or> tenant_item (res_cfg r) (target_tenant t) = None
      \<and> (ns_Template (res_cfg r) = [] \<or> render_template (ns_Template (res_cfg r)) (target_tenant t) = [])"
    "find (\<lambda>se. ipnet_Contains (se_cidr se) a) (res_subnets r) = None"
    using Resolve_state [OF assms] by blast
  have ns: "ns \<in> set (res_candidates r)" using c(3) by (auto dest: find_Some_in)
  then have "res_candidates r \<noteq> []" by auto
  then have "Resolve urlHost (Some check) r' (Some t) = (ns, r')" for check
    using c by (auto simp: Resolve_def Let_def split: option.split)
  with ns show ?thesis by blast
qed

text \<open>C37: A template with one tenant placeholder isolates tenants: two targets whose tenants no item
  lists get the same namespace exactly when their tenants are the same.\<close>

theorem template_isolates_tenants:
  assumes "ns_Template (res_cfg r) = pre @ ''{{.Tenant}}'' @ post"
    and "CHR ''{'' \<notin> set (pre @ post @ target_tenant t @ target_tenant u)"
    and "NetNS t = []" and "NetNS u = []" and "target_tenant t \<noteq> []" and "target_tenant u \<noteq> []"
    and "tenant_item (res_cfg r) (target_tenant t) = None" and "tenant_item (res_cfg r) (target_tenant u) = None"
  shows "fst (Resolve urlHost checker r (Some t)) = pre @ target_tenant t @ post
    \<and> (fst (Resolve urlHost checker r (Some t)) = fst (Resolve urlHost checker r (Some u))
        \<longleftrightarrow> target_tenant t = target_tenant u)"
proof -
  have render: "render_template (ns_Template (res_cfg r)) x = pre @ x @ post" if "CHR ''{'' \<notin> set x" for x
    using ReplaceAll_once [of "CHR ''{''" pre post "''{.Tenant}}''" x]
      ReplaceAll_absent [of "CHR ''{''" "pre @ x @ post" "''{.TenantID}}''" x] assms(1,2) that
    by (simp add: render_template_def)
  have "fst (Resolve urlHost checker r (Some t)) = pre @ target_tenant t @ post"
    "fst (Resolve urlHost checker r (Some u)) = pre @ target_tenant u @ post"
    using assms render [of "target_tenant t"] render [of "target_tenant u"]
    by (simp_all add: Resolve_def Let_def)
  then show ?thesis by simp
qed

section \<open>The enabled flag\<close>

lemma add_item_cfg [simp]: "res_cfg (add_item item r) = res_cfg r"
  by (simp add: add_item_def)

lemma NewResolver_cfg [simp]: "res_cfg (NewResolver cfg) = cfg"
proof -
  have "res_cfg (fold add_item items r) = res_cfg r" for items r
    by (induction items arbitrary: r) simp_all
  then show ?thesis by (simp add: NewResolver_def)
qed

definition with_enabled :: "bool \<Rightarrow> Resolver \<Rightarrow> Resolver" where
  "with_enabled b r = r\<lparr>res_cfg := (res_cfg r)\<lparr>ns_Enabled := b\<rparr>\<rparr>"

lemma add_item_with_enabled: "add_item item (with_enabled b r) = with_enabled b (add_item item r)"
  by (simp add: add_item_def with_enabled_def)

lemma NewResolver_with_enabled: "NewResolver (cfg\<lparr>ns_Enabled := b\<rparr>) = with_enabled b (NewResolver cfg)"
proof -
  have "fold add_item items (with_enabled b r) = with_enabled b (fold add_item items r)" for items r
    by (induction items arbitrary: r) (simp_all add: add_item_with_enabled)
  moreover have "\<lparr>res_cfg = cfg\<lparr>ns_Enabled := b\<rparr>, res_subnets = [], res_candidates = [], res_cache = []\<rparr>
      = with_enabled b \<lparr>res_cfg = cfg, res_subnets = [], res_candidates = [], res_cache = []\<rparr>"
    by (simp add: with_enabled_def)
  ultimately show ?thesis by (simp add: NewResolver_def)
qed

lemma Resolve_with_enabled:
  "Resolve urlHost checker (with_enabled b r) t = map_prod id (with_enabled b) (Resolve urlHost checker r t)"
  by (simp add: Resolve_def with_enabled_def tenant_item_def Let_def split: option.split)

text \<open>Switching namespace resolution off in the configuration has no effect: a resolver built
  from a configuration with the flag \<open>enabled\<close> cleared gives every target the same namespace, now and
  after any number of earlier resolutions.\<close>

theorem enabled_flag_has_no_effect:
  "fst (Resolve urlHost checker
     (fold (\<lambda>t r. snd (Resolve urlHost checker r t)) earlier (NewResolver (cfg\<lparr>ns_Enabled := False\<rparr>))) target)
   = fst (Resolve urlHost checker
       (fold (\<lambda>t r. snd (Resolve urlHost checker r t)) earlier (NewResolver (cfg\<lparr>ns_Enabled := True\<rparr>))) target)"
proof -
  have "fold (\<lambda>t r. snd (Resolve urlHost checker r t)) earlier (with_enabled b r)
      = with_enabled b (fold (\<lambda>t r. snd (Resolve urlHost checker r t)) earlier r)" for b r
    by (induction earlier arbitrary: r) (simp_all add: Resolve_with_enabled)
  then show ?thesis by (simp add: NewResolver_with_enabled Resolve_with_enabled)
qed

section \<open>Witnesses\<close>

definition tenant_target :: "string \<Rightarrow> Target" where
  "tenant_target n = \<lparr>ID = n, Name = n, Endpoint = ''vsock://3:5555'', Tenant = n, NetNS = [], Labels = None, CustomArgs = []\<rparr>"

definition template_resolver :: Resolver where
  "template_resolver = NewResolver (zero_NetNSConfig\<lparr>ns_Template := ''qrouter-{{.Tenant}}''\<rparr>)"

theorem template_isolates_tenants_witness:
  "fst (Resolve (\<lambda>_. None) None template_resolver (Some (tenant_target ''a''))) = ''qrouter-a''
   \<and> fst (Resolve (\<lambda>_. None) None template_resolver (Some (tenant_target ''a'')))
     \<noteq> fst (Resolve (\<lambda>_. None) None template_resolver (Some (tenant_target ''b'')))"
proof -
  have t: "target_tenant (tenant_target n) = n" "tenant_item (res_cfg r) n = None" "NetNS (tenant_target n) = []"
    if "ns_Items (res_cfg r) = []" for r n
    using that by (simp_all add: target_tenant_def tenant_item_def tenant_target_def)
  have c: "ns_Template (res_cfg template_resolver) = ''qrouter-'' @ ''{{.Tenant}}'' @ []" "ns_Items (res_cfg template_resolver) = []"
    by (simp_all add: template_resolver_def zero_NetNSConfig_def)
  show ?thesis
    using template_isolates_tenants [of template_resolver "''qrouter-''" "[]" "tenant_target ''a''" "tenant_target ''b''"
      "\<lambda>_. None" None] c t [OF c(2)] by simp metis
qed

definition route_resolver :: Resolver where
  "route_resolver = NewResolver (zero_NetNSConfig\<lparr>ns_AutoDetectRoute := True,
     ns_Items := [\<lparr>item_Name = ''r1'', item_Tenants = [], item_Subnets = []\<rparr>]\<rparr>)"

definition routed_target :: Target where
  "routed_target = \<lparr>ID = ''v'', Name = ''v'', Endpoint = ''1.2.3.4'', Tenant = [], NetNS = [], Labels = None, CustomArgs = []\<rparr>"

lemma extract_routed: "extractIP u ''1.2.3.4'' = Some [0,0,0,0,0,0,0,0,0,0,0xFF,0xFF,1,2,3,4]"
proof -
  have t: "strings_TrimSpace ''1.2.3.4'' = ''1.2.3.4''"
    by (rule TrimSpace_plain) (simp_all add: plain_byte_def unicode_spaces_def)
  have i: "strings_Index ''1.2.3.4'' ''://'' = None"
    by (simp add: strings_Index.simps strings_HasPrefix_def)
  have "net_ParseIP ''1.2.3.4'' = Some [0,0,0,0,0,0,0,0,0,0,0xFF,0xFF,1,2,3,4]"
    by (simp add: go_eval)
  then show ?thesis
    by (simp add: extractIP_def t i endpoint_host_def net_SplitHostPort_def strings_TrimPrefix_def
        strings_TrimSuffix_def strings_HasPrefix_def strings_HasSuffix_def)
qed

theorem found_route_is_kept_witness:
  "\<exists>r'. Resolve (\<lambda>_. None) (Some (\<lambda>ns a. ns = ''r1'')) route_resolver (Some routed_target) = (''r1'', r')
     \<and> Resolve (\<lambda>_. None) (Some (\<lambda>_ _. False)) r' (Some routed_target) = (''r1'', r')"
proof -
  let ?r' = "snd (Resolve (\<lambda>_. None) (Some (\<lambda>ns a. ns = ''r1'')) route_resolver (Some routed_target))"
  have f: "res_candidates route_resolver = [''r1'']" "res_subnets route_resolver = []" "res_cache route_resolver = []"
    "res_cfg route_resolver = zero_NetNSConfig\<lparr>ns_AutoDetectRoute := True,
       ns_Items := [\<lparr>item_Name = ''r1'', item_Tenants = [], item_Subnets = []\<rparr>]\<rparr>"
    by (simp_all add: route_resolver_def)
      (simp_all add: NewResolver_def add_item_def item_subnets_def List.map_filter_simps)
  have r: "Resolve (\<lambda>_. None) (Some (\<lambda>ns a. ns = ''r1'')) route_resolver (Some routed_target) = (''r1'', ?r')"
    "res_cache ?r' \<noteq> []"
    using extract_routed
    by (simp_all add: Resolve_def routed_target_def target_tenant_def f zero_NetNSConfig_def gm_put_def)
  then have "?r' \<noteq> route_resolver" using f(3) by auto
  from found_route_is_kept [OF r(1) this] r(1) show ?thesis by blast
qed

end
