(* ===== verification/Discovery.thy ===== *)
theory Discovery
  imports AppConfig
begin

text \<open>
  Package \<open>internal/pkg/discovery\<close> (\<open>discovery.go\<close>): the manager that merges the target lists of
  the discovery providers and passes every change on through a buffered channel. The methods
  run under the manager's mutex. A channel is the list of the values in its buffer, the oldest
  first; the value a waiting receiver takes directly is put in the buffer and taken out again.
\<close>

section \<open>State\<close>

record DiscoveryManager =
  providers :: "string list"
  targets :: "(string, (string, Target) gomap) gomap"
  notifyCh :: "Target list list"

definition notify_capacity :: nat where
  "notify_capacity = 10"

definition provider_capacity :: nat where
  "provider_capacity = 5"

definition NewManager :: DiscoveryManager where
  "NewManager = \<lparr>providers = [], targets = [], notifyCh = []\<rparr>"

definition RegisterProvider :: "string \<Rightarrow> DiscoveryManager \<Rightarrow> DiscoveryManager" where
  "RegisterProvider p m = m\<lparr>providers := providers m @ [p]\<rparr>"

section \<open>Merging\<close>

definition fill_id :: "Target \<Rightarrow> Target" where
  "fill_id t = (if ID t = [] then t\<lparr>ID := Name t\<rparr> else t)"

definition provider_map :: "Target list \<Rightarrow> (string, Target) gomap" where
  "provider_map ts = fold (\<lambda>t. gm_put (ID (fill_id t)) (fill_id t)) ts []"

text \<open>The orders in which one run of the merging loops visits the maps.\<close>

record merge_order =
  order_providers :: "(string, (string, Target) gomap) range_order"
  order_targets :: "(string, Target) range_order"
  order_unified :: "(string, Target) range_order"

definition merge_order_ok :: "merge_order \<Rightarrow> bool" where
  "merge_order_ok r =
     (is_range_order (order_providers r) \<and> is_range_order (order_targets r)
      \<and> is_range_order (order_unified r))"

definition unify ::
  "merge_order \<Rightarrow> (string, (string, Target) gomap) gomap \<Rightarrow> (string, Target) gomap" where
  "unify r tgts = fold (\<lambda>pm. gm_copy_into (order_targets r (snd pm))) (order_providers r tgts) []"

definition merged ::
  "merge_order \<Rightarrow> (string, (string, Target) gomap) gomap \<Rightarrow> Target list" where
  "merged r tgts = map snd (order_unified r (unify r tgts))"

text \<open>
  The two nested \<open>select\<close> statements and the final send. Between the first and the second the
  receiver may take \<open>taken\<close> values out of the buffer. \<open>None\<close> is a send that blocks.
\<close>

definition notify :: "nat \<Rightarrow> 'a list \<Rightarrow> 'a \<Rightarrow> 'a list option" where
  "notify taken ch result =
     (if length ch < notify_capacity then Some (ch @ [result])
      else
        (let ch = drop taken ch;
             ch = (case ch of [] \<Rightarrow> [] | _ # rest \<Rightarrow> rest)
         in if length ch < notify_capacity then Some (ch @ [result]) else None))"

definition updateTargets ::
  "merge_order \<Rightarrow> nat \<Rightarrow> string \<Rightarrow> Target list \<Rightarrow> DiscoveryManager \<Rightarrow> DiscoveryManager option" where
  "updateTargets r taken providerName ts m =
     (let tgts = gm_put providerName (provider_map ts) (targets m);
          result = merged r tgts
      in map_option (\<lambda>ch. m\<lparr>targets := tgts, notifyCh := ch\<rparr>) (notify taken (notifyCh m) result))"

definition CurrentTargets :: "merge_order \<Rightarrow> DiscoveryManager \<Rightarrow> Target list" where
  "CurrentTargets r m = merged r (targets m)"

section \<open>Facts about merging\<close>

text \<open>Every entry of every provider's map is filed under its target's ID.\<close>

definition keyed :: "(string, Target) gomap \<Rightarrow> bool" where
  "keyed pm \<longleftrightarrow> gm_ok pm \<and> (\<forall>k t. gm_get pm k = Some t \<longrightarrow> ID t = k)"

definition disc_inv :: "DiscoveryManager \<Rightarrow> bool" where
  "disc_inv m \<longleftrightarrow>
     gm_ok (targets m) \<and> (\<forall>p pm. gm_get (targets m) p = Some pm \<longrightarrow> keyed pm)
     \<and> length (notifyCh m) \<le> notify_capacity"

lemma provider_map_get:
  "gm_get (provider_map ts) k = map_option fill_id (find (\<lambda>t. ID (fill_id t) = k) (rev ts))"
  unfolding provider_map_def gm.put_all_get by (simp split: option.split)

lemma provider_map_keyed: "keyed (provider_map ts)"
proof -
  have "gm_ok (provider_map ts)" unfolding provider_map_def by (rule gm.put_all_ok) simp
  then show ?thesis by (auto simp: keyed_def provider_map_get dest: find_Some_in)
qed

lemma fill_id_ID: "ID (fill_id t) = target_key t"
  by (simp add: fill_id_def target_key_def)

lemma provider_map_keys: "gm_keys (provider_map ts) = target_key ` set ts"
  using gm.put_all_dom [of "\<lambda>t. ID (fill_id t)" fill_id ts "[]"]
  by (simp add: provider_map_def fill_id_ID dom_gm_get)

lemma copy_keyed:
  assumes "keyed pm" and "is_range_order rt" and "keyed u"
  shows "keyed (gm_copy_into (rt pm) u)"
    and "gm_keys (gm_copy_into (rt pm) u) = gm_keys pm \<union> gm_keys u"
    and "gm_get (gm_copy_into (rt pm) u) k =
           (case gm_get pm k of Some v \<Rightarrow> Some v | None \<Rightarrow> gm_get u k)"
proof -
  have get: "gm_get (gm_copy_into (rt pm) u) k =
      (case gm_get pm k of Some v \<Rightarrow> Some v | None \<Rightarrow> gm_get u k)" for k
    using assms by (simp add: keyed_def gm_copy_get)
  then show "gm_get (gm_copy_into (rt pm) u) k =
           (case gm_get pm k of Some v \<Rightarrow> Some v | None \<Rightarrow> gm_get u k)" .
  show "keyed (gm_copy_into (rt pm) u)"
    using assms unfolding keyed_def get by (auto split: option.splits)
  show "gm_keys (gm_copy_into (rt pm) u) = gm_keys pm \<union> gm_keys u"
    unfolding set_eq_iff Un_iff gm_keys_get get by (auto split: option.splits)
qed

lemma unify_fold:
  assumes "\<forall>pm \<in> snd ` set ps. keyed pm" and "is_range_order rt" and "keyed u"
  shows "keyed (fold (\<lambda>pm. gm_copy_into (rt (snd pm))) ps u)
    \<and> gm_keys (fold (\<lambda>pm. gm_copy_into (rt (snd pm))) ps u) = (\<Union>pm \<in> snd ` set ps. gm_keys pm) \<union> gm_keys u
    \<and> (\<forall>k t. gm_get (fold (\<lambda>pm. gm_copy_into (rt (snd pm))) ps u) k = Some t \<longrightarrow>
        gm_get u k = Some t \<or> (\<exists>pm \<in> snd ` set ps. gm_get pm k = Some t))"
  using assms(1,3)
proof (induction ps arbitrary: u)
  case (Cons x ps)
  have pm: "keyed (snd x)" using Cons.prems(1) by simp
  note c = copy_keyed [OF pm assms(2) Cons.prems(2)]
  have IH: "keyed (fold (\<lambda>pm. gm_copy_into (rt (snd pm))) ps (gm_copy_into (rt (snd x)) u))
    \<and> gm_keys (fold (\<lambda>pm. gm_copy_into (rt (snd pm))) ps (gm_copy_into (rt (snd x)) u))
        = (\<Union>pm \<in> snd ` set ps. gm_keys pm) \<union> gm_keys (gm_copy_into (rt (snd x)) u)
    \<and> (\<forall>k t. gm_get (fold (\<lambda>pm. gm_copy_into (rt (snd pm))) ps (gm_copy_into (rt (snd x)) u)) k = Some t \<longrightarrow>
        gm_get (gm_copy_into (rt (snd x)) u) k = Some t \<or> (\<exists>pm \<in> snd ` set ps. gm_get pm k = Some t))"
    by (rule Cons.IH) (use Cons.prems(1) c(1) in auto)
  have get: "gm_get (gm_copy_into (rt (snd x)) u) k = Some t \<Longrightarrow> gm_get u k = Some t \<or> gm_get (snd x) k = Some t"
    for k t using c(3) [of k] by (simp split: option.splits)
  have "gm_get u k = Some t \<or> (\<exists>pm \<in> snd ` set (x # ps). gm_get pm k = Some t)"
    if "gm_get (gm_copy_into (rt (snd x)) u) k = Some t \<or> (\<exists>pm \<in> snd ` set ps. gm_get pm k = Some t)"
    for k t using that get [of k t] by auto
  with IH show ?case by (simp only: fold.simps o_apply c(2)) (simp add: Un_ac)
qed simp

lemma unify_facts:
  assumes "merge_order_ok r" and "\<And>p pm. gm_get tgts p = Some pm \<Longrightarrow> keyed pm" and "gm_ok tgts"
  shows "keyed (unify r tgts)"
    and "gm_keys (unify r tgts) = (\<Union>pm \<in> ran (gm_get tgts). gm_keys pm)"
    and "\<And>k t. gm_get (unify r tgts) k = Some t \<Longrightarrow> \<exists>pm \<in> ran (gm_get tgts). gm_get pm k = Some t"
proof -
  let ?ps = "order_providers r tgts"
  have r: "is_range_order (order_providers r)" "is_range_order (order_targets r)"
    using assms(1) by (simp_all add: merge_order_ok_def)
  have set: "set ?ps = set tgts" using r(1) by simp
  note ran = gm_values [OF assms(3)]
  have k: "\<forall>pm \<in> snd ` set ?ps. keyed pm"
    using assms(2) unfolding set ran by (auto simp: ran_def)
  note f = unify_fold [OF k r(2), of "[]"]
  show "keyed (unify r tgts)" using f by (simp add: unify_def keyed_def)
  show "gm_keys (unify r tgts) = (\<Union>pm \<in> ran (gm_get tgts). gm_keys pm)"
    using f by (simp add: unify_def keyed_def set ran)
  show "\<And>k t. gm_get (unify r tgts) k = Some t \<Longrightarrow> \<exists>pm \<in> ran (gm_get tgts). gm_get pm k = Some t"
    using f by (simp add: unify_def keyed_def set ran)
qed

lemma merged_facts:
  assumes "merge_order_ok r" and "disc_inv m"
  shows "distinct (map ID (merged r (targets m)))"
    and "ID ` set (merged r (targets m)) = (\<Union>pm \<in> ran (gm_get (targets m)). gm_keys pm)"
    and "t \<in> set (merged r (targets m)) \<Longrightarrow> \<exists>pm \<in> ran (gm_get (targets m)). gm_get pm (ID t) = Some t"
proof -
  note u = unify_facts [OF assms(1), of "targets m"]
  have k: "\<And>p pm. gm_get (targets m) p = Some pm \<Longrightarrow> keyed pm" and ok: "gm_ok (targets m)"
    using assms(2) by (auto simp: disc_inv_def)
  let ?u = "unify r (targets m)"
  have ku: "keyed ?u" by (rule u(1)) (use k ok in auto)
  have ro: "is_range_order (order_unified r)" using assms(1) by (simp add: merge_order_ok_def)
  have IDs: "ID (snd kv) = fst kv" if "kv \<in> set ?u" for kv
    using ku that unfolding keyed_def by (cases kv) (auto dest: in_set_gm_get)
  have "distinct (map fst (order_unified r ?u))"
    using ku ro by (simp add: keyed_def flip: gm_ok_def)
  moreover have "map ID (merged r (targets m)) = map fst (order_unified r ?u)"
    using IDs ro by (auto simp: merged_def)
  ultimately show "distinct (map ID (merged r (targets m)))" by simp
  have "ID ` set (merged r (targets m)) = gm_keys ?u"
    using IDs ro by (force simp: merged_def image_image intro!: image_cong)
  also have "\<dots> = (\<Union>pm \<in> ran (gm_get (targets m)). gm_keys pm)"
    by (rule u(2)) (use k ok in auto)
  finally show "ID ` set (merged r (targets m)) = (\<Union>pm \<in> ran (gm_get (targets m)). gm_keys pm)" .
  show "\<exists>pm \<in> ran (gm_get (targets m)). gm_get pm (ID t) = Some t"
    if "t \<in> set (merged r (targets m))"
  proof -
    from that ro obtain k where kt: "(k, t) \<in> set ?u" by (auto simp: merged_def)
    then have "gm_get ?u (ID t) = Some t"
      using ku IDs [OF kt] by (auto simp: keyed_def intro: in_set_gm_get)
    then show ?thesis by (rule u(3) [rotated 2]) (use k ok in auto)
  qed
qed

lemma notify_total:
  assumes "length ch \<le> notify_capacity"
  obtains ch' where "notify taken ch x = Some (ch' @ [x])" "length ch' < notify_capacity"
    "set ch' \<subseteq> set ch"
proof (cases "length ch < notify_capacity")
  case True
  then show ?thesis using that [of ch] by (simp add: notify_def)
next
  case False
  show ?thesis
  proof (cases "drop taken ch")
    case Nil
    then show ?thesis using that [of "[]"] False by (simp add: notify_def notify_capacity_def)
  next
    case (Cons y rest)
    have "length (drop taken ch) \<le> length ch" by simp
    then have "length rest < notify_capacity" using Cons assms by simp
    moreover have "set rest \<subseteq> set ch" using Cons set_drop_subset [of taken ch] by auto
    ultimately show ?thesis using that [of rest] False Cons by (simp add: notify_def)
  qed
qed

lemma NewManager_inv [simp]: "disc_inv NewManager"
  by (simp add: disc_inv_def NewManager_def)

lemma RegisterProvider_inv [simp]: "disc_inv (RegisterProvider p m) = disc_inv m"
  by (simp add: disc_inv_def RegisterProvider_def)

lemma updateTargets_obtain:
  assumes "disc_inv m"
  obtains m' ch where "updateTargets r taken p ts m = Some m'"
    and "targets m' = gm_put p (provider_map ts) (targets m)" and "providers m' = providers m"
    and "notifyCh m' = ch @ [merged r (targets m')]" and "set ch \<subseteq> set (notifyCh m)"
    and "disc_inv m'"
proof -
  let ?tg = "gm_put p (provider_map ts) (targets m)"
  have "length (notifyCh m) \<le> notify_capacity" using assms by (simp add: disc_inv_def)
  then obtain ch where ch: "notify taken (notifyCh m) (merged r ?tg) = Some (ch @ [merged r ?tg])"
    "length ch < notify_capacity" "set ch \<subseteq> set (notifyCh m)"
    by (rule notify_total)
  let ?m = "m\<lparr>targets := ?tg, notifyCh := ch @ [merged r ?tg]\<rparr>"
  have "disc_inv ?m"
    using assms ch(2) provider_map_keyed by (auto simp: disc_inv_def split: if_splits)
  then show ?thesis using that [of ?m ch] ch by (simp add: updateTargets_def Let_def)
qed

section \<open>The running manager\<close>

text \<open>
  \<open>Start\<close> runs two goroutines per provider: the provider, which publishes lists into its own
  channel, and a forwarder, which hands each of them to \<open>updateTargets\<close>. The reader of the
  notification channel is the third party. A step is one channel operation of one of them; the
  updates exclude each other by the mutex. \<open>sys_sent\<close> is a ghost field: the last list a provider
  published.
\<close>

record discovery_system =
  sys_mgr :: DiscoveryManager
  sys_running :: "string list"
  sys_inbox :: "string \<Rightarrow> Target list list"
  sys_received :: "Target list list"
  sys_sent :: "string \<Rightarrow> Target list option"

definition Start :: "DiscoveryManager \<Rightarrow> discovery_system" where
  "Start m = \<lparr>sys_mgr = m, sys_running = providers m, sys_inbox = (\<lambda>_. []), sys_received = [],
              sys_sent = (\<lambda>_. None)\<rparr>"

text \<open>What the reader takes while an update is between its two \<open>select\<close> statements.\<close>

definition read_during :: "nat \<Rightarrow> 'a list \<Rightarrow> 'a list" where
  "read_during taken ch = (if length ch < notify_capacity then [] else take taken ch)"

inductive disc_step :: "discovery_system \<Rightarrow> discovery_system \<Rightarrow> bool" where
  publish: "p \<in> set (sys_running s) \<Longrightarrow> length (sys_inbox s p) < provider_capacity \<Longrightarrow>
    disc_step s (s\<lparr>sys_inbox := (sys_inbox s)(p := sys_inbox s p @ [ts]),
                   sys_sent := (sys_sent s)(p \<mapsto> ts)\<rparr>)"
| forward: "sys_inbox s p = ts # rest \<Longrightarrow> merge_order_ok r \<Longrightarrow>
    updateTargets r taken p ts (sys_mgr s) = Some m' \<Longrightarrow>
    disc_step s (s\<lparr>sys_mgr := m', sys_inbox := (sys_inbox s)(p := rest),
                   sys_received := sys_received s @ read_during taken (notifyCh (sys_mgr s))\<rparr>)"
| receive: "notifyCh (sys_mgr s) = ts # rest \<Longrightarrow>
    disc_step s (s\<lparr>sys_mgr := (sys_mgr s)\<lparr>notifyCh := rest\<rparr>,
                   sys_received := sys_received s @ [ts]\<rparr>)"

inductive_cases disc_step_cases: "disc_step s s'"

definition disc_reachable :: "DiscoveryManager \<Rightarrow> discovery_system \<Rightarrow> bool" where
  "disc_reachable m s = disc_step\<^sup>*\<^sup>* (Start m) s"

fun synced :: "Target list option \<Rightarrow> Target list list \<Rightarrow> (string, Target) gomap option \<Rightarrow> bool" where
  "synced None inbox filed = (inbox = [] \<and> filed = None)"
| "synced (Some ts) inbox filed =
     (if inbox = [] then filed = Some (provider_map ts) else last inbox = ts)"

definition provider_synced :: "discovery_system \<Rightarrow> string \<Rightarrow> bool" where
  "provider_synced s p = synced (sys_sent s p) (sys_inbox s p) (gm_get (targets (sys_mgr s)) p)"

definition reader_synced :: "discovery_system \<Rightarrow> bool" where
  "reader_synced s \<longleftrightarrow>
     targets (sys_mgr s) = [] \<or>
     (\<exists>r early. merge_order_ok r \<and>
        sys_received s @ notifyCh (sys_mgr s) = early @ [merged r (targets (sys_mgr s))])"

definition sys_inv :: "discovery_system \<Rightarrow> bool" where
  "sys_inv s \<longleftrightarrow> disc_inv (sys_mgr s) \<and> (\<forall>p. provider_synced s p) \<and> reader_synced s"

lemma Start_inv: "disc_inv m \<Longrightarrow> targets m = [] \<Longrightarrow> sys_inv (Start m)"
  by (simp add: sys_inv_def Start_def provider_synced_def reader_synced_def)

lemma publish_inv:
  assumes "sys_inv s"
  shows "sys_inv (s\<lparr>sys_inbox := (sys_inbox s)(p := sys_inbox s p @ [ts]),
                   sys_sent := (sys_sent s)(p \<mapsto> ts)\<rparr>)"
  using assms by (simp add: sys_inv_def provider_synced_def reader_synced_def)

lemma receive_inv:
  assumes "sys_inv s" and "notifyCh (sys_mgr s) = ts # rest"
  shows "sys_inv (s\<lparr>sys_mgr := (sys_mgr s)\<lparr>notifyCh := rest\<rparr>, sys_received := sys_received s @ [ts]\<rparr>)"
  using assms
  by (auto simp: sys_inv_def disc_inv_def provider_synced_def reader_synced_def)

lemma forward_inv:
  assumes inv: "sys_inv s" and p: "sys_inbox s p = ts # rest" and r: "merge_order_ok r"
    and up: "updateTargets r taken p ts (sys_mgr s) = Some m'"
  shows "sys_inv (s\<lparr>sys_mgr := m', sys_inbox := (sys_inbox s)(p := rest),
                    sys_received := sys_received s @ read_during taken (notifyCh (sys_mgr s))\<rparr>)"
proof -
  have d: "disc_inv (sys_mgr s)" using inv by (simp add: sys_inv_def)
  obtain ch where m': "targets m' = gm_put p (provider_map ts) (targets (sys_mgr s))"
    "notifyCh m' = ch @ [merged r (targets m')]" "disc_inv m'"
    by (rule updateTargets_obtain [OF d, of r taken p ts]) (use up in auto)
  have sync: "provider_synced s q" for q using inv by (simp add: sys_inv_def)
  have "provider_synced (s\<lparr>sys_mgr := m', sys_inbox := (sys_inbox s)(p := rest),
      sys_received := sys_received s @ read_during taken (notifyCh (sys_mgr s))\<rparr>) q" for q
    using sync [of q] p m'(1)
    by (cases "sys_sent s q") (auto simp: provider_synced_def split: if_splits)
  then show ?thesis
    using m'(2,3) r by (auto simp: sys_inv_def reader_synced_def)
qed

lemma disc_step_inv: "disc_step s s' \<Longrightarrow> sys_inv s \<Longrightarrow> sys_inv s'"
  by (erule disc_step_cases) (auto intro: publish_inv forward_inv receive_inv)

lemma disc_reachable_inv:
  assumes "disc_reachable m s" and "disc_inv m" and "targets m = []"
  shows "sys_inv s"
  using assms(1) unfolding disc_reachable_def
  by (induction rule: rtranclp_induct) (auto intro: disc_step_inv Start_inv assms(2,3))

lemma initial_manager:
  "disc_inv (fold RegisterProvider ps NewManager) \<and> targets (fold RegisterProvider ps NewManager) = []
    \<and> providers (fold RegisterProvider ps NewManager) = ps"
  by (induction ps rule: rev_induct) (simp_all add: RegisterProvider_def disc_inv_def NewManager_def)

section \<open>Properties\<close>

text \<open>C4: However the providers, the forwarders and the reader interleave, the notification buffer
  never exceeds its capacity and no update blocks on its send, whatever the reader takes
  meanwhile; so the mutex is always released.\<close>

theorem updates_never_block:
  assumes "disc_reachable (fold RegisterProvider ps NewManager) s"
  shows "length (notifyCh (sys_mgr s)) \<le> notify_capacity
    \<and> (\<forall>r taken p ts. updateTargets r taken p ts (sys_mgr s) \<noteq> None)"
proof -
  have "disc_inv (sys_mgr s)"
    using disc_reachable_inv [OF assms] initial_manager by (simp add: sys_inv_def)
  moreover from this have "updateTargets r taken p ts (sys_mgr s) \<noteq> None" for r taken p ts
    by (rule updateTargets_obtain [where r = r and taken = taken and p = p and ts = ts]) simp
  ultimately show ?thesis by (simp add: disc_inv_def)
qed

lemma settled_tables:
  assumes "sys_inv s" and "\<And>p. sys_inbox s p = []"
  shows "gm_get (targets (sys_mgr s)) p = map_option provider_map (sys_sent s p)"
proof -
  have "provider_synced s p" using assms(1) by (simp add: sys_inv_def)
  then show ?thesis using assms(2) [of p] by (cases "sys_sent s p") (simp_all add: provider_synced_def)
qed

lemma settled_reader:
  assumes "disc_reachable (fold RegisterProvider ps NewManager) s"
    and "\<And>p. sys_inbox s p = []" and "notifyCh (sys_mgr s) = []"
    and "sys_sent s p0 = Some ts0"
  shows "\<exists>early result. sys_received s = early @ [result] \<and> distinct (map ID result)
    \<and> ID ` set result = {target_key t |t p ts. sys_sent s p = Some ts \<and> t \<in> set ts}
    \<and> set result \<subseteq> {fill_id t |t p ts. sys_sent s p = Some ts \<and> t \<in> set ts}"
proof -
  have inv: "sys_inv s"
    using disc_reachable_inv [OF assms(1)] initial_manager by blast
  have tab: "gm_get (targets (sys_mgr s)) p = map_option provider_map (sys_sent s p)" for p
    by (rule settled_tables) (use inv assms(2) in auto)
  have ran: "ran (gm_get (targets (sys_mgr s))) = provider_map ` {ts. \<exists>p. sys_sent s p = Some ts}"
    by (auto simp: ran_def tab)
  have "gm_get (targets (sys_mgr s)) p0 \<noteq> None" using tab assms(4) by simp
  then have "targets (sys_mgr s) \<noteq> []" by auto
  with inv assms(3) obtain r early where r: "merge_order_ok r"
    and last: "sys_received s = early @ [merged r (targets (sys_mgr s))]"
    by (auto simp: sys_inv_def reader_synced_def)
  have d: "disc_inv (sys_mgr s)" using inv by (simp add: sys_inv_def)
  note m = merged_facts [OF r d]
  have ids: "ID ` set (merged r (targets (sys_mgr s)))
      = {target_key t |t p ts. sys_sent s p = Some ts \<and> t \<in> set ts}"
    unfolding m(2) ran UN_simps(10) provider_map_keys by blast
  have "t \<in> {fill_id t |t p ts. sys_sent s p = Some ts \<and> t \<in> set ts}"
    if "t \<in> set (merged r (targets (sys_mgr s)))" for t
  proof -
    from m(3) [OF that] obtain p ts where "sys_sent s p = Some ts"
      "gm_get (provider_map ts) (ID t) = Some t" by (auto simp: ran)
    then show ?thesis by (fastforce simp: provider_map_get dest!: find_Some_in)
  qed
  with m(1) ids last show ?thesis by blast
qed

text \<open>C11: Nothing a provider reports last is lost. Once the channels are empty, whatever the
  interleaving was and however many notifications were dropped, the last list the reader
  received has exactly one target for every ID in the last list of any provider, each of them a
  target of such a list, with an empty ID replaced by the name.\<close>

theorem discovery_converges:
  assumes "disc_reachable (fold RegisterProvider ps NewManager) s"
    and "\<And>p. sys_inbox s p = []" and "notifyCh (sys_mgr s) = []"
    and "sys_sent s p0 = Some ts0"
  shows "\<exists>early result. sys_received s = early @ [result] \<and> distinct (map ID result)
    \<and> ID ` set result = {target_key t |t p ts. sys_sent s p = Some ts \<and> t \<in> set ts}
    \<and> set result \<subseteq> {fill_id t |t p ts. sys_sent s p = Some ts \<and> t \<in> set ts}"
  by (rule settled_reader [OF assms])

text \<open>A run of one provider that publishes one list.\<close>

definition sample_target :: Target where
  "sample_target = \<lparr>ID = [], Name = ''vm1'', Endpoint = ''10.0.0.5:5555'', Tenant = [], NetNS = [],
                    Labels = None, CustomArgs = []\<rparr>"

lemma sample_run:
  "\<exists>s. disc_reachable (fold RegisterProvider [p] NewManager) s \<and> sys_inbox s = (\<lambda>_. [])
     \<and> notifyCh (sys_mgr s) = [] \<and> sys_sent s = [p \<mapsto> [sample_target]] \<and> length (sys_received s) = 1"
proof -
  obtain m where m: "m = fold RegisterProvider [p] NewManager" by simp
  have fields: "providers m = [p]" "notifyCh m = []" "disc_inv m"
    by (simp_all add: m RegisterProvider_def NewManager_def disc_inv_def)
  obtain s1 where s1: "disc_step (Start m) s1" "sys_mgr s1 = m"
    "sys_inbox s1 = (\<lambda>_. [])(p := [[sample_target]])" "sys_received s1 = []"
    "sys_sent s1 = [p \<mapsto> [sample_target]]"
    using publish [of "p" "Start m" "[sample_target]"] fields(1)
    by (force simp: Start_def provider_capacity_def)
  let ?r = "\<lparr>order_providers = \<lambda>m. m, order_targets = \<lambda>m. m, order_unified = \<lambda>m. m\<rparr>"
  obtain m' ch where m': "updateTargets ?r 0 p [sample_target] m = Some m'"
    "notifyCh m' = ch @ [merged ?r (targets m')]" "set ch \<subseteq> set (notifyCh m)"
    using fields(3)
    by (rule updateTargets_obtain [where r = ?r and taken = 0 and p = "p" and ts = "[sample_target]"])
  have ch: "notifyCh m' = [merged ?r (targets m')]" using m'(2,3) fields(2) by simp
  obtain s2 where s2: "disc_step s1 s2" "sys_mgr s2 = m'" "sys_inbox s2 = (\<lambda>_. [])"
    "sys_sent s2 = [p \<mapsto> [sample_target]]" "sys_received s2 = []"
    using forward [of s1 "p" "[sample_target]" "[]" ?r 0 m'] s1 m'(1)
    using fields(2) by (force simp: merge_order_ok_def read_during_def notify_capacity_def)
  obtain s3 where s3: "disc_step s2 s3" "notifyCh (sys_mgr s3) = []" "sys_inbox s3 = (\<lambda>_. [])"
    "sys_sent s3 = [p \<mapsto> [sample_target]]" "length (sys_received s3) = 1"
    using receive [of s2 "merged ?r (targets m')" "[]"] s2 ch by force
  have "disc_reachable m s3"
    unfolding disc_reachable_def
    by (rule rtranclp.rtrancl_into_rtrancl
          [OF rtranclp.rtrancl_into_rtrancl [OF r_into_rtranclp [of disc_step, OF s1(1)] s2(1)] s3(1)])
  with s3 show ?thesis unfolding m by blast
qed

theorem updates_never_block_witness:
  "\<exists>s :: discovery_system. length (notifyCh (sys_mgr s)) \<le> notify_capacity \<and> sys_sent s = [''static'' \<mapsto> [sample_target]]
    \<and> (\<forall>r taken p ts. updateTargets r taken p ts (sys_mgr s) \<noteq> None)"
proof -
  obtain s where s: "disc_reachable (fold RegisterProvider [''static''] NewManager) s"
    "sys_sent s = [''static'' \<mapsto> [sample_target]]" using sample_run by blast
  then show ?thesis using updates_never_block [OF s(1)] by (intro exI [of _ s]) simp
qed

theorem discovery_converges_witness:
  "\<exists>s early result. disc_reachable (fold RegisterProvider [''static''] NewManager) s
     \<and> sys_received s = early @ [result] \<and> result = [sample_target\<lparr>ID := ''vm1''\<rparr>]"
proof -
  obtain s where s: "disc_reachable (fold RegisterProvider [''static''] NewManager) s"
    "sys_inbox s = (\<lambda>_. [])" "notifyCh (sys_mgr s) = []"
    "sys_sent s = [''static'' \<mapsto> [sample_target]]" using sample_run by blast
  from discovery_converges [OF s(1), of "''static''" "[sample_target]"] s(2-4)
  obtain early result where e: "sys_received s = early @ [result]" "distinct (map ID result)"
    "ID ` set result = {target_key t |t p ts. sys_sent s p = Some ts \<and> t \<in> set ts}"
    "set result \<subseteq> {fill_id t |t p ts. sys_sent s p = Some ts \<and> t \<in> set ts}" by auto
  have "set result \<subseteq> {sample_target\<lparr>ID := ''vm1''\<rparr>}"
    using e(4) by (auto simp: s(4) fill_id_def sample_target_def split: if_splits)
  moreover have "result \<noteq> []"
    using e(3) by (auto simp: s(4) split: if_splits)
  ultimately have "result = [sample_target\<lparr>ID := ''vm1''\<rparr>]"
    using e(2) by (cases result; cases "tl result") auto
  with s(1) e(1) show ?thesis by blast
qed

text \<open>C32: A target ID that two providers report with different data is resolved by the iteration
  order of Go maps: for the same provider tables one order yields the first provider's target and
  another one the second provider's, so the merged list may change although no provider did.\<close>

theorem shared_ID_not_determined:
  assumes "ID t1 = i" and "ID t2 = i" and "i \<noteq> []" and "p1 \<noteq> p2"
  shows "\<exists>r1 r2. merge_order_ok r1 \<and> merge_order_ok r2
    \<and> merged r1 (gm_put p2 (provider_map [t2]) (gm_put p1 (provider_map [t1]) [])) = [t1]
    \<and> merged r2 (gm_put p2 (provider_map [t2]) (gm_put p1 (provider_map [t1]) [])) = [t2]"
proof (intro exI conjI)
  let ?r1 = "\<lparr>order_providers = rev, order_targets = \<lambda>m. m, order_unified = \<lambda>m. m\<rparr>"
  let ?r2 = "\<lparr>order_providers = \<lambda>m. m, order_targets = \<lambda>m. m, order_unified = \<lambda>m. m\<rparr>"
  show "merge_order_ok ?r1" "merge_order_ok ?r2" by (simp_all add: merge_order_ok_def)
  show "merged ?r1 (gm_put p2 (provider_map [t2]) (gm_put p1 (provider_map [t1]) [])) = [t1]"
    "merged ?r2 (gm_put p2 (provider_map [t2]) (gm_put p1 (provider_map [t1]) [])) = [t2]"
    using assms by (simp_all add: merged_def unify_def gm_copy_into_def gm_put_def provider_map_def fill_id_def)
qed

theorem shared_ID_not_determined_witness:
  "\<exists>r1 r2. merge_order_ok r1 \<and> merge_order_ok r2
     \<and> map Tenant (merged r1 (gm_put ''nova'' (provider_map [sample_target\<lparr>ID := ''vm1'', Tenant := ''b''\<rparr>])
                      (gm_put ''libvirt'' (provider_map [sample_target\<lparr>ID := ''vm1''\<rparr>]) []))) = [[]]
     \<and> map Tenant (merged r2 (gm_put ''nova'' (provider_map [sample_target\<lparr>ID := ''vm1'', Tenant := ''b''\<rparr>])
                      (gm_put ''libvirt'' (provider_map [sample_target\<lparr>ID := ''vm1''\<rparr>]) []))) = [''b'']"
proof -
  obtain r1 r2 where "merge_order_ok r1" "merge_order_ok r2"
    "merged r1 (gm_put ''nova'' (provider_map [sample_target\<lparr>ID := ''vm1'', Tenant := ''b''\<rparr>])
       (gm_put ''libvirt'' (provider_map [sample_target\<lparr>ID := ''vm1''\<rparr>]) [])) = [sample_target\<lparr>ID := ''vm1''\<rparr>]"
    "merged r2 (gm_put ''nova'' (provider_map [sample_target\<lparr>ID := ''vm1'', Tenant := ''b''\<rparr>])
       (gm_put ''libvirt'' (provider_map [sample_target\<lparr>ID := ''vm1''\<rparr>]) []))
       = [sample_target\<lparr>ID := ''vm1'', Tenant := ''b''\<rparr>]"
    using shared_ID_not_determined [of "sample_target\<lparr>ID := ''vm1''\<rparr>" "''vm1''"
        "sample_target\<lparr>ID := ''vm1'', Tenant := ''b''\<rparr>" "''libvirt''" "''nova''"]
    by auto
  then show ?thesis by (intro exI [of _ r1] exI [of _ r2]) (simp add: sample_target_def)
qed

end
