(* ===== verification/Polling.thy ===== *)
theory Polling
  imports Discovery Instance
begin

text \<open>
  The contract of the interface \<open>discovery.Provider\<close> and the \<open>Run\<close> loop the polling providers share
  (\<open>file.go\<close>, \<open>libvirt.go\<close>, \<open>nova.go\<close>): scan at the start and at every tick of the poll interval, send the
  result of a scan that succeeds, log and skip one that fails. A round of the loop depends on what
  the world outside looks like at that time; a run is given by the rounds that took place before the
  context was cancelled. Waiting for room in the channel is part of the system in \<open>Discovery\<close>, whose
  step \<open>publish\<close> is one send. The provider of package \<open>static\<close> sends its targets once.
\<close>

section \<open>The loop\<close>

definition poll_round ::
  "('w \<Rightarrow> 'st \<Rightarrow> ('e + Target list) \<times> 'st) \<Rightarrow> 'w \<Rightarrow> 'st \<times> Target list list \<Rightarrow> 'st \<times> Target list list" where
  "poll_round scan w run =
     (case run of (st, sent) \<Rightarrow>
      case scan w st of
        (Inl _, st') \<Rightarrow> (st', sent)
      | (Inr ts, st') \<Rightarrow> (st', sent @ [ts]))"

definition poll_run ::
  "('w \<Rightarrow> 'st \<Rightarrow> ('e + Target list) \<times> 'st) \<Rightarrow> 'w list \<Rightarrow> 'st \<Rightarrow> 'st \<times> Target list list" where
  "poll_run scan ws st = fold (poll_round scan) ws (st, [])"

lemma poll_run_Nil [simp]: "poll_run scan [] st = (st, [])"
  by (simp add: poll_run_def)

lemma poll_run_snoc: "poll_run scan (ws @ [w]) st = poll_round scan w (poll_run scan ws st)"
  by (simp add: poll_run_def)

text \<open>Without a state of its own a provider sends exactly the successful scans, in order.\<close>

lemma poll_run_stateless:
  "snd (poll_run (\<lambda>w st. (scan w, st)) ws st) =
     List.map_filter (\<lambda>w. case scan w of Inl _ \<Rightarrow> None | Inr ts \<Rightarrow> Some ts) ws"
proof (induction ws rule: rev_induct)
  case (snoc w ws)
  obtain st1 sent where "poll_run (\<lambda>w st. (scan w, st)) ws st = (st1, sent)" by fastforce
  with snoc show ?case
    by (simp add: map_filter_append poll_run_snoc poll_round_def List.map_filter_simps split: sum.split)
qed (simp add: List.map_filter_simps)

section \<open>The contract\<close>

text \<open>
  \<open>valid\<close> says what the outside world is relied on for, \<open>inv\<close> is the invariant of the provider's own
  state and \<open>good\<close> what it promises about every target it reports.
\<close>

locale polling_provider =
  fixes scan :: "'w \<Rightarrow> 'st \<Rightarrow> ('e + Target list) \<times> 'st"
    and valid :: "'w \<Rightarrow> bool" and inv :: "'st \<Rightarrow> bool" and good :: "Target \<Rightarrow> bool"
  assumes scan_inv: "valid w \<Longrightarrow> inv st \<Longrightarrow> inv (snd (scan w st))"
    and scan_good: "valid w \<Longrightarrow> inv st \<Longrightarrow> fst (scan w st) = Inr ts \<Longrightarrow> t \<in> set ts \<Longrightarrow> good t"
begin

lemma round_keeps:
  assumes "valid w" and "inv st" and "list_all (list_all good) sent"
  shows "inv (fst (poll_round scan w (st, sent))) \<and> list_all (list_all good) (snd (poll_round scan w (st, sent)))"
  using assms scan_inv [of w st] scan_good [of w st]
  by (auto simp: poll_round_def list_all_iff split: prod.splits sum.splits)

lemma run_keeps:
  assumes "list_all valid ws" and "inv st"
  shows "inv (fst (poll_run scan ws st)) \<and> list_all (list_all good) (snd (poll_run scan ws st))"
  using assms
proof (induction ws rule: rev_induct)
  case (snoc w ws)
  then show ?case
    using round_keeps [of w "fst (poll_run scan ws st)" "snd (poll_run scan ws st)"]
    by (simp add: poll_run_snoc)
qed simp

lemma every_target_good:
  assumes "list_all valid ws" and "inv st" and "ts \<in> set (snd (poll_run scan ws st))" and "t \<in> set ts"
  shows "good t"
  using run_keeps [OF assms(1,2)] assms(3,4) by (simp add: list_all_iff)

lemma at_most_one_list_per_round: "length (snd (poll_run scan ws st)) \<le> length ws"
proof (induction ws rule: rev_induct)
  case (snoc w ws)
  obtain st1 sent where "poll_run scan ws st = (st1, sent)" by fastforce
  with snoc show ?case
    by (auto simp: poll_run_snoc poll_round_def split: prod.split sum.split)
qed simp

end

section \<open>Endpoints of reported addresses\<close>

text \<open>
  What the tools that report guest addresses are relied on for: an IPv4 address or host name, or an
  IPv6 address, possibly with a scope, that is not an IPv4 address in IPv6 form. The libvirt and nova
  providers turn such an address into an endpoint with \<open>NormalizeEndpoint\<close>.
\<close>

definition reported_address :: "string \<Rightarrow> bool" where
  "reported_address a \<longleftrightarrow>
     a \<noteq> [] \<and> plain_byte (last a) \<and> bracket_free a \<and> (CHR '':'' \<notin> set a \<or> IsIPv6 a)"

text \<open>An endpoint that the supervisor stores as it is.\<close>

definition stored_as_is :: "Target \<Rightarrow> bool" where
  "stored_as_is t \<longleftrightarrow> normalized_target t = t"

lemma normal_stored_as_is: "normal_endpoint (Endpoint t) \<Longrightarrow> stored_as_is t"
  using normal_endpoint_stable [of "Endpoint t" 5555] by (simp add: stored_as_is_def normalized_target_def)

lemma reported_address_normal:
  assumes "reported_address a" and "NormalizeEndpoint (''tcp://'' @ a) port = Inr r"
  shows "normal_endpoint r"
proof -
  have t: "strings_TrimSpace (''tcp://'' @ a) = ''tcp://'' @ a"
    using assms(1) by (intro TrimSpace_plain) (simp_all add: reported_address_def)
  have "strings_CountByte a (CHR '':'') = 0" if "CHR '':'' \<notin> set a"
    using that by (simp add: strings_CountByte_def filter_empty_conv) (metis)
  then have "strings_CountByte a (CHR '':'') \<le> 1 \<or> IsIPv6 a"
    using assms(1) by (auto simp: reported_address_def)
  then have "well_formed_endpoint (''tcp://'' @ a)"
    using assms(1) unfolding well_formed_endpoint_def Let_def t endpoint_rem_tcp
    by (auto simp: well_formed_rem_def reported_address_def)
  then show ?thesis using assms(2) by (rule NormalizeEndpoint_normal)
qed

lemma scoped_address_reported:
  assumes "reported_address a" and "bracket_free iface" and "iface \<noteq> [] \<longrightarrow> plain_byte (last iface)"
  shows "reported_address (AttachScopeIfLinkLocal a iface)"
proof (cases "iface = [] \<or> \<not> IsLinkLocal a \<or> strings_Contains a ''%''")
  case True
  with assms(1) show ?thesis by (auto simp: AttachScopeIfLinkLocal_def)
next
  case False
  then have ll: "IsLinkLocal a" and z: "CHR ''%'' \<notin> set a" and i: "iface \<noteq> []" by (simp_all add: Contains_byte)
  have nb: "\<not> strings_HasPrefix x ''[''" if "bracket_free x" for x
    using that by (auto simp: HasPrefix_iff bracket_free_def)
  have free: "bracket_free a" "bracket_free (a @ CHR ''%'' # iface)"
    using assms by (simp_all add: reported_address_def bracket_free_def)
  have "IsLinkLocal (a @ CHR ''%'' # iface) = IsLinkLocal a"
    by (rule IsLinkLocal_cong) (simp add: stripBrackets_plain nb free stripZone_none stripZone_scoped z)
  then have "IsIPv6 (a @ CHR ''%'' # iface)" using ll IsLinkLocal_IsIPv6 by blast
  then show ?thesis
    using assms False free nb [OF free(1)] i by (simp add: AttachScopeIfLinkLocal_def reported_address_def)
qed

section \<open>The static provider\<close>

definition static_NewProvider :: "Target list \<Rightarrow> Target list" where
  "static_NewProvider ts = ts"

definition static_Run :: "Target list \<Rightarrow> Target list list" where
  "static_Run ts = [ts]"

end
