(* ===== verification/FileDiscovery.thy ===== *)
theory FileDiscovery
  imports Polling
begin

text \<open>
  Package \<open>internal/pkg/discovery/file\<close> (\<open>file.go\<close>): targets from the YAML and JSON files of a
  directory. The directory is an argument: what \<open>os.Stat\<close>, \<open>os.ReadDir\<close> and \<open>os.ReadFile\<close> return. The
  decoder is the third-party package \<open>yaml.v3\<close>: \<open>unmarshal_list\<close> and \<open>unmarshal_single\<close> are its result
  for a list of targets and for one target, \<open>None\<close> an error.
\<close>

section \<open>Parsing a file\<close>

record file_decoder =
  unmarshal_list :: "string \<Rightarrow> Target list option"
  unmarshal_single :: "string \<Rightarrow> Target option"

datatype file_error =
    ReadFailed
  | NoValidTarget
  | DirectoryMissing string
  | ReadDirFailed

definition parseTargetFile ::
  "file_decoder \<Rightarrow> (string \<Rightarrow> string option) \<Rightarrow> string \<Rightarrow> file_error + Target list" where
  "parseTargetFile y readFile path =
     (case readFile path of
        None \<Rightarrow> Inl ReadFailed
      | Some data \<Rightarrow>
          (let single =
             (case unmarshal_single y data of
                None \<Rightarrow> Inl NoValidTarget
              | Some single \<Rightarrow>
                  (if Endpoint single \<noteq> []
                   then Inr [if ID single = [] then single\<lparr>ID := Name single\<rparr> else single]
                   else Inl NoValidTarget))
           in case unmarshal_list y data of
                None \<Rightarrow> single
              | Some ts \<Rightarrow> if 0 < length ts then Inr ts else single))"

section \<open>Scanning the directory\<close>

record FileProvider =
  fp_dir :: string
  fp_pollInterval :: int

definition file_NewProvider :: "string \<Rightarrow> int \<Rightarrow> FileProvider" where
  "file_NewProvider dir pollInterval =
     \<lparr>fp_dir = dir,
      fp_pollInterval = (if pollInterval \<le> 0 then DefaultFilePollInterval else pollInterval)\<rparr>"

text \<open>An entry is its name and whether it is a directory.\<close>

record file_system =
  fs_missing :: "string \<Rightarrow> bool"
  fs_ReadDir :: "string \<Rightarrow> (string \<times> bool) list option"
  fs_ReadFile :: "string \<Rightarrow> string option"

definition target_file_name :: "string \<Rightarrow> bool" where
  "target_file_name name =
     (let ext = strings_ToLower (filepath_Ext name)
      in \<not> (ext \<noteq> ''.yaml'' \<and> ext \<noteq> ''.yml'' \<and> ext \<noteq> ''.json''))"

definition scan_entry ::
  "file_decoder \<Rightarrow> file_system \<Rightarrow> string \<Rightarrow> string \<times> bool \<Rightarrow> Target list \<Rightarrow> Target list" where
  "scan_entry y fs dir entry allTargets =
     (if snd entry then allTargets
      else if \<not> target_file_name (fst entry) then allTargets
      else case parseTargetFile y (fs_ReadFile fs) (filepath_Join dir (fst entry)) of
        Inl _ \<Rightarrow> allTargets
      | Inr ts \<Rightarrow> allTargets @ ts)"

definition scanDirectory :: "file_decoder \<Rightarrow> FileProvider \<Rightarrow> file_system \<Rightarrow> file_error + Target list" where
  "scanDirectory y p fs =
     (if fs_missing fs (fp_dir p) then Inl (DirectoryMissing (fp_dir p))
      else case fs_ReadDir fs (fp_dir p) of
        None \<Rightarrow> Inl ReadDirFailed
      | Some entries \<Rightarrow> Inr (fold (scan_entry y fs (fp_dir p)) entries []))"

definition file_Run :: "file_decoder \<Rightarrow> FileProvider \<Rightarrow> file_system list \<Rightarrow> Target list list" where
  "file_Run y p rounds = snd (poll_run (\<lambda>fs (_ :: unit). (scanDirectory y p fs, ())) rounds ())"

section \<open>One file does not affect another\<close>

definition file_targets :: "file_decoder \<Rightarrow> file_system \<Rightarrow> string \<Rightarrow> string \<times> bool \<Rightarrow> Target list" where
  "file_targets y fs dir entry =
     (if snd entry \<or> \<not> target_file_name (fst entry) then []
      else case parseTargetFile y (fs_ReadFile fs) (filepath_Join dir (fst entry)) of
        Inl _ \<Rightarrow> [] | Inr ts \<Rightarrow> ts)"

lemma scan_entries: "fold (scan_entry y fs dir) entries acc = acc @ concat (map (file_targets y fs dir) entries)"
  by (induction entries arbitrary: acc) (simp_all add: scan_entry_def file_targets_def split: sum.split)

text \<open>The files give every target of a list an endpoint; a single target without one is rejected.\<close>

definition lists_have_endpoints :: "file_decoder \<Rightarrow> file_system \<Rightarrow> bool" where
  "lists_have_endpoints y fs \<longleftrightarrow>
     (\<forall>path data us. fs_ReadFile fs path = Some data \<and> unmarshal_list y data = Some us
        \<longrightarrow> list_all (\<lambda>u. Endpoint u \<noteq> []) us)"

lemma parse_has_endpoint:
  assumes "parseTargetFile y (fs_ReadFile fs) path = Inr ts" and "t \<in> set ts" and "lists_have_endpoints y fs"
  shows "Endpoint t \<noteq> []"
proof -
  from assms(1) obtain data where d: "fs_ReadFile fs path = Some data"
    by (auto simp: parseTargetFile_def split: option.splits)
  have "Endpoint t \<noteq> []" if "unmarshal_list y data = Some ts"
    using assms(2,3) d that by (auto simp: lists_have_endpoints_def list_all_iff)
  with assms(1,2) d show ?thesis
    by (auto simp: parseTargetFile_def Let_def split: option.splits if_splits)
qed

lemma scan_has_endpoint:
  assumes "scanDirectory y p fs = Inr ts" and "t \<in> set ts" and "lists_have_endpoints y fs"
  shows "Endpoint t \<noteq> []"
proof -
  from assms(1,2) obtain e where "t \<in> set (file_targets y fs (fp_dir p) e)"
    by (auto simp: scanDirectory_def scan_entries split: if_splits option.splits)
  then show ?thesis
    using parse_has_endpoint [OF _ _ assms(3)]
    by (cases "parseTargetFile y (fs_ReadFile fs) (filepath_Join (fp_dir p) (fst e))")
      (auto simp: file_targets_def split: if_splits)
qed

interpretation file_provider: polling_provider
  "\<lambda>fs (_ :: unit). (scanDirectory y p fs, ())" "lists_have_endpoints y" "\<lambda>_. True" "\<lambda>t. Endpoint t \<noteq> []"
  for y p
  by unfold_locales (auto dest: scan_has_endpoint)

text \<open>C39: The file provider reports the targets of all files it can parse, whatever happens to the
  others: after every round whose directory can be listed it sends the concatenation, in directory
  order, of what each target file gives by itself, and after every other round nothing. A target
  with no endpoint is never reported unless it stands in a list.\<close>

theorem file_Run_is_per_file:
  "file_Run y p rounds =
     List.map_filter
       (\<lambda>fs. if fs_missing fs (fp_dir p) then None
             else map_option (\<lambda>entries. concat (map (file_targets y fs (fp_dir p)) entries)) (fs_ReadDir fs (fp_dir p)))
       rounds
   \<and> (list_all (lists_have_endpoints y) rounds
      \<longrightarrow> list_all (list_all (\<lambda>t. Endpoint t \<noteq> [])) (file_Run y p rounds))"
proof
  have "file_Run y p rounds
      = List.map_filter (\<lambda>fs. case scanDirectory y p fs of Inl _ \<Rightarrow> None | Inr ts \<Rightarrow> Some ts) rounds"
    unfolding file_Run_def using poll_run_stateless [of "scanDirectory y p" rounds "()"] by simp
  also have "(\<lambda>fs. case scanDirectory y p fs of Inl _ \<Rightarrow> None | Inr ts \<Rightarrow> Some ts)
      = (\<lambda>fs. if fs_missing fs (fp_dir p) then None
            else map_option (\<lambda>entries. concat (map (file_targets y fs (fp_dir p)) entries)) (fs_ReadDir fs (fp_dir p)))"
    by (rule ext) (simp add: scanDirectory_def scan_entries split: option.split)
  finally show "file_Run y p rounds = List.map_filter
      (\<lambda>fs. if fs_missing fs (fp_dir p) then None
            else map_option (\<lambda>entries. concat (map (file_targets y fs (fp_dir p)) entries)) (fs_ReadDir fs (fp_dir p)))
      rounds" .
  show "list_all (lists_have_endpoints y) rounds
      \<longrightarrow> list_all (list_all (\<lambda>t. Endpoint t \<noteq> [])) (file_Run y p rounds)"
    using file_provider.run_keeps [where ws = rounds and st = "()"] by (simp add: file_Run_def)
qed

text \<open>A directory with a broken file and a good one.\<close>

definition sample_decoder :: file_decoder where
  "sample_decoder = \<lparr>unmarshal_list = (\<lambda>_. None),
     unmarshal_single = (\<lambda>d. if d = ''ok'' then Some (sample_target\<lparr>Name := ''vm2''\<rparr>) else None)\<rparr>"

definition sample_directory :: file_system where
  "sample_directory = \<lparr>fs_missing = (\<lambda>_. False),
     fs_ReadDir = (\<lambda>_. Some [(''a.yaml'', False), (''b.JSON'', False), (''notes.txt'', False), (''old.yml'', True)]),
     fs_ReadFile = (\<lambda>p. Some (if p = ''/t/b.JSON'' then ''ok'' else ''broken''))\<rparr>"

theorem file_Run_is_per_file_witness:
  "file_Run sample_decoder (file_NewProvider ''/t'' 0) [sample_directory\<lparr>fs_ReadDir := \<lambda>_. None\<rparr>, sample_directory]
     = [[sample_target\<lparr>ID := ''vm2'', Name := ''vm2''\<rparr>]]"
proof -
  have j: "filepath_Join ''/t'' ''a.yaml'' = ''/t/a.yaml''" "filepath_Join ''/t'' ''b.JSON'' = ''/t/b.JSON''"
    by (simp_all add: go_eval)
  have n: "target_file_name ''a.yaml''" "target_file_name ''b.JSON''" "\<not> target_file_name ''notes.txt''"
    by (simp_all add: target_file_name_def go_eval)
  have f: "file_targets sample_decoder sample_directory ''/t'' (''a.yaml'', False) = []"
    "file_targets sample_decoder sample_directory ''/t'' (''b.JSON'', False) = [sample_target\<lparr>ID := ''vm2'', Name := ''vm2''\<rparr>]"
    "file_targets sample_decoder sample_directory ''/t'' (''notes.txt'', False) = []"
    "file_targets sample_decoder sample_directory ''/t'' (''old.yml'', True) = []"
    by (simp_all add: file_targets_def n j parseTargetFile_def sample_decoder_def sample_directory_def sample_target_def)
  show ?thesis
    using file_Run_is_per_file [of sample_decoder "file_NewProvider ''/t'' 0"
        "[sample_directory\<lparr>fs_ReadDir := \<lambda>_. None\<rparr>, sample_directory]"] f
    by (simp add: file_NewProvider_def List.map_filter_simps) (simp add: sample_directory_def)
qed

end
