(* ===== verification/Libvirt.thy ===== *)
theory Libvirt
  imports Polling
begin

text \<open>
  Package \<open>internal/pkg/discovery/libvirt\<close> (\<open>libvirt.go\<close>, \<open>domain_xml.go\<close>): targets from the running
  libvirt domains, through the \<open>virsh\<close> command or, when that fails, from the XML files of the QEMU
  driver. The host is an argument: where \<open>virsh\<close> is, what a command prints (\<open>None\<close> when it fails) and
  what directories and files hold. \<open>encoding/xml\<close> is the argument \<open>parse\<close>, which fills the fields of a
  domain; \<open>None\<close> is a parse error.
\<close>

section \<open>Domains\<close>

record NovaProject =
  np_UUID :: string
  np_Name :: string

record NovaInstance =
  ni_Project :: "NovaProject option"
  ni_OwnerProject :: "NovaProject option"

record Hostdev =
  hd_Mode :: string
  hd_Type :: string

record Vsock =
  vs_Address :: string
  vs_Auto :: string

record DomainXML =
  dom_Name :: string
  dom_UUID :: string
  dom_Title :: string
  dom_Description :: string
  dom_NovaInstance :: "NovaInstance option"
  dom_Hostdevs :: "Hostdev list"
  dom_Vsock :: "Vsock option"
  dom_Interfaces :: "string list"

definition HasGPU :: "DomainXML \<Rightarrow> bool" where
  "HasGPU d = list_ex (\<lambda>h. hd_Type h = ''pci'' \<or> hd_Type h = ''mdev'') (dom_Hostdevs d)"

definition GetVsockCID :: "DomainXML \<Rightarrow> string" where
  "GetVsockCID d =
     (case dom_Vsock d of
        None \<Rightarrow> []
      | Some v \<Rightarrow> if vs_Address v \<noteq> [] then vs_Address v else [])"

definition project_of :: "NovaProject option \<Rightarrow> (string \<times> string) option" where
  "project_of proj =
     (case proj of None \<Rightarrow> None
      | Some pr \<Rightarrow> if np_UUID pr \<noteq> [] then Some (np_UUID pr, np_Name pr) else None)"

definition GetTenant :: "DomainXML \<Rightarrow> string \<times> string" where
  "GetTenant d =
     (let from_text =
        (if strings_HasPrefix (dom_Title d) ''tenant:'' then (strings_TrimPrefix (dom_Title d) ''tenant:'', [])
         else if strings_HasPrefix (dom_Description d) ''tenant:''
           then (strings_TrimPrefix (dom_Description d) ''tenant:'', [])
         else ([], []))
      in case dom_NovaInstance d of
           None \<Rightarrow> from_text
         | Some inst \<Rightarrow>
             (case project_of (ni_OwnerProject inst) of
                Some r \<Rightarrow> r
              | None \<Rightarrow> (case project_of (ni_Project inst) of Some r \<Rightarrow> r | None \<Rightarrow> from_text)))"

section \<open>Choosing an address\<close>

record ipEntry =
  e_iface :: string
  e_proto :: string
  e_addr :: string

definition isIgnoredAddress :: "string \<Rightarrow> string \<Rightarrow> bool" where
  "isIgnoredAddress iface addr =
     (if iface = ''lo'' \<or> strings_HasPrefix iface ''lo:'' \<or> strings_EqualFold iface ''loopback'' then True
      else if (case net_ParseIP addr of None \<Rightarrow> False
               | Some ip \<Rightarrow> ip_IsLoopback ip \<or> ip_IsUnspecified ip) then True
      else if strings_HasPrefix addr ''127.'' \<or> addr = ''::1'' \<or> addr = ''0.0.0.0'' \<or> addr = ''::'' then True
      else False)"

text \<open>The protocol column and the one that follows it.\<close>

fun find_proto :: "string list \<Rightarrow> string \<times> string" where
  "find_proto (f # a # rest) =
     (let lower = strings_ToLower f
      in if lower = ''ipv4'' \<or> lower = ''ipv6'' then (lower, a) else find_proto (a # rest))"
| "find_proto cols = ([], [])"

definition scan_iface_line :: "string \<Rightarrow> string \<times> ipEntry list \<Rightarrow> string \<times> ipEntry list" where
  "scan_iface_line l0 st =
     (case st of (currentIface, entries) \<Rightarrow>
      let l = strings_TrimSpace l0; cols = strings_Fields l
      in if l = [] \<or> strings_HasPrefix l ''Name'' \<or> strings_HasPrefix l ''---'' then st
         else if cols = [] then st
         else
           (let iface = (if hd cols \<noteq> ''-'' then hd cols else currentIface)
            in case find_proto cols of (proto, addrWithMask) \<Rightarrow>
               (if proto = [] \<or> addrWithMask = [] then (iface, entries)
                else
                  (let addr = hd (strings_Split addrWithMask (CHR ''/''))
                   in if isIgnoredAddress iface addr then (iface, entries)
                      else (iface, entries @ [\<lparr>e_iface = iface, e_proto = proto, e_addr = addr\<rparr>])))))"

definition iface_entries :: "string \<Rightarrow> ipEntry list" where
  "iface_entries out = snd (fold scan_iface_line (strings_Split out newline) ([], []))"

definition is_v4_entry :: "ipEntry \<Rightarrow> bool" where
  "is_v4_entry e = (e_proto e = ''ipv4'' \<or> strings_CountByte (e_addr e) (CHR ''.'') = 3)"

definition is_v6_entry :: "ipEntry \<Rightarrow> bool" where
  "is_v6_entry e = (e_proto e = ''ipv6'' \<or> IsIPv6 (e_addr e))"

definition findIPv4 :: "ipEntry list \<Rightarrow> string" where
  "findIPv4 entries = (case find is_v4_entry entries of Some e \<Rightarrow> e_addr e | None \<Rightarrow> [])"

definition findIPv6 :: "ipEntry list \<Rightarrow> string" where
  "findIPv6 entries =
     (case find (\<lambda>e. is_v6_entry e \<and> \<not> IsLinkLocal (e_addr e)) entries of
        Some e \<Rightarrow> e_addr e
      | None \<Rightarrow>
          (case find (\<lambda>e. is_v6_entry e \<and> IsLinkLocal (e_addr e)) entries of
             Some e \<Rightarrow> AttachScopeIfLinkLocal (e_addr e) (e_iface e)
           | None \<Rightarrow> []))"

definition parseAndSelectIP :: "string \<Rightarrow> string \<Rightarrow> string" where
  "parseAndSelectIP out ipVersion0 =
     (let ipVersion = (if ipVersion0 = [] then ''ipv4'' else ipVersion0); entries = iface_entries out
      in if ipVersion = ''ipv6'' then findIPv6 entries
         else if ipVersion = ''auto''
           then (if findIPv4 entries \<noteq> [] then findIPv4 entries else findIPv6 entries)
         else findIPv4 entries)"

section \<open>The provider\<close>

record LibvirtProvider =
  lp_cfg :: LibvirtConfig

definition libvirt_NewProvider :: "LibvirtConfig \<Rightarrow> LibvirtProvider" where
  "libvirt_NewProvider cfg =
     (let cfg = (if lv_PollInterval cfg \<le> 0 then cfg\<lparr>lv_PollInterval := DefaultLibvirtPollInterval\<rparr> else cfg);
          cfg = (if lv_DefaultPort cfg \<le> 0 then cfg\<lparr>lv_DefaultPort := DefaultHostEnginePort\<rparr> else cfg);
          cfg = (if lv_URI cfg = [] then cfg\<lparr>lv_URI := DefaultLibvirtURI\<rparr> else cfg);
          cfg = (if lv_IPVersion cfg = [] then cfg\<lparr>lv_IPVersion := ''ipv4''\<rparr> else cfg)
      in \<lparr>lp_cfg = cfg\<rparr>)"

record host_view =
  hv_LookPath :: "string \<Rightarrow> string option"
  hv_Output :: "string list \<Rightarrow> string option"
  hv_ReadDir :: "string \<Rightarrow> (string \<times> bool) list option"
  hv_ReadFile :: "string \<Rightarrow> string option"

definition vsock_endpoint :: "string \<Rightarrow> int \<Rightarrow> string" where
  "vsock_endpoint cid port = ''vsock://'' @ cid @ '':'' @ strconv_Itoa port"

text \<open>The endpoint from one \<open>virsh domifaddr\<close> query.\<close>

definition domifaddr_endpoint ::
  "LibvirtConfig \<Rightarrow> host_view \<Rightarrow> string \<Rightarrow> string \<Rightarrow> string \<Rightarrow> string option" where
  "domifaddr_endpoint cfg h virshPath domainName source =
     (case hv_Output h [virshPath, ''-c'', lv_URI cfg, ''domifaddr'', domainName, ''--source'', source] of
        None \<Rightarrow> None
      | Some out \<Rightarrow>
          (let ip = parseAndSelectIP out (lv_IPVersion cfg)
           in if ip \<noteq> []
              then (case NormalizeEndpoint (''tcp://'' @ ip) (lv_DefaultPort cfg) of
                      Inl _ \<Rightarrow> None | Inr ep \<Rightarrow> Some ep)
              else None))"

definition resolveEndpoint :: "LibvirtProvider \<Rightarrow> host_view \<Rightarrow> string \<Rightarrow> string \<Rightarrow> DomainXML \<Rightarrow> string" where
  "resolveEndpoint p h virshPath domainName domain =
     (let cfg = lp_cfg p; mode = lv_ConnectionMode cfg; cid = GetVsockCID domain
      in if (mode = ''vsock'' \<or> mode = ''auto'') \<and> cid \<noteq> [] then vsock_endpoint cid (lv_DefaultPort cfg)
         else if (mode = ''ip'' \<or> mode = ''auto'') \<and> virshPath \<noteq> [] then
           (case domifaddr_endpoint cfg h virshPath domainName ''agent'' of
              Some ep \<Rightarrow> ep
            | None \<Rightarrow>
                (case domifaddr_endpoint cfg h virshPath domainName ''lease'' of
                   Some ep \<Rightarrow> ep
                 | None \<Rightarrow> []))
         else [])"

definition domain_target :: "LibvirtConfig \<Rightarrow> DomainXML \<Rightarrow> string \<Rightarrow> Target" where
  "domain_target cfg domain endpoint =
     (case GetTenant domain of (tenantUUID, tenantName) \<Rightarrow>
      let labels = gm_put ''vm_uuid'' (dom_UUID domain) (gm_put ''vm_name'' (dom_Name domain) []);
          tenant = (if tenantUUID = [] then tenantName else tenantUUID);
          labels =
            (if tenant \<noteq> [] then
               (let labels = gm_put ''tenant'' tenant labels
                in if tenantUUID \<noteq> [] then gm_put ''project_id'' tenantUUID labels else labels)
             else labels)
      in \<lparr>ID = dom_UUID domain, Name = dom_Name domain, Endpoint = endpoint, Tenant = tenant,
          NetNS = lv_DefaultNetNS cfg, Labels = Some labels, CustomArgs = []\<rparr>)"

definition virsh_domain ::
  "(string \<Rightarrow> DomainXML option) \<Rightarrow> LibvirtProvider \<Rightarrow> host_view \<Rightarrow> string \<Rightarrow> string \<Rightarrow> Target option" where
  "virsh_domain parse p h virshPath line =
     (let domainName = strings_TrimSpace line
      in if domainName = [] then None
         else case hv_Output h [virshPath, ''-c'', lv_URI (lp_cfg p), ''dumpxml'', domainName] of
           None \<Rightarrow> None
         | Some xmlData \<Rightarrow>
             (case parse xmlData of
                None \<Rightarrow> None
              | Some domain \<Rightarrow>
                  if lv_FilterGPUOnly (lp_cfg p) \<and> \<not> HasGPU domain then None
                  else
                    (let endpoint = resolveEndpoint p h virshPath domainName domain
                     in if endpoint = [] then None else Some (domain_target (lp_cfg p) domain endpoint))))"

definition scanWithVirsh ::
  "(string \<Rightarrow> DomainXML option) \<Rightarrow> LibvirtProvider \<Rightarrow> host_view \<Rightarrow> string \<Rightarrow> Target list option" where
  "scanWithVirsh parse p h virshPath =
     (case hv_Output h [virshPath, ''-c'', lv_URI (lp_cfg p), ''list'', ''--state-running'', ''--name''] of
        None \<Rightarrow> None
      | Some out \<Rightarrow> Some (List.map_filter (virsh_domain parse p h virshPath) (strings_Split out newline)))"

definition runtime_domain ::
  "(string \<Rightarrow> DomainXML option) \<Rightarrow> LibvirtProvider \<Rightarrow> host_view \<Rightarrow> string \<Rightarrow> string \<times> bool \<Rightarrow> Target option" where
  "runtime_domain parse p h dir entry =
     (if snd entry \<or> \<not> strings_HasSuffix (fst entry) ''.xml'' then None
      else case hv_ReadFile h (filepath_Join dir (fst entry)) of
        None \<Rightarrow> None
      | Some data \<Rightarrow>
          (case parse data of
             None \<Rightarrow> None
           | Some domain \<Rightarrow>
               (if lv_FilterGPUOnly (lp_cfg p) \<and> \<not> HasGPU domain then None
                else if GetVsockCID domain \<noteq> []
                  then Some (domain_target (lp_cfg p) domain (vsock_endpoint (GetVsockCID domain) (lv_DefaultPort (lp_cfg p))))
                else None)))"

definition scanFromQEMURuntime ::
  "(string \<Rightarrow> DomainXML option) \<Rightarrow> LibvirtProvider \<Rightarrow> host_view \<Rightarrow> Target list" where
  "scanFromQEMURuntime parse p h =
     concat (map (\<lambda>dir. case hv_ReadDir h dir of
                            None \<Rightarrow> []
                          | Some entries \<Rightarrow> List.map_filter (runtime_domain parse p h dir) entries)
       [''/var/run/libvirt/qemu'', ''/etc/libvirt/qemu''])"

definition scanDomains :: "(string \<Rightarrow> DomainXML option) \<Rightarrow> LibvirtProvider \<Rightarrow> host_view \<Rightarrow> Target list" where
  "scanDomains parse p h =
     (case Option.bind (hv_LookPath h ''virsh'') (scanWithVirsh parse p h) of
        Some ts \<Rightarrow> ts
      | None \<Rightarrow> scanFromQEMURuntime parse p h)"

definition libvirt_Run ::
  "(string \<Rightarrow> DomainXML option) \<Rightarrow> LibvirtProvider \<Rightarrow> host_view list \<Rightarrow> Target list list" where
  "libvirt_Run parse p rounds =
     snd (poll_run (\<lambda>h (_ :: unit). (Inr (scanDomains parse p h) :: unit + Target list, ())) rounds ())"

section \<open>Every endpoint is in normal form\<close>

definition reported_entry :: "ipEntry \<Rightarrow> bool" where
  "reported_entry e \<longleftrightarrow>
     reported_address (e_addr e) \<and> bracket_free (e_iface e)
     \<and> (e_iface e \<noteq> [] \<longrightarrow> plain_byte (last (e_iface e)))"

text \<open>What \<open>virsh domifaddr\<close> is relied on for: the addresses it prints are addresses.\<close>

definition virsh_reports_addresses :: "host_view \<Rightarrow> bool" where
  "virsh_reports_addresses h \<longleftrightarrow>
     (\<forall>args out. hv_Output h args = Some out \<longrightarrow> list_all reported_entry (iface_entries out))"

lemma findIPv4_reported:
  "list_all reported_entry es \<Longrightarrow> findIPv4 es \<noteq> [] \<Longrightarrow> reported_address (findIPv4 es)"
  by (auto simp: findIPv4_def list_all_iff reported_entry_def split: option.splits dest!: find_Some_in)

lemma findIPv6_reported:
  "list_all reported_entry es \<Longrightarrow> findIPv6 es \<noteq> [] \<Longrightarrow> reported_address (findIPv6 es)"
  by (auto simp: findIPv6_def list_all_iff reported_entry_def split: option.splits dest!: find_Some_in
      intro: scoped_address_reported)

lemma selected_reported:
  assumes "list_all reported_entry (iface_entries out)" and "parseAndSelectIP out v \<noteq> []"
  shows "reported_address (parseAndSelectIP out v)"
  using assms findIPv4_reported findIPv6_reported by (auto simp: parseAndSelectIP_def Let_def split: if_splits)

lemma domifaddr_normal:
  assumes "virsh_reports_addresses h" and "domifaddr_endpoint cfg h vp name source = Some ep"
  shows "normal_endpoint ep"
proof -
  obtain out where out: "hv_Output h [vp, ''-c'', lv_URI cfg, ''domifaddr'', name, ''--source'', source] = Some out"
    using assms(2) by (auto simp: domifaddr_endpoint_def split: option.splits)
  then have "list_all reported_entry (iface_entries out)"
    using assms(1) by (auto simp: virsh_reports_addresses_def)
  with assms(2) out show ?thesis
    by (auto simp: domifaddr_endpoint_def Let_def intro: reported_address_normal selected_reported
        split: if_splits sum.splits)
qed

lemma vsock_endpoint_normal: "normal_endpoint (vsock_endpoint cid port)"
proof -
  let ?e = "vsock_endpoint cid port"
  have "last ?e = last (CHR '':'' # strconv_Itoa port)"
    by (simp add: vsock_endpoint_def)
  then have "plain_byte (last ?e)" using Itoa_last_plain by simp
  then have "strings_TrimSpace ?e = ?e"
    by (intro TrimSpace_plain) (simp_all add: vsock_endpoint_def plain_byte_def unicode_spaces_def)
  then show ?thesis
    by (simp add: normal_endpoint_def non_tcp_def vsock_endpoint_def strings_HasPrefix_def)
qed

lemma domain_target_fields [simp]:
  "Endpoint (domain_target cfg domain ep) = ep" "ID (domain_target cfg domain ep) = dom_UUID domain"
  "Name (domain_target cfg domain ep) = dom_Name domain" "NetNS (domain_target cfg domain ep) = lv_DefaultNetNS cfg"
  by (simp_all add: domain_target_def Let_def split: prod.split)

lemma resolveEndpoint_normal:
  assumes "virsh_reports_addresses h" and "resolveEndpoint p h vp name domain \<noteq> []"
  shows "normal_endpoint (resolveEndpoint p h vp name domain)"
  using assms domifaddr_normal vsock_endpoint_normal
  by (auto simp: resolveEndpoint_def Let_def split: if_splits option.splits)

lemma scanDomains_normal:
  assumes "virsh_reports_addresses h" and "t \<in> set (scanDomains parse p h)"
  shows "normal_endpoint (Endpoint t)"
proof (cases "Option.bind (hv_LookPath h ''virsh'') (scanWithVirsh parse p h)")
  case None
  with assms(2) obtain dir e where "runtime_domain parse p h dir e = Some t"
    by (auto simp: scanDomains_def scanFromQEMURuntime_def List_map_filter_set split: option.splits)
  then show ?thesis
    by (auto simp: runtime_domain_def vsock_endpoint_normal split: if_splits option.splits)
next
  case (Some ts)
  with assms(2) obtain vp line where "virsh_domain parse p h vp line = Some t"
    by (auto simp: scanDomains_def scanWithVirsh_def List_map_filter_set bind_eq_Some_conv split: option.splits)
  then show ?thesis
    using resolveEndpoint_normal [OF assms(1)]
    by (auto simp: virsh_domain_def Let_def split: if_splits option.splits)
qed

interpretation libvirt_provider: polling_provider
  "\<lambda>h (_ :: unit). (Inr (scanDomains parse p h) :: unit + Target list, ())" virsh_reports_addresses "\<lambda>_. True"
  stored_as_is
  for parse p
  by unfold_locales (auto intro: normal_stored_as_is scanDomains_normal)


section \<open>The chosen address\<close>

lemma scan_line_entries:
  "snd (scan_iface_line l (cur, es)) = es
   \<or> (\<exists>e. snd (scan_iface_line l (cur, es)) = es @ [e] \<and> \<not> isIgnoredAddress (e_iface e) (e_addr e))"
proof -
  obtain proto a where "find_proto (strings_Fields (strings_TrimSpace l)) = (proto, a)" by fastforce
  then show ?thesis
    by (simp add: scan_iface_line_def Let_def del: find_proto.simps)
qed

lemma iface_entries_accepted: "e \<in> set (iface_entries out) \<Longrightarrow> \<not> isIgnoredAddress (e_iface e) (e_addr e)"
proof -
  have "\<forall>e \<in> set (snd (fold scan_iface_line ls (cur, es))). \<not> isIgnoredAddress (e_iface e) (e_addr e)"
    if "\<forall>e \<in> set es. \<not> isIgnoredAddress (e_iface e) (e_addr e)" for ls cur es
    using that
  proof (induction ls arbitrary: cur es)
    case (Cons l ls)
    obtain cur' es' where st: "scan_iface_line l (cur, es) = (cur', es')" by fastforce
    then have "\<forall>e \<in> set es'. \<not> isIgnoredAddress (e_iface e) (e_addr e)"
      using scan_line_entries [of l cur es] Cons.prems by auto
    from Cons.IH [OF this] show ?case by (simp add: st)
  qed simp
  from this [of "[]" "strings_Split out newline" "[]"]
  show "e \<in> set (iface_entries out) \<Longrightarrow> ?thesis" by (simp add: iface_entries_def)
qed

lemma not_ignored:
  "\<not> isIgnoredAddress iface a \<Longrightarrow> net_ParseIP a = Some ip \<Longrightarrow> \<not> ip_IsLoopback ip \<and> \<not> ip_IsUnspecified ip"
  by (auto simp: isIgnoredAddress_def split: if_splits)

text \<open>C19: The address chosen for a guest comes from an entry of the printed table that is on no
  loopback interface and, in whatever notation, no loopback or unspecified address. IPv6 addresses
  are chosen only when the configuration asks for them, a link-local one only when there is no
  other, and then with the scope of its interface.\<close>

theorem parseAndSelectIP_choice:
  assumes "parseAndSelectIP out v \<noteq> []"
  shows "\<exists>e \<in> set (iface_entries out).
    e_iface e \<noteq> ''lo''
    \<and> (\<forall>ip. net_ParseIP (e_addr e) = Some ip \<longrightarrow> \<not> ip_IsLoopback ip \<and> \<not> ip_IsUnspecified ip)
    \<and> (parseAndSelectIP out v = e_addr e \<and> is_v4_entry e \<and> v \<noteq> ''ipv6''
      \<or> parseAndSelectIP out v = e_addr e \<and> is_v6_entry e \<and> \<not> IsLinkLocal (e_addr e) \<and> v \<in> {''ipv6'', ''auto''}
      \<or> parseAndSelectIP out v = AttachScopeIfLinkLocal (e_addr e) (e_iface e) \<and> IsLinkLocal (e_addr e)
        \<and> v \<in> {''ipv6'', ''auto''}
        \<and> (\<forall>e' \<in> set (iface_entries out). is_v6_entry e' \<longrightarrow> IsLinkLocal (e_addr e')))"
proof -
  let ?es = "iface_entries out" and ?ip = "parseAndSelectIP out v"
  have v4: "\<exists>e \<in> set ?es. findIPv4 ?es = e_addr e \<and> is_v4_entry e" if "findIPv4 ?es \<noteq> []"
    using that by (auto simp: findIPv4_def split: option.splits dest!: find_Some_in)
  have v6: "\<exists>e \<in> set ?es. findIPv6 ?es = e_addr e \<and> is_v6_entry e \<and> \<not> IsLinkLocal (e_addr e)
      \<or> findIPv6 ?es = AttachScopeIfLinkLocal (e_addr e) (e_iface e) \<and> IsLinkLocal (e_addr e)
        \<and> (\<forall>e' \<in> set ?es. is_v6_entry e' \<longrightarrow> IsLinkLocal (e_addr e'))" if "findIPv6 ?es \<noteq> []"
    using that
    by (auto simp: findIPv6_def find_None_iff split: option.splits dest!: find_Some_in)
  have accepted: "e_iface e \<noteq> ''lo''
      \<and> (\<forall>ip. net_ParseIP (e_addr e) = Some ip \<longrightarrow> \<not> ip_IsLoopback ip \<and> \<not> ip_IsUnspecified ip)"
    if "e \<in> set ?es" for e
    using iface_entries_accepted [OF that] not_ignored by (auto simp: isIgnoredAddress_def split: if_splits)
  have "?ip = findIPv4 ?es \<and> v \<noteq> ''ipv6'' \<or> ?ip = findIPv6 ?es \<and> v \<in> {''ipv6'', ''auto''}"
    by (simp add: parseAndSelectIP_def Let_def)
  then show ?thesis
  proof
    assume "?ip = findIPv4 ?es \<and> v \<noteq> ''ipv6''"
    with v4 assms accepted show ?thesis by metis
  next
    assume "?ip = findIPv6 ?es \<and> v \<in> {''ipv6'', ''auto''}"
    with v6 assms accepted show ?thesis by metis
  qed
qed

section \<open>Witnesses\<close>

definition sample_table :: string where
  "sample_table = ''lo - ipv4 127.0.0.1/8'' @ newline # ''eth0 - ipv6 fe80::1/64''"

lemma sample_entries:
  "iface_entries sample_table = [\<lparr>e_iface = ''eth0'', e_proto = ''ipv6'', e_addr = ''fe80::1''\<rparr>]"
proof -
  have split: "strings_Split sample_table newline = [''lo - ipv4 127.0.0.1/8'', ''eth0 - ipv6 fe80::1/64'']"
    by (simp add: sample_table_def newline_def)
  have trim: "strings_TrimSpace ''lo - ipv4 127.0.0.1/8'' = ''lo - ipv4 127.0.0.1/8''"
    "strings_TrimSpace ''eth0 - ipv6 fe80::1/64'' = ''eth0 - ipv6 fe80::1/64''"
    by (rule TrimSpace_plain; simp add: plain_byte_def unicode_spaces_def)+
  have cols: "strings_Fields ''lo - ipv4 127.0.0.1/8'' = [''lo'', ''-'', ''ipv4'', ''127.0.0.1/8'']"
    "strings_Fields ''eth0 - ipv6 fe80::1/64'' = [''eth0'', ''-'', ''ipv6'', ''fe80::1/64'']"
    by (simp_all add: space_eval strings_HasPrefix_def)
  have protos: "find_proto [''lo'', ''-'', ''ipv4'', ''127.0.0.1/8''] = (''ipv4'', ''127.0.0.1/8'')"
    "find_proto [''eth0'', ''-'', ''ipv6'', ''fe80::1/64''] = (''ipv6'', ''fe80::1/64'')"
    by (simp_all add: case_eval strings_HasPrefix_def)
  have ign: "isIgnoredAddress ''lo'' x" "\<not> isIgnoredAddress ''eth0'' ''fe80::1''" for x
    by (simp_all add: isIgnoredAddress_def go_eval)
  show ?thesis
    by (simp add: iface_entries_def split scan_iface_line_def trim cols protos ign strings_HasPrefix_def Let_def
        del: find_proto.simps)
qed

lemma sample_link_local: "IsLinkLocal ''fe80::1''"
  by (simp add: go_eval)

theorem parseAndSelectIP_choice_witness: "parseAndSelectIP sample_table ''ipv6'' = ''fe80::1%eth0''"
proof -
  have a: "AttachScopeIfLinkLocal ''fe80::1'' ''eth0'' = ''fe80::1%eth0''"
    by (simp add: AttachScopeIfLinkLocal_def sample_link_local strings_eval)
  have "parseAndSelectIP sample_table ''ipv6'' \<noteq> []"
    by (simp add: parseAndSelectIP_def sample_entries findIPv6_def is_v6_entry_def sample_link_local a)
  from parseAndSelectIP_choice [OF this] show ?thesis
    by (simp add: sample_entries sample_link_local a)
qed

definition sample_domain :: DomainXML where
  "sample_domain = \<lparr>dom_Name = ''vm1'', dom_UUID = ''u1'', dom_Title = ''tenant:a'', dom_Description = [],
     dom_NovaInstance = None, dom_Hostdevs = [\<lparr>hd_Mode = ''subsystem'', hd_Type = ''pci''\<rparr>],
     dom_Vsock = Some \<lparr>vs_Address = ''3'', vs_Auto = []\<rparr>, dom_Interfaces = []\<rparr>"

definition sample_host :: host_view where
  "sample_host = \<lparr>hv_LookPath = (\<lambda>_. Some ''/usr/bin/virsh''), hv_Output = (\<lambda>_. Some ''vm1''),
     hv_ReadDir = (\<lambda>_. None), hv_ReadFile = (\<lambda>_. None)\<rparr>"


end
