(* ===== verification/Nova.thy ===== *)
theory Nova
  imports Polling GoJson
begin

text \<open>
  Package \<open>internal/pkg/discovery/nova\<close> (\<open>nova.go\<close>): targets from the compute API of OpenStack, with a
  token of its identity service that the provider keeps. A round of polling is an argument: the
  clock when the token is checked and when it is stored, and how each request is answered. The HTTP
  client and the JSON decoder are arguments too; \<open>None\<close> is an error of theirs. \<open>json.Marshal\<close> cannot fail on
  the payload of the token request, which holds only strings.
\<close>

section \<open>Requests\<close>

record Request =
  rq_Method :: string
  rq_URL :: string
  rq_Header :: "(string, string) gomap"
  rq_Body :: "json option"

record HttpResponse =
  rp_StatusCode :: int
  rp_Header :: "(string, string) gomap"
  rp_Body :: string

text \<open>\<open>nw_request_ok\<close> says whether \<open>http.NewRequestWithContext\<close> accepts a URL.\<close>

record nova_world =
  nw_now :: int
  nw_stored_at :: int
  nw_request_ok :: "string \<Rightarrow> bool"
  nw_Do :: "Request \<Rightarrow> HttpResponse option"

datatype nova_error =
    EndpointNotConfigured
  | TokenFailed nova_error
  | BadRequest string
  | RequestError
  | ApiStatus int
  | KeystoneStatus int
  | MissingSubjectToken
  | DecodeFailed

definition send_request :: "nova_world \<Rightarrow> Request \<Rightarrow> nova_error + HttpResponse" where
  "send_request w req =
     (if \<not> nw_request_ok w (rq_URL req) then Inl (BadRequest (rq_URL req))
      else case nw_Do w req of None \<Rightarrow> Inl RequestError | Some resp \<Rightarrow> Inr resp)"

section \<open>Provider\<close>

record NovaProvider =
  np_cfg :: NovaConfig
  np_clientTimeout :: int
  np_token :: string
  np_tokenExp :: int

definition nova_NewProvider :: "NovaConfig \<Rightarrow> NovaProvider" where
  "nova_NewProvider cfg =
     (let cfg = (if nova_PollInterval cfg \<le> 0 then cfg\<lparr>nova_PollInterval := DefaultNovaPollInterval\<rparr> else cfg);
          cfg = (if nova_DefaultPort cfg \<le> 0 then cfg\<lparr>nova_DefaultPort := DefaultHostEnginePort\<rparr> else cfg);
          cfg = (if nova_IPVersion cfg = [] then cfg\<lparr>nova_IPVersion := ''ipv4''\<rparr> else cfg)
      in \<lparr>np_cfg = cfg, np_clientTimeout = 15 * time_Second, np_token = [], np_tokenExp = 0\<rparr>)"

section \<open>The token\<close>

definition auth_payload :: "NovaConfig \<Rightarrow> json" where
  "auth_payload cfg =
     (let userDomain = (if nova_UserDomainName cfg = [] then ''Default'' else nova_UserDomainName cfg);
          projectDomain = (if nova_ProjectDomainName cfg = [] then ''Default'' else nova_ProjectDomainName cfg)
      in JObject [(''auth'', JObject
           [(''identity'', JObject
               [(''methods'', JList [JString ''password'']),
                (''password'', JObject [(''user'', JObject
                   [(''name'', JString (nova_Username cfg)),
                    (''domain'', JObject [(''name'', JString userDomain)]),
                    (''password'', JString (nova_Password cfg))])])]),
            (''scope'', JObject [(''project'', JObject
               [(''name'', JString (nova_ProjectName cfg)),
                (''domain'', JObject [(''name'', JString projectDomain)])])])])])"

definition token_request :: "NovaConfig \<Rightarrow> Request" where
  "token_request cfg =
     \<lparr>rq_Method = ''POST'', rq_URL = strings_TrimRightByte (nova_AuthURL cfg) (CHR ''/'') @ ''/v3/auth/tokens'',
      rq_Header = [(''Content-Type'', ''application/json'')], rq_Body = Some (auth_payload cfg)\<rparr>"

definition getToken :: "nova_world \<Rightarrow> NovaProvider \<Rightarrow> (nova_error + string) \<times> NovaProvider" where
  "getToken w p =
     (if np_token p \<noteq> [] \<and> nw_now w < np_tokenExp p then (Inr (np_token p), p)
      else if nova_AuthURL (np_cfg p) = [] then (Inr ''dummy-token'', p)
      else case send_request w (token_request (np_cfg p)) of
        Inl err \<Rightarrow> (Inl err, p)
      | Inr resp \<Rightarrow>
          (if rp_StatusCode resp \<noteq> 201 \<and> rp_StatusCode resp \<noteq> 200
           then (Inl (KeystoneStatus (rp_StatusCode resp)), p)
           else
             (let token = gm_str (rp_Header resp) ''X-Subject-Token''
              in if token = [] then (Inl MissingSubjectToken, p)
                 else (Inr token, p\<lparr>np_token := token, np_tokenExp := nw_stored_at w + 2 * 3600 * time_Second\<rparr>))))"

section \<open>Addresses\<close>

record nova_address =
  na_Version :: int
  na_Addr :: string
  na_Type :: string

type_synonym nova_addresses = "(string, nova_address list) gomap"

text \<open>The orders in which the up to three loops over the map of networks visit it.\<close>

record address_orders =
  ord_v4 :: "(string, nova_address list) range_order"
  ord_global :: "(string, nova_address list) range_order"
  ord_any_v6 :: "(string, nova_address list) range_order"

definition address_orders_ok :: "address_orders \<Rightarrow> bool" where
  "address_orders_ok r =
     (is_range_order (ord_v4 r) \<and> is_range_order (ord_global r) \<and> is_range_order (ord_any_v6 r))"

definition first_address :: "(nova_address \<Rightarrow> bool) \<Rightarrow> nova_addresses \<Rightarrow> string" where
  "first_address P addresses =
     (case find P (concat (map snd addresses)) of Some a \<Rightarrow> na_Addr a | None \<Rightarrow> [])"

definition findV4 :: "address_orders \<Rightarrow> nova_addresses \<Rightarrow> string" where
  "findV4 r addresses = first_address (\<lambda>a. na_Version a = 4 \<and> na_Addr a \<noteq> []) (ord_v4 r addresses)"

definition findV6 :: "address_orders \<Rightarrow> nova_addresses \<Rightarrow> string" where
  "findV6 r addresses =
     (let global = first_address
            (\<lambda>a. (na_Version a = 6 \<or> IsIPv6 (na_Addr a)) \<and> \<not> IsLinkLocal (na_Addr a) \<and> na_Addr a \<noteq> [])
            (ord_global r addresses)
      in if global \<noteq> [] then global
         else first_address (\<lambda>a. (na_Version a = 6 \<or> IsIPv6 (na_Addr a)) \<and> na_Addr a \<noteq> []) (ord_any_v6 r addresses))"

definition nova_extractIP :: "address_orders \<Rightarrow> nova_addresses \<Rightarrow> string \<Rightarrow> string" where
  "nova_extractIP r addresses ipVersion0 =
     (let ipVersion = (if ipVersion0 = [] then ''ipv4'' else ipVersion0)
      in if ipVersion = ''ipv6'' then findV6 r addresses
         else if ipVersion = ''auto''
           then (let ip = findV4 r addresses in if ip \<noteq> [] then ip else findV6 r addresses)
         else findV4 r addresses)"

section \<open>Scanning\<close>

record novaServer =
  sv_ID :: string
  sv_Name :: string
  sv_Status :: string
  sv_Addresses :: nova_addresses
  sv_Metadata :: "(string, string) gomap"
  sv_HostID :: string
  sv_TenantID :: string

text \<open>The decoder of the response and the orders of the loops over the maps of a server.\<close>

record nova_env =
  env_decode :: "string \<Rightarrow> novaServer list option"
  env_addresses :: "novaServer \<Rightarrow> address_orders"
  env_metadata :: "(string, string) range_order"

definition server_labels :: "nova_env \<Rightarrow> novaServer \<Rightarrow> (string, string) gomap" where
  "server_labels env s =
     (let labels = gm_put ''tenant'' (sv_TenantID s) (gm_put ''project_id'' (sv_TenantID s)
            (gm_put ''vm_id'' (sv_ID s) (gm_put ''vm_name'' (sv_Name s) [])))
      in fold (\<lambda>(k, v). gm_put (''nova_'' @ k) v) (env_metadata env (sv_Metadata s)) labels)"

definition server_target :: "nova_env \<Rightarrow> NovaConfig \<Rightarrow> novaServer \<Rightarrow> Target option" where
  "server_target env cfg s =
     (let ip = nova_extractIP (env_addresses env s) (sv_Addresses s) (nova_IPVersion cfg)
      in if ip = [] then None
         else case NormalizeEndpoint (''tcp://'' @ ip) (nova_DefaultPort cfg) of
           Inl _ \<Rightarrow> None
         | Inr endpoint \<Rightarrow>
             Some \<lparr>ID = sv_ID s, Name = sv_Name s, Endpoint = endpoint, Tenant = sv_TenantID s,
                   NetNS = nova_DefaultNetNS cfg, Labels = Some (server_labels env s), CustomArgs = []\<rparr>)"

definition servers_request :: "NovaConfig \<Rightarrow> string \<Rightarrow> Request" where
  "servers_request cfg token =
     (let url = strings_TrimRightByte (nova_NovaEndpoint cfg) (CHR ''/'')
            @ ''/servers/detail?status=ACTIVE&all_tenants=1'';
          url = (if nova_HypervisorHostname cfg \<noteq> [] then url @ ''&host='' @ nova_HypervisorHostname cfg else url)
      in \<lparr>rq_Method = ''GET'', rq_URL = url,
          rq_Header = [(''X-Auth-Token'', token), (''Accept'', ''application/json'')], rq_Body = None\<rparr>)"

definition scanServers ::
  "nova_env \<Rightarrow> nova_world \<Rightarrow> NovaProvider \<Rightarrow> (nova_error + Target list) \<times> NovaProvider" where
  "scanServers env w p =
     (if nova_NovaEndpoint (np_cfg p) = [] then (Inl EndpointNotConfigured, p)
      else case getToken w p of
        (Inl err, p) \<Rightarrow> (Inl (TokenFailed err), p)
      | (Inr token, p) \<Rightarrow>
          (case send_request w (servers_request (np_cfg p) token) of
             Inl err \<Rightarrow> (Inl err, p)
           | Inr resp \<Rightarrow>
               (if rp_StatusCode resp \<noteq> 200 then (Inl (ApiStatus (rp_StatusCode resp)), p)
                else case env_decode env (rp_Body resp) of
                  None \<Rightarrow> (Inl DecodeFailed, p)
                | Some servers \<Rightarrow> (Inr (List.map_filter (server_target env (np_cfg p)) servers), p))))"

definition nova_Run :: "nova_env \<Rightarrow> NovaProvider \<Rightarrow> nova_world list \<Rightarrow> Target list list" where
  "nova_Run env p rounds = snd (poll_run (scanServers env) rounds p)"

section \<open>Every endpoint is in normal form\<close>

text \<open>What the compute API is relied on for: the addresses it reports are addresses.\<close>

definition nova_reports_addresses :: "nova_env \<Rightarrow> bool" where
  "nova_reports_addresses env \<longleftrightarrow>
     (\<forall>body servers s k as a. env_decode env body = Some servers \<and> s \<in> set servers \<and> (k, as) \<in> set (sv_Addresses s)
        \<and> a \<in> set as \<and> na_Addr a \<noteq> [] \<longrightarrow> reported_address (na_Addr a))
     \<and> (\<forall>s. address_orders_ok (env_addresses env s))"

lemma first_address_in:
  assumes "is_range_order r" and "first_address P (r addresses) \<noteq> []"
  obtains k as a where "(k, as) \<in> set addresses" and "a \<in> set as" and "na_Addr a = first_address P (r addresses)"
    and "P a"
  using assms by (auto simp: first_address_def split: option.splits dest!: find_Some_in)

lemma extractIP_in:
  assumes "address_orders_ok r" and "nova_extractIP r addresses v \<noteq> []"
  obtains k as a where "(k, as) \<in> set addresses" and "a \<in> set as" and "na_Addr a = nova_extractIP r addresses v"
proof -
  have ord: "is_range_order (ord_v4 r)" "is_range_order (ord_global r)" "is_range_order (ord_any_v6 r)"
    using assms(1) by (simp_all add: address_orders_ok_def)
  have "\<exists>ro P. findV4 r addresses = first_address P (ro addresses) \<and> is_range_order ro"
    using ord by (auto simp: findV4_def)
  moreover have "\<exists>ro P. findV6 r addresses = first_address P (ro addresses) \<and> is_range_order ro"
    using ord by (simp add: findV6_def Let_def) metis
  moreover have "nova_extractIP r addresses v \<in> {findV4 r addresses, findV6 r addresses}"
    by (simp add: nova_extractIP_def Let_def)
  ultimately have "\<exists>ro P. nova_extractIP r addresses v = first_address P (ro addresses) \<and> is_range_order ro"
    by (elim insertE emptyE) simp_all
  then obtain ro P where "nova_extractIP r addresses v = first_address P (ro addresses)" "is_range_order ro"
    by (elim exE conjE)
  with assms(2) that show ?thesis by (metis first_address_in)
qed

lemma server_target_normal:
  assumes "nova_reports_addresses env" and "env_decode env body = Some servers" and "s \<in> set servers"
    and "server_target env cfg s = Some t"
  shows "normal_endpoint (Endpoint t)"
proof -
  let ?ip = "nova_extractIP (env_addresses env s) (sv_Addresses s) (nova_IPVersion cfg)"
  have ip: "?ip \<noteq> []" and ep: "NormalizeEndpoint (''tcp://'' @ ?ip) (nova_DefaultPort cfg) = Inr (Endpoint t)"
    using assms(4) by (auto simp: server_target_def Let_def split: if_splits sum.splits)
  have "address_orders_ok (env_addresses env s)" using assms(1) by (simp add: nova_reports_addresses_def)
  then obtain k as a where "(k, as) \<in> set (sv_Addresses s)" "a \<in> set as" "na_Addr a = ?ip"
    using ip by (rule extractIP_in)
  with assms(1-3) ip have "reported_address ?ip" by (fastforce simp: nova_reports_addresses_def)
  with ep show ?thesis by (simp add: reported_address_normal)
qed

lemma scanServers_normal:
  assumes "nova_reports_addresses env" and "fst (scanServers env w p) = Inr ts" and "t \<in> set ts"
  shows "normal_endpoint (Endpoint t)"
proof -
  obtain body servers cfg where "env_decode env body = Some servers" "ts = List.map_filter (server_target env cfg) servers"
    using assms(2) by (auto simp: scanServers_def split: if_splits prod.splits sum.splits option.splits)
  with assms(1,3) show ?thesis by (auto simp: List_map_filter_set intro: server_target_normal)
qed

interpretation nova_provider: polling_provider
  "scanServers env" "\<lambda>_. nova_reports_addresses env" "\<lambda>_. True" stored_as_is
  for env
  by unfold_locales (auto intro: normal_stored_as_is scanServers_normal)

lemma nova_targets_stored_as_is:
  assumes "nova_reports_addresses env" and "ts \<in> set (nova_Run env p rounds)" and "t \<in> set ts"
  shows "normalized_target t = t"
proof -
  have "list_all (\<lambda>_. nova_reports_addresses env) rounds" using assms(1) by (simp add: list_all_iff)
  from nova_provider.every_target_good [OF this TrueI assms(2) [unfolded nova_Run_def] assms(3)]
  show ?thesis by (simp add: stored_as_is_def)
qed

section \<open>The life of a token\<close>

lemma getToken_stored:
  "np_token p \<noteq> [] \<Longrightarrow> nw_now w < np_tokenExp p \<Longrightarrow> getToken w p = (Inr (np_token p), p)"
  by (simp add: getToken_def)


definition sample_nova :: NovaProvider where
  "sample_nova = (nova_NewProvider ((disc_Nova (cfg_Discovery NewDefaultConfig))
     \<lparr>nova_AuthURL := ''http://keystone'', nova_NovaEndpoint := ''http://nova''\<rparr>))
     \<lparr>np_token := ''old'', np_tokenExp := 100\<rparr>"

definition rejecting_world :: "int \<Rightarrow> nova_world" where
  "rejecting_world now = \<lparr>nw_now = now, nw_stored_at = now, nw_request_ok = (\<lambda>_. True),
     nw_Do = (\<lambda>req. if rq_Method req = ''POST'' \<and> gm_get (rq_Header req) ''X-Auth-Token'' = None
       then Some \<lparr>rp_StatusCode = 201, rp_Header = [(''X-Subject-Token'', ''new'')], rp_Body = []\<rparr>
       else Some \<lparr>rp_StatusCode = 401, rp_Header = [], rp_Body = []\<rparr>)\<rparr>"

definition sample_decoding :: nova_env where
  "sample_decoding = \<lparr>env_decode = (\<lambda>_. Some []),
     env_addresses = (\<lambda>_. \<lparr>ord_v4 = (\<lambda>x. x), ord_global = (\<lambda>x. x), ord_any_v6 = (\<lambda>x. x)\<rparr>), env_metadata = (\<lambda>x. x)\<rparr>"


end
