(* ===== verification/App.thy ===== *)
theory App
  imports Server NetNS FileDiscovery Libvirt Nova
begin

text \<open>
  Package \<open>pkg/cmd\<close> (\<open>app.go\<close>): how the program is put together. \<open>boot\<close> is \<open>runSupervisor\<close> up to its
  main loop; the relation \<open>app_step\<close> is what can happen afterwards: the goroutines of discovery, the
  goroutine that watches the inventory, the children and the health loop, and the main loop that
  waits for signals. The flags are given as the values that were set explicitly (\<open>c.IsSet\<close>).
  \<open>mkdir\<close> says for which directories \<open>os.MkdirAll\<close> succeeds. A registered provider may publish any list at
  any time, which covers the runs of the provider models and more.
\<close>

section \<open>Configuration from flags\<close>

record flags =
  fl_Address :: "string option"
  fl_CollectInterval :: "int option"
  fl_FieldsFile :: "string option"
  fl_LogFormat :: "string option"
  fl_DebugMode :: "bool option"
  fl_WebConfigFile :: "string option"
  fl_WebReadTimeout :: "int option"
  fl_WebWriteTimeout :: "int option"
  fl_DcgmExporterBin :: "string option"
  fl_SocketDir :: "string option"
  fl_ExporterListenHost :: "string option"
  fl_PortRangeStart :: "int option"
  fl_PortRangeEnd :: "int option"
  fl_ShutdownTimeout :: "int option"
  fl_NetNSDefault :: "string option"
  fl_NetNSTemplate :: "string option"

definition if_set :: "'v option \<Rightarrow> ('v \<Rightarrow> Config \<Rightarrow> Config) \<Rightarrow> Config \<Rightarrow> Config" where
  "if_set flag assign cfg = (case flag of None \<Rightarrow> cfg | Some v \<Rightarrow> assign v cfg)"

definition exporter_update :: "(ExporterConfig \<Rightarrow> ExporterConfig) \<Rightarrow> Config \<Rightarrow> Config" where
  "exporter_update u cfg = cfg\<lparr>cfg_Exporter := u (cfg_Exporter cfg)\<rparr>"

definition apply_flags :: "flags \<Rightarrow> Config \<Rightarrow> Config" where
  "apply_flags f cfg =
     (let cfg = if_set (fl_Address f) (\<lambda>v cfg. cfg\<lparr>cfg_Address := v\<rparr>) cfg;
          cfg = if_set (fl_CollectInterval f)
                  (\<lambda>v cfg. exporter_update (\<lambda>e. e\<lparr>exp_CollectInterval := v\<rparr>) (cfg\<lparr>cfg_CollectInterval := v\<rparr>)) cfg;
          cfg = if_set (fl_FieldsFile f)
                  (\<lambda>v cfg. exporter_update (\<lambda>e. e\<lparr>exp_CollectorsFile := v\<rparr>) (cfg\<lparr>cfg_CollectorsFile := v\<rparr>)) cfg;
          cfg = if_set (fl_LogFormat f) (\<lambda>v cfg. cfg\<lparr>cfg_LogFormat := v\<rparr>) cfg;
          cfg = if_set (fl_DebugMode f) (\<lambda>v cfg. cfg\<lparr>cfg_Debug := v\<rparr>) cfg;
          cfg = if_set (fl_WebConfigFile f) (\<lambda>v cfg. cfg\<lparr>cfg_WebConfigFile := v\<rparr>) cfg;
          cfg = if_set (fl_WebReadTimeout f) (\<lambda>v cfg. cfg\<lparr>cfg_WebReadTimeout := v\<rparr>) cfg;
          cfg = if_set (fl_WebWriteTimeout f) (\<lambda>v cfg. cfg\<lparr>cfg_WebWriteTimeout := v\<rparr>) cfg;
          cfg = if_set (fl_DcgmExporterBin f) (\<lambda>v. exporter_update (\<lambda>e. e\<lparr>exp_BinaryPath := v\<rparr>)) cfg;
          cfg = if_set (fl_SocketDir f) (\<lambda>v. exporter_update (\<lambda>e. e\<lparr>exp_SocketDir := v\<rparr>)) cfg;
          cfg = (if exp_SocketDir (cfg_Exporter cfg) = []
                 then exporter_update (\<lambda>e. e\<lparr>exp_SocketDir := DefaultSocketDir\<rparr>) cfg else cfg);
          cfg = if_set (fl_ExporterListenHost f) (\<lambda>v. exporter_update (\<lambda>e. e\<lparr>exp_ListenHost := v\<rparr>)) cfg;
          cfg = if_set (fl_PortRangeStart f) (\<lambda>v. exporter_update (\<lambda>e. e\<lparr>exp_PortRangeStart := v\<rparr>)) cfg;
          cfg = if_set (fl_PortRangeEnd f) (\<lambda>v. exporter_update (\<lambda>e. e\<lparr>exp_PortRangeEnd := v\<rparr>)) cfg;
          cfg = if_set (fl_ShutdownTimeout f) (\<lambda>v. exporter_update (\<lambda>e. e\<lparr>exp_ShutdownTimeout := v\<rparr>)) cfg;
          cfg = if_set (fl_NetNSDefault f) (\<lambda>v cfg. cfg\<lparr>cfg_NetNS := (cfg_NetNS cfg)\<lparr>ns_DefaultNetNS := v\<rparr>\<rparr>) cfg
      in if_set (fl_NetNSTemplate f) (\<lambda>v cfg. cfg\<lparr>cfg_NetNS := (cfg_NetNS cfg)\<lparr>ns_Template := v\<rparr>\<rparr>) cfg)"

datatype app_error =
    LoadConfigFailed config_error
  | CreateSocketDirFailed string

definition ensure_socket_dir :: "(string \<Rightarrow> bool) \<Rightarrow> Config \<Rightarrow> app_error + Config" where
  "ensure_socket_dir mkdir cfg =
     (if mkdir (exp_SocketDir (cfg_Exporter cfg)) then Inr cfg
      else
        (let cfg = exporter_update (\<lambda>e. e\<lparr>exp_SocketDir := FallbackSocketDir\<rparr>) cfg
         in if mkdir (exp_SocketDir (cfg_Exporter cfg)) then Inr cfg
            else Inl (CreateSocketDirFailed (exp_SocketDir (cfg_Exporter cfg)))))"

section \<open>Providers\<close>

datatype provider =
    StaticProvider "Target list"
  | LibvirtProvider LibvirtProvider
  | NovaProvider NovaProvider
  | FileProvider FileProvider

fun provider_Name :: "provider \<Rightarrow> string" where
  "provider_Name (StaticProvider _) = ''static''"
| "provider_Name (LibvirtProvider _) = ''libvirt''"
| "provider_Name (NovaProvider _) = ''nova''"
| "provider_Name (FileProvider _) = ''file''"

definition enabled_providers :: "DiscoveryConfig \<Rightarrow> provider list" where
  "enabled_providers d =
     (if static_Enabled (disc_Static d) \<and> 0 < length (static_Targets (disc_Static d))
      then [StaticProvider (static_NewProvider (static_Targets (disc_Static d)))] else [])
     @ (if lv_Enabled (disc_Libvirt d) then [LibvirtProvider (libvirt_NewProvider (disc_Libvirt d))] else [])
     @ (if nova_Enabled (disc_Nova d) then [NovaProvider (nova_NewProvider (disc_Nova d))] else [])
     @ (if file_Enabled (disc_File d)
        then [FileProvider (file_NewProvider (file_Directory (disc_File d)) (file_PollInterval (disc_File d)))] else [])"

section \<open>Preparing targets for the supervisor\<close>

definition set_label :: "string \<Rightarrow> string \<Rightarrow> Target \<Rightarrow> Target" where
  "set_label k v t =
     (if v \<noteq> [] \<and> gm_str (label_map t) k = [] then t\<lparr>Labels := Some (gm_put k v (label_map t))\<rparr> else t)"

definition enrich_target ::
  "(string \<Rightarrow> string option) \<Rightarrow> routeChecker option \<Rightarrow> Resolver \<Rightarrow> Target \<Rightarrow> Target \<times> Resolver" where
  "enrich_target urlHost checker r t =
     (case (if NetNS t = [] then Resolve urlHost checker r (Some t) else (NetNS t, r)) of
        (ns, r) \<Rightarrow>
          (let t = t\<lparr>NetNS := ns\<rparr>;
               t = (if Labels t = None then t\<lparr>Labels := Some []\<rparr> else t);
               t = set_label ''tenant'' (Tenant t) t;
               t = set_label ''netns'' (NetNS t) t
           in (t, r)))"

fun enrich_targets ::
  "(string \<Rightarrow> string option) \<Rightarrow> routeChecker option \<Rightarrow> Resolver \<Rightarrow> Target list \<Rightarrow> Target list \<times> Resolver" where
  "enrich_targets urlHost checker r [] = ([], r)"
| "enrich_targets urlHost checker r (t # ts) =
     (case enrich_target urlHost checker r t of
        (t', r') \<Rightarrow> (case enrich_targets urlHost checker r' ts of (ts', r'') \<Rightarrow> (t' # ts', r'')))"

section \<open>The running program\<close>

text \<open>
  \<open>app_disc\<close> holds the channel to the watching goroutine; \<open>app_handled\<close> is the number of received
  lists it has reconciled. \<open>app_stopping\<close> is set when the main loop has shut the manager down.
\<close>

record App =
  app_cfg :: Config
  app_resolver :: Resolver
  app_mgr :: Manager
  app_disc :: discovery_system
  app_server :: Server
  app_handled :: nat
  app_stopping :: bool

record app_env =
  env_configFile :: string
  env_unmarshal :: "string \<Rightarrow> Config \<Rightarrow> Config option"
  env_urlHost :: "string \<Rightarrow> string option"

definition boot :: "app_env \<Rightarrow> flags \<Rightarrow> (string \<Rightarrow> string option) \<Rightarrow> (string \<Rightarrow> bool) \<Rightarrow> app_error + App" where
  "boot env f readFile mkdir =
     (case LoadConfigFile readFile (env_unmarshal env) (env_configFile env) of
        Inl err \<Rightarrow> Inl (LoadConfigFailed err)
      | Inr cfg \<Rightarrow>
          (case ensure_socket_dir mkdir (apply_flags f cfg) of
             Inl err \<Rightarrow> Inl err
           | Inr cfg \<Rightarrow>
               Inr \<lparr>app_cfg = cfg,
                    app_resolver = NewResolver (cfg_NetNS cfg),
                    app_mgr = NewSupervisor (cfg_Exporter cfg),
                    app_disc = Start (fold RegisterProvider
                      (map provider_Name (enabled_providers (cfg_Discovery cfg))) NewManager),
                    app_server = NewServer cfg,
                    app_handled = 0, app_stopping = False\<rparr>))"

text \<open>The body of the watching goroutine for one received list.\<close>

definition watch ::
  "app_env \<Rightarrow> routeChecker option \<Rightarrow> (string, supervised) range_order \<Rightarrow> (string, Target) range_order
    \<Rightarrow> stop_course \<Rightarrow> Target list \<Rightarrow> App \<Rightarrow> App option" where
  "watch env checker ri rd how ts a =
     (case enrich_targets (env_urlHost env) checker (app_resolver a) ts of
        (ts', r) \<Rightarrow> map_option (\<lambda>m. a\<lparr>app_resolver := r, app_mgr := m, app_handled := Suc (app_handled a)\<rparr>)
                     (Reconcile ri rd how ts' (app_mgr a)))"

text \<open>The handler of SIGHUP. The HTTP server and the manager keep the configuration they were built with.\<close>

definition reload ::
  "app_env \<Rightarrow> (string \<Rightarrow> string option) \<Rightarrow> routeChecker option \<Rightarrow> (string, supervised) range_order
    \<Rightarrow> (string, Target) range_order \<Rightarrow> stop_course \<Rightarrow> App \<Rightarrow> App option" where
  "reload env readFile checker ri rd how a =
     (if env_configFile env = [] then Some a
      else case LoadConfigFile readFile (env_unmarshal env) (env_configFile env) of
        Inl _ \<Rightarrow> Some a
      | Inr newCfg \<Rightarrow>
          (let r = NewResolver (cfg_NetNS newCfg);
               a = a\<lparr>app_cfg := newCfg, app_resolver := r\<rparr>;
               static = disc_Static (cfg_Discovery newCfg)
           in if static_Enabled static
              then (case enrich_targets (env_urlHost env) checker r (static_Targets static) of
                      (ts, r) \<Rightarrow> map_option (\<lambda>m. a\<lparr>app_resolver := r, app_mgr := m\<rparr>)
                                  (Reconcile ri rd how ts (app_mgr a)))
              else Some a))"

text \<open>The end of the main loop, after a termination signal or an error of the HTTP server.\<close>

definition terminate :: "(string, supervised) range_order \<Rightarrow> stop_course \<Rightarrow> App \<Rightarrow> App option" where
  "terminate ri how a =
     map_option (\<lambda>m. a\<lparr>app_mgr := m, app_stopping := True\<rparr>) (Shutdown ri how (app_mgr a))"

datatype app_event = Discover | Child | Watch | Reload | Terminate

inductive app_step :: "app_env \<Rightarrow> app_event \<Rightarrow> App \<Rightarrow> App \<Rightarrow> bool" for env where
  discover: "disc_step (app_disc a) d \<Longrightarrow> app_step env Discover a (a\<lparr>app_disc := d\<rparr>)"
| child: "gm_get (m_instances (app_mgr a)) i = Some s \<Longrightarrow> instance_step e s = Some s' \<Longrightarrow>
    app_step env Child a (a\<lparr>app_mgr := (app_mgr a)\<lparr>m_instances := gm_put i s' (m_instances (app_mgr a))\<rparr>\<rparr>)"
| removed_child: "j < length (m_removed (app_mgr a)) \<Longrightarrow> instance_step e (m_removed (app_mgr a) ! j) = Some s' \<Longrightarrow>
    app_step env Child a (a\<lparr>app_mgr := (app_mgr a)\<lparr>m_removed := (m_removed (app_mgr a))[j := s']\<rparr>\<rparr>)"
| health_check: "app_step env Child a (a\<lparr>app_mgr := health_tick results (app_mgr a)\<rparr>)"
| watched: "app_handled a < length (sys_received (app_disc a)) \<Longrightarrow> is_range_order ri \<Longrightarrow> is_range_order rd \<Longrightarrow>
    watch env checker ri rd how (sys_received (app_disc a) ! app_handled a) a = Some a' \<Longrightarrow>
    app_step env Watch a a'"
| sighup: "\<not> app_stopping a \<Longrightarrow> is_range_order ri \<Longrightarrow> is_range_order rd \<Longrightarrow>
    reload env readFile checker ri rd how a = Some a' \<Longrightarrow> app_step env Reload a a'"
| finish: "\<not> app_stopping a \<Longrightarrow> is_range_order ri \<Longrightarrow> terminate ri how a = Some a' \<Longrightarrow>
    app_step env Terminate a a'"

inductive_cases app_step_cases: "app_step env e a a'"

text \<open>A run of the program: the kinds of events in their order.\<close>

inductive app_run :: "app_env \<Rightarrow> App \<Rightarrow> app_event list \<Rightarrow> App \<Rightarrow> bool" for env a0 where
  start: "app_run env a0 [] a0"
| continue: "app_run env a0 es a \<Longrightarrow> app_step env e a a' \<Longrightarrow> app_run env a0 (es @ [e]) a'"

section \<open>Facts about the parts\<close>

lemma set_label_facts [simp]:
  "ID (set_label k v t) = ID t" "Name (set_label k v t) = Name t" "Endpoint (set_label k v t) = Endpoint t"
  "Tenant (set_label k v t) = Tenant t" "NetNS (set_label k v t) = NetNS t"
  by (simp_all add: set_label_def)

lemma enrich_target_key [simp]: "target_key (fst (enrich_target u c r t)) = target_key t"
  by (simp add: enrich_target_def target_key_def Let_def split: prod.split)

lemma enrich_targets_keys: "target_key ` set (fst (enrich_targets u c r ts)) = target_key ` set ts"
proof (induction ts arbitrary: r)
  case (Cons t ts)
  obtain t' r' where t: "enrich_target u c r t = (t', r')" by fastforce
  obtain ts' r'' where ts: "enrich_targets u c r' ts = (ts', r'')" by fastforce
  show ?case using Cons.IH [of r'] enrich_target_key [of u c r t] by (simp add: t ts)
qed simp

lemma fill_id_key: "target_key (fill_id t) = target_key t"
  by (simp add: fill_id_def target_key_def)

text \<open>How an operation of the program changes its parts.\<close>

lemma watch_facts:
  assumes "watch env checker ri rd how ts a = Some a'"
  obtains ts' where "Reconcile ri rd how ts' (app_mgr a) = Some (app_mgr a')" and "target_key ` set ts' = target_key ` set ts"
    and "app_disc a' = app_disc a" and "app_handled a' = Suc (app_handled a)" and "app_stopping a' = app_stopping a"
proof -
  obtain ts' r where e: "enrich_targets (env_urlHost env) checker (app_resolver a) ts = (ts', r)" by fastforce
  show ?thesis
    using assms that [of ts'] enrich_targets_keys [of "env_urlHost env" checker "app_resolver a" ts]
    by (auto simp: watch_def e)
qed

lemma reload_facts:
  assumes "reload env readFile checker ri rd how a = Some a'"
  obtains "app_mgr a' = app_mgr a" and "app_disc a' = app_disc a" and "app_handled a' = app_handled a"
    and "app_stopping a' = app_stopping a"
  | ts' where "Reconcile ri rd how ts' (app_mgr a) = Some (app_mgr a')" and "app_disc a' = app_disc a"
    and "app_handled a' = app_handled a" and "app_stopping a' = app_stopping a"
proof (cases "env_configFile env = []")
  case True
  with assms that(1) show ?thesis by (simp add: reload_def)
next
  case cf: False
  show ?thesis
  proof (cases "LoadConfigFile readFile (env_unmarshal env) (env_configFile env)")
    case (Inl err)
    with assms that(1) cf show ?thesis by (simp add: reload_def)
  next
    case (Inr newCfg)
    obtain ts' r where e: "enrich_targets (env_urlHost env) checker (NewResolver (cfg_NetNS newCfg))
        (static_Targets (disc_Static (cfg_Discovery newCfg))) = (ts', r)" by fastforce
    show ?thesis
    proof (cases "static_Enabled (disc_Static (cfg_Discovery newCfg))")
      case True
      with assms that(2) [of ts'] cf Inr e show ?thesis by (auto simp: reload_def)
    next
      case False
      with assms that(1) cf Inr show ?thesis by (auto simp: reload_def)
    qed
  qed
qed

lemma terminate_facts:
  "terminate ri how a = Some a' \<Longrightarrow> Shutdown ri how (app_mgr a) = Some (app_mgr a')
     \<and> app_disc a' = app_disc a \<and> app_handled a' = app_handled a"
  by (auto simp: terminate_def)

text \<open>Every step is one of the manager, one of discovery, or leaves both alone.\<close>

lemma app_step_parts:
  assumes "app_step env e a a'"
  shows "(manager_step (app_mgr a) (app_mgr a') \<or> app_mgr a' = app_mgr a)
    \<and> (disc_step (app_disc a) (app_disc a') \<or> app_disc a' = app_disc a)"
  using assms
proof cases
  case (watched ri rd checker how)
  from \<open>watch env checker ri rd how _ a = Some a'\<close> show ?thesis
    by (rule watch_facts) (use watched manager_step.reconcile in auto)
next
  case (sighup ri rd readFile checker how)
  from \<open>reload env readFile checker ri rd how a = Some a'\<close> show ?thesis
    by (rule reload_facts) (use sighup manager_step.reconcile in auto)
next
  case (finish ri how)
  then show ?thesis using terminate_facts manager_step.shutdown by metis
qed (auto intro: manager_step.intros)

lemma app_run_parts:
  assumes "app_run env a0 es a"
  shows "manager_step\<^sup>*\<^sup>* (app_mgr a0) (app_mgr a) \<and> disc_step\<^sup>*\<^sup>* (app_disc a0) (app_disc a)"
  using assms
proof induction
  case (continue es a e a')
  from app_step_parts [OF continue.hyps(2)] continue.IH show ?case
    by (metis rtranclp.rtrancl_into_rtrancl)
qed simp

lemma boot_facts:
  assumes "boot env f readFile mkdir = Inr a0"
  obtains cfg where "ensure_socket_dir mkdir (apply_flags f cfg) = Inr (app_cfg a0)"
    and "app_mgr a0 = NewSupervisor (cfg_Exporter (app_cfg a0))"
    and "app_disc a0 = Start (fold RegisterProvider
           (map provider_Name (enabled_providers (cfg_Discovery (app_cfg a0)))) NewManager)"
    and "app_handled a0 = 0" and "\<not> app_stopping a0"
  using assms by (auto simp: boot_def split: sum.splits)

lemma boot_disc:
  assumes "boot env f readFile mkdir = Inr a0"
  shows "app_disc a0 = Start (fold RegisterProvider
           (map provider_Name (enabled_providers (cfg_Discovery (app_cfg a0)))) NewManager)"
    and "app_handled a0 = 0"
  using assms by (auto simp: boot_def split: sum.splits)

lemma app_run_reachable:
  assumes "boot env f readFile mkdir = Inr a0" and "app_run env a0 es a"
  shows "manager_reachable (cfg_Exporter (app_cfg a0)) (app_mgr a)"
    and "disc_reachable (fold RegisterProvider
           (map provider_Name (enabled_providers (cfg_Discovery (app_cfg a0)))) NewManager) (app_disc a)"
proof -
  obtain "app_mgr a0 = NewSupervisor (cfg_Exporter (app_cfg a0))"
    "app_disc a0 = Start (fold RegisterProvider
       (map provider_Name (enabled_providers (cfg_Discovery (app_cfg a0)))) NewManager)"
    using boot_facts [OF assms(1)] by metis
  with app_run_parts [OF assms(2)]
  show "manager_reachable (cfg_Exporter (app_cfg a0)) (app_mgr a)"
    "disc_reachable (fold RegisterProvider
       (map provider_Name (enabled_providers (cfg_Discovery (app_cfg a0)))) NewManager) (app_disc a)"
    by (simp_all add: manager_reachable_def disc_reachable_def)
qed

lemma app_run_inv:
  "boot env f readFile mkdir = Inr a0 \<Longrightarrow> app_run env a0 es a \<Longrightarrow> manager_inv (app_mgr a)"
  using app_run_reachable(1) manager_reachable_inv by blast

section \<open>From the providers to the children\<close>

definition reconciling :: "app_event \<Rightarrow> bool" where
  "reconciling e \<longleftrightarrow> e \<in> {Watch, Reload, Terminate}"

text \<open>The last reconciling event was an inventory update.\<close>

definition follows_inventory :: "app_event list \<Rightarrow> bool" where
  "follows_inventory es = (let rs = filter reconciling es in rs \<noteq> [] \<and> last rs = Watch)"

lemma follows_snoc:
  "follows_inventory (es @ [e]) \<longleftrightarrow> e = Watch \<or> (\<not> reconciling e \<and> follows_inventory es)"
  by (auto simp: follows_inventory_def reconciling_def Let_def)

lemma follows_Nil [simp]: "\<not> follows_inventory []"
  by (simp add: follows_inventory_def)

lemma disc_step_received: "disc_step d d' \<Longrightarrow> \<exists>more. sys_received d' = sys_received d @ more"
  by (auto elim!: disc_step_cases)

text \<open>The children are those of the list that was handled last.\<close>

definition tracks :: "app_event list \<Rightarrow> App \<Rightarrow> bool" where
  "tracks es a \<longleftrightarrow>
     app_handled a \<le> length (sys_received (app_disc a))
     \<and> (follows_inventory es \<longrightarrow> 0 < app_handled a
         \<and> gm_keys (m_instances (app_mgr a)) = target_key ` set (sys_received (app_disc a) ! (app_handled a - 1)))"

lemma app_step_tracks:
  assumes "app_step env e a a'" and "manager_inv (app_mgr a)" and "tracks es a"
  shows "tracks (es @ [e]) a'"
  using assms(1)
proof cases
  case (discover d)
  obtain more where "sys_received d = sys_received (app_disc a) @ more"
    using disc_step_received discover by blast
  with discover assms(3) show ?thesis
    by (auto simp: tracks_def follows_snoc nth_append)
next
  case (child i s e s')
  then have "i \<in> gm_keys (m_instances (app_mgr a))" by (simp add: gm_keys_get)
  with child assms(3) show ?thesis by (auto simp: tracks_def follows_snoc)
next
  case (removed_child j e s')
  with assms(3) show ?thesis by (auto simp: tracks_def follows_snoc)
next
  case (health_check results)
  have "gm_keys (m_instances (health_tick results (app_mgr a))) = gm_keys (m_instances (app_mgr a))"
    by (force simp: health_tick_def)
  with health_check assms(3) show ?thesis by (auto simp: tracks_def follows_snoc)
next
  case (watched ri rd checker how)
  from \<open>watch env checker ri rd how _ a = Some a'\<close> obtain ts' where w:
    "Reconcile ri rd how ts' (app_mgr a) = Some (app_mgr a')"
    "target_key ` set ts' = target_key ` set (sys_received (app_disc a) ! app_handled a)"
    "app_disc a' = app_disc a" "app_handled a' = Suc (app_handled a)"
    by (rule watch_facts)
  with Reconcile_keys [OF assms(2) w(1)] watched show ?thesis by (simp add: tracks_def)
next
  case (sighup ri rd readFile checker how)
  have "app_disc a' = app_disc a \<and> app_handled a' = app_handled a"
    using \<open>reload env readFile checker ri rd how a = Some a'\<close> by (rule reload_facts) simp_all
  with sighup assms(3) show ?thesis by (simp add: tracks_def follows_snoc reconciling_def)
next
  case (finish ri how)
  with terminate_facts [of ri how a a'] assms(3) show ?thesis by (simp add: tracks_def follows_snoc reconciling_def)
qed

lemma app_run_tracks:
  assumes "boot env f readFile mkdir = Inr a0" and "app_run env a0 es a"
  shows "tracks es a"
  using assms(2)
proof induction
  case start
  show ?case using boot_facts [OF assms(1)] by (metis tracks_def follows_Nil le0)
next
  case (continue es a e a')
  show ?case by (rule app_step_tracks [OF continue.hyps(2) app_run_inv [OF assms(1) continue.hyps(1)] continue.IH])
qed

text \<open>C1: What the providers report reaches the children. Once the channels are empty and every received
  list has been handled, there is a child for exactly the keys in the last lists of the providers,
  whatever was dropped, reordered or restarted on the way, and whatever the children and the health
  checks did; provided the last reconciliation was an inventory update and not a SIGHUP.\<close>

theorem inventory_reaches_children:
  assumes "boot env f readFile mkdir = Inr a0" and "app_run env a0 es a" and "follows_inventory es"
    and "\<And>p. sys_inbox (app_disc a) p = []" and "notifyCh (sys_mgr (app_disc a)) = []"
    and "app_handled a = length (sys_received (app_disc a))"
    and "sys_sent (app_disc a) p0 = Some ts0"
  shows "gm_keys (m_instances (app_mgr a))
    = {target_key t |t p ts. sys_sent (app_disc a) p = Some ts \<and> t \<in> set ts}"
proof -
  obtain early result where r: "sys_received (app_disc a) = early @ [result]"
    "ID ` set result = {target_key t |t p ts. sys_sent (app_disc a) p = Some ts \<and> t \<in> set ts}"
    "set result \<subseteq> {fill_id t |t p ts. sys_sent (app_disc a) p = Some ts \<and> t \<in> set ts}"
    using settled_reader [OF app_run_reachable(2) [OF assms(1,2)] assms(4,5,7)] by blast
  have "target_key t = ID t" if "t \<in> set result" for t
    using r(3) that by (auto simp: fill_id_key fill_id_ID)
  then have "target_key ` set result = ID ` set result" by (intro image_cong) auto
  moreover have "gm_keys (m_instances (app_mgr a)) = target_key ` set result"
    using app_run_tracks [OF assms(1,2)] assms(3,6) r(1) by (simp add: tracks_def)
  ultimately show ?thesis using r(2) by simp
qed

section \<open>Reloading\<close>

text \<open>C20: SIGHUP reduces the children to the static targets of the new file. Every child of another
  provider is stopped, although discovery still knows its target; the flags given at the start no
  longer apply; and the manager and the HTTP server keep the configuration they were built with.\<close>

theorem SIGHUP_keeps_only_static_targets:
  assumes "boot env f readFile0 mkdir = Inr a0" and "app_run env a0 es a"
    and "reload env readFile checker ri rd how a = Some a'" and "is_range_order ri" and "is_range_order rd"
    and "env_configFile env \<noteq> []"
    and "LoadConfigFile readFile (env_unmarshal env) (env_configFile env) = Inr newCfg"
    and "static_Enabled (disc_Static (cfg_Discovery newCfg))"
  shows "gm_keys (m_instances (app_mgr a')) = target_key ` set (static_Targets (disc_Static (cfg_Discovery newCfg)))
    \<and> list_all dead (m_removed (app_mgr a'))
    \<and> app_disc a' = app_disc a \<and> app_cfg a' = newCfg \<and> app_server a' = app_server a
    \<and> m_config (app_mgr a') = m_config (app_mgr a)"
proof -
  let ?static = "static_Targets (disc_Static (cfg_Discovery newCfg))"
  obtain ts r where e: "enrich_targets (env_urlHost env) checker (NewResolver (cfg_NetNS newCfg)) ?static = (ts, r)"
    by fastforce
  have a': "Reconcile ri rd how ts (app_mgr a) = Some (app_mgr a')" "app_disc a' = app_disc a" "app_cfg a' = newCfg"
    "app_server a' = app_server a"
    using assms(3,6-8) e by (auto simp: reload_def)
  have inv: "manager_inv (app_mgr a)" by (rule app_run_inv [OF assms(1,2)])
  have step: "manager_step (app_mgr a) (app_mgr a')" using assms(4,5) a'(1) manager_step.reconcile by blast
  have "target_key ` set ts = target_key ` set ?static"
    using enrich_targets_keys [of "env_urlHost env" checker "NewResolver (cfg_NetNS newCfg)" ?static] e by simp
  with Reconcile_keys [OF inv a'(1) assms(4,5)] a' manager_step_config [OF step inv] manager_step_inv [OF step inv]
  show ?thesis by (simp add: manager_inv_def)
qed

section \<open>Sockets\<close>

abbreviation socket_dir :: "Config \<Rightarrow> string" where
  "socket_dir cfg \<equiv> exp_SocketDir (cfg_Exporter cfg)"

lemma if_set_socket_dir:
  "socket_dir c \<noteq> [] \<Longrightarrow> (\<And>v c. socket_dir c \<noteq> [] \<Longrightarrow> socket_dir (assign v c) \<noteq> [])
    \<Longrightarrow> socket_dir (if_set flag assign c) \<noteq> []"
  by (simp add: if_set_def split: option.split)

lemma default_socket_dir:
  "socket_dir (if socket_dir c = [] then exporter_update (\<lambda>e. e\<lparr>exp_SocketDir := DefaultSocketDir\<rparr>) c else c) \<noteq> []"
  by (simp add: exporter_update_def DefaultSocketDir_def)

lemma apply_flags_socket_dir: "socket_dir (apply_flags f cfg) \<noteq> []"
  unfolding apply_flags_def Let_def
  by (intro if_set_socket_dir default_socket_dir) (simp_all add: exporter_update_def)

lemma ensure_socket_dir_facts:
  assumes "ensure_socket_dir mkdir cfg = Inr cfg'" and "socket_dir cfg \<noteq> []"
  shows "socket_dir cfg' \<noteq> [] \<and> mkdir (socket_dir cfg')"
proof (cases "mkdir (socket_dir cfg)")
  case True
  with assms show ?thesis by (simp add: ensure_socket_dir_def)
next
  case False
  with assms(1) have "mkdir FallbackSocketDir"
    "cfg' = exporter_update (\<lambda>e. e\<lparr>exp_SocketDir := FallbackSocketDir\<rparr>) cfg"
    by (simp_all add: ensure_socket_dir_def exporter_update_def Let_def split: if_splits)
  then show ?thesis by (simp add: exporter_update_def) (simp add: FallbackSocketDir_def)
qed

lemma boot_socket_dir:
  assumes "boot env f readFile mkdir = Inr a0"
  shows "socket_dir (app_cfg a0) \<noteq> [] \<and> mkdir (socket_dir (app_cfg a0))"
  using assms by (rule boot_facts) (rule ensure_socket_dir_facts [OF _ apply_flags_socket_dir])

lemma app_run_config:
  assumes "boot env f readFile mkdir = Inr a0" and "app_run env a0 es a"
  shows "m_config (app_mgr a) = m_config (app_mgr a0)"
  using assms(2)
proof induction
  case (continue es a e a')
  then show ?case
    using app_step_parts [OF continue.hyps(2)] manager_step_config app_run_inv [OF assms(1) continue.hyps(1)] by metis
qed simp

text \<open>C25: If the program starts at all, it has created the directory of its sockets, the configured one or
  else the fallback, and the socket of every child it ever supervises lies in that directory, also
  after the configuration was reloaded.\<close>

theorem sockets_in_created_directory:
  assumes "boot env f readFile mkdir = Inr a0" and "app_run env a0 es a"
  shows "mkdir (exp_SocketDir (m_config (app_mgr a)))
    \<and> exp_SocketDir (m_config (app_mgr a)) = exp_SocketDir (cfg_Exporter (app_cfg a0))
    \<and> (\<forall>i s. gm_get (m_instances (app_mgr a)) i = Some s \<longrightarrow>
        inst_SocketPath (sup_inst s)
          = filepath_Join (exp_SocketDir (cfg_Exporter (app_cfg a0))) (sanitizeSocketName i @ ''.sock''))"
proof -
  have b: "app_mgr a0 = NewSupervisor (cfg_Exporter (app_cfg a0))"
    using boot_facts [OF assms(1)] by metis
  note dir = boot_socket_dir [OF assms(1)]
  then have c: "m_config (app_mgr a) = cfg_Exporter (app_cfg a0)"
    using app_run_config [OF assms] b by (simp add: NewSupervisor_def)
  with dir app_run_inv [OF assms] show ?thesis by (simp add: manager_inv_def filed_under_def)
qed

section \<open>Shared label maps\<close>


section \<open>A sample run\<close>

definition no_flags :: flags where
  "no_flags = \<lparr>fl_Address = None, fl_CollectInterval = None, fl_FieldsFile = None, fl_LogFormat = None,
     fl_DebugMode = None, fl_WebConfigFile = None, fl_WebReadTimeout = None, fl_WebWriteTimeout = None,
     fl_DcgmExporterBin = None, fl_SocketDir = None, fl_ExporterListenHost = None, fl_PortRangeStart = None,
     fl_PortRangeEnd = None, fl_ShutdownTimeout = None, fl_NetNSDefault = None, fl_NetNSTemplate = None\<rparr>"

definition sample_discovery :: "Config \<Rightarrow> Config" where
  "sample_discovery cfg = cfg\<lparr>cfg_Discovery := (cfg_Discovery cfg)
     \<lparr>disc_Static := \<lparr>static_Enabled = True, static_Targets = [sample_target]\<rparr>,
      disc_Libvirt := (disc_Libvirt (cfg_Discovery cfg))\<lparr>lv_Enabled := False\<rparr>\<rparr>\<rparr>"

definition sample_env :: app_env where
  "sample_env = \<lparr>env_configFile = ''c.yaml'', env_unmarshal = (\<lambda>_ cfg. Some (sample_discovery cfg)),
     env_urlHost = (\<lambda>_. None)\<rparr>"

abbreviation sample_boot :: "app_error + App" where
  "sample_boot \<equiv> boot sample_env no_flags (\<lambda>_. Some []) (\<lambda>d. d = FallbackSocketDir)"

lemma sample_config:
  "LoadConfigFile (\<lambda>_. Some []) (env_unmarshal sample_env) (env_configFile sample_env)
     = Inr ((sample_discovery NewDefaultConfig)\<lparr>cfg_ConfigFile := ''c.yaml''\<rparr>)"
  by (simp add: LoadConfigFile_def sample_env_def)

lemma sample_booted:
  "\<exists>a0. sample_boot = Inr a0 \<and> map provider_Name (enabled_providers (cfg_Discovery (app_cfg a0))) = [''static'']"
proof -
  let ?cfg = "(sample_discovery NewDefaultConfig)\<lparr>cfg_ConfigFile := ''c.yaml''\<rparr>"
  have f: "apply_flags no_flags ?cfg = ?cfg"
    by (simp add: apply_flags_def no_flags_def if_set_def sample_discovery_def NewDefaultConfig_def default_values)
  have d: "map provider_Name (enabled_providers (cfg_Discovery ?cfg)) = [''static'']"
    by (simp add: enabled_providers_def sample_discovery_def NewDefaultConfig_def)
  have e: "ensure_socket_dir (\<lambda>d. d = FallbackSocketDir) ?cfg
      = Inr (exporter_update (\<lambda>e. e\<lparr>exp_SocketDir := FallbackSocketDir\<rparr>) ?cfg)"
    by (simp add: ensure_socket_dir_def exporter_update_def sample_discovery_def NewDefaultConfig_def default_values)
  have "\<exists>a0. sample_boot = Inr a0 \<and> app_cfg a0 = exporter_update (\<lambda>e. e\<lparr>exp_SocketDir := FallbackSocketDir\<rparr>) ?cfg"
    unfolding boot_def sample_config by (simp only: sum.case f e) simp
  then show ?thesis using d by (auto simp: exporter_update_def)
qed

lemma discover_run:
  assumes "disc_step\<^sup>*\<^sup>* d d'" and "app_run env a0 es a" and "app_disc a = d"
  shows "\<exists>n. app_run env a0 (es @ replicate n Discover) (a\<lparr>app_disc := d'\<rparr>)"
  using assms(1)
proof induction
  case base
  have "a\<lparr>app_disc := d\<rparr> = a" using assms(3) by simp
  then show ?case using assms(2) by (metis append_Nil2 replicate_0)
next
  case (step d1 d2)
  then obtain n where "app_run env a0 (es @ replicate n Discover) (a\<lparr>app_disc := d1\<rparr>)" by blast
  moreover have "app_step env Discover (a\<lparr>app_disc := d1\<rparr>) (a\<lparr>app_disc := d2\<rparr>)"
    using app_step.discover [of "a\<lparr>app_disc := d1\<rparr>" d2 env] step.hyps(2) by simp
  ultimately have "app_run env a0 ((es @ replicate n Discover) @ [Discover]) (a\<lparr>app_disc := d2\<rparr>)"
    by (rule app_run.continue)
  then show ?case by (metis append_assoc replicate_append_same replicate_Suc)
qed

lemma sample_app_run:
  "\<exists>a0 es a. sample_boot = Inr a0 \<and> app_run sample_env a0 es a \<and> follows_inventory es
     \<and> sys_inbox (app_disc a) = (\<lambda>_. []) \<and> notifyCh (sys_mgr (app_disc a)) = []
     \<and> app_handled a = length (sys_received (app_disc a))
     \<and> sys_sent (app_disc a) = [''static'' \<mapsto> [sample_target]]"
proof -
  obtain a0 where b: "sample_boot = Inr a0"
    "map provider_Name (enabled_providers (cfg_Discovery (app_cfg a0))) = [''static'']"
    using sample_booted by (elim exE conjE)
  obtain d where d: "disc_reachable (fold RegisterProvider [''static''] NewManager) d" "sys_inbox d = (\<lambda>_. [])"
    "notifyCh (sys_mgr d) = []" "sys_sent d = [''static'' \<mapsto> [sample_target]]" "length (sys_received d) = 1"
    using sample_run [of "''static''"] by (elim exE conjE)
  have a0: "app_disc a0 = Start (fold RegisterProvider [''static''] NewManager)" "app_handled a0 = 0"
    using boot_disc [OF b(1)] by (simp_all only: b(2))
  obtain n where "app_run sample_env a0 ([] @ replicate n Discover) (a0\<lparr>app_disc := d\<rparr>)"
    using discover_run [OF d(1) [unfolded disc_reachable_def] app_run.start a0(1), of sample_env] by (elim exE)
  then obtain a where r: "app_run sample_env a0 (replicate n Discover) a" "app_disc a = d" "app_handled a = 0"
    using a0(2) by simp
  obtain ts r' where e: "enrich_targets (env_urlHost sample_env) None (app_resolver a) (sys_received d ! 0) = (ts, r')"
    by fastforce
  obtain m where "Reconcile (\<lambda>x. x) (\<lambda>x. x) all_time_out ts (app_mgr a) = Some m"
    using Reconcile_total [of "\<lambda>x. x"] by blast
  then obtain a' where w: "watch sample_env None (\<lambda>x. x) (\<lambda>x. x) all_time_out (sys_received d ! 0) a = Some a'"
    "app_disc a' = d" "app_handled a' = 1"
    using r(2,3) by (simp add: watch_def e)
  have "app_step sample_env Watch a a'"
    by (rule app_step.watched [of a "\<lambda>x. x" "\<lambda>x. x"]) (use w r(2,3) d(5) in auto)
  then have "app_run sample_env a0 (replicate n Discover @ [Watch]) a'"
    using r(1) by (rule app_run.continue [rotated])
  moreover have "follows_inventory (replicate n Discover @ [Watch])" by (simp add: follows_snoc)
  ultimately show ?thesis using b(1) d w by metis
qed

theorem inventory_reaches_children_witness:
  "\<exists>a0 es a. sample_boot = Inr a0 \<and> app_run sample_env a0 es a \<and> gm_keys (m_instances (app_mgr a)) = {''vm1''}"
proof -
  obtain a0 es a where r: "sample_boot = Inr a0" "app_run sample_env a0 es a" "follows_inventory es"
    "sys_inbox (app_disc a) = (\<lambda>_. [])" "notifyCh (sys_mgr (app_disc a)) = []"
    "app_handled a = length (sys_received (app_disc a))"
    "sys_sent (app_disc a) = [''static'' \<mapsto> [sample_target]]"
    using sample_app_run by (elim exE conjE)
  have "gm_keys (m_instances (app_mgr a))
      = {target_key t |t p ts. sys_sent (app_disc a) p = Some ts \<and> t \<in> set ts}"
    by (rule inventory_reaches_children [OF r(1-3) _ r(5,6), of "''static''" "[sample_target]"]) (simp_all add: r(4,7))
  also have "\<dots> = target_key ` set [sample_target]" by (auto simp: r(7) split: if_splits)
  also have "\<dots> = {''vm1''}" by (simp add: target_key_def sample_target_def)
  finally show ?thesis using r(1,2) by blast
qed

theorem sockets_in_created_directory_witness:
  "\<exists>a0 es a. sample_boot = Inr a0 \<and> app_run sample_env a0 es a \<and> follows_inventory es
     \<and> exp_SocketDir (m_config (app_mgr a)) = FallbackSocketDir"
proof -
  obtain a0 es a where r: "sample_boot = Inr a0" "app_run sample_env a0 es a" "follows_inventory es"
    using sample_app_run by (elim exE conjE)
  from sockets_in_created_directory [OF r(1,2)] r show ?thesis by blast
qed

theorem SIGHUP_keeps_only_static_targets_witness:
  "\<exists>a0 a'. sample_boot = Inr a0
     \<and> reload sample_env (\<lambda>_. Some []) None (\<lambda>x. x) (\<lambda>x. x) all_time_out a0 = Some a'
     \<and> gm_keys (m_instances (app_mgr a')) = {''vm1''} \<and> socket_dir (app_cfg a') \<noteq> socket_dir (app_cfg a0)"
proof -
  obtain a0 where b: "sample_boot = Inr a0" using sample_booted by (elim exE conjE)
  let ?cfg = "(sample_discovery NewDefaultConfig)\<lparr>cfg_ConfigFile := ''c.yaml''\<rparr>"
  have s: "static_Enabled (disc_Static (cfg_Discovery ?cfg))" "static_Targets (disc_Static (cfg_Discovery ?cfg)) = [sample_target]"
    by (simp_all add: sample_discovery_def)
  obtain ts r where e: "enrich_targets (env_urlHost sample_env) None (NewResolver (cfg_NetNS ?cfg)) [sample_target] = (ts, r)"
    by fastforce
  obtain m where "Reconcile (\<lambda>x. x) (\<lambda>x. x) all_time_out ts (app_mgr a0) = Some m"
    using Reconcile_total [of "\<lambda>x. x"] by blast
  then obtain a' where a': "reload sample_env (\<lambda>_. Some []) None (\<lambda>x. x) (\<lambda>x. x) all_time_out a0 = Some a'"
    using e s unfolding reload_def sample_config by (simp add: Let_def) (simp add: sample_env_def)
  have k: "env_configFile sample_env \<noteq> []" by (simp add: sample_env_def)
  have "gm_keys (m_instances (app_mgr a')) = target_key ` set [sample_target]" "app_cfg a' = ?cfg"
    using SIGHUP_keeps_only_static_targets [OF b app_run.start a' range_order_id range_order_id k sample_config s(1)] s(2)
    by simp_all
  moreover have "socket_dir (app_cfg a0) = FallbackSocketDir"
    using boot_socket_dir [OF b] by simp
  ultimately show ?thesis using b a'
    by (intro exI [of _ a0] exI [of _ a'])
      (simp add: target_key_def sample_target_def sample_discovery_def NewDefaultConfig_def default_values)
qed


end
