(* ===== verification/Cli.thy ===== *)
theory Cli
  imports App
begin

text \<open>
  The command line of package \<open>pkg/cmd\<close> (\<open>app.go\<close>): the flags \<open>NewApp\<close> declares for the library
  \<open>urfave/cli\<close>, with their default values and environment variables (not their help texts), and
  the choice of a log handler.
\<close>

section \<open>Declared flags\<close>

datatype flag_value =
    StringValue string
  | IntValue int
  | BoolValue bool
  | DurationValue int

record cli_flag =
  cf_Name :: string
  cf_Aliases :: "string list"
  cf_Value :: flag_value
  cf_EnvVars :: "string list"

definition flag :: "string \<Rightarrow> string list \<Rightarrow> flag_value \<Rightarrow> string list \<Rightarrow> cli_flag" where
  "flag name aliases v env = \<lparr>cf_Name = name, cf_Aliases = aliases, cf_Value = v, cf_EnvVars = env\<rparr>"

definition NewApp :: "cli_flag list" where
  "NewApp =
     [flag ''config-file'' [] (StringValue []) [''DCGM_SUPERVISOR_CONFIG_FILE''],
      flag ''address'' [''a''] (StringValue DefaultAddress) [''DCGM_SUPERVISOR_LISTEN'', ''DCGM_EXPORTER_LISTEN''],
      flag ''collect-interval'' [''c''] (IntValue DefaultCollectInterval)
        [''DCGM_SUPERVISOR_INTERVAL'', ''DCGM_EXPORTER_INTERVAL''],
      flag ''collectors'' [''f''] (StringValue DefaultCollectorsFile)
        [''DCGM_SUPERVISOR_COLLECTORS'', ''DCGM_EXPORTER_COLLECTORS''],
      flag ''web-config-file'' [] (StringValue []) [''DCGM_SUPERVISOR_WEB_CONFIG_FILE''],
      flag ''web-read-timeout'' [] (DurationValue DefaultWebReadTimeout) [''DCGM_SUPERVISOR_WEB_READ_TIMEOUT''],
      flag ''web-write-timeout'' [] (DurationValue DefaultWebWriteTimeout) [''DCGM_SUPERVISOR_WEB_WRITE_TIMEOUT''],
      flag ''log-format'' [] (StringValue ''text'') [''DCGM_SUPERVISOR_LOG_FORMAT''],
      flag ''debug'' [] (BoolValue False) [''DCGM_SUPERVISOR_DEBUG''],
      flag ''dcgm-exporter-bin'' [] (StringValue DefaultExporterBinary) [''DCGM_EXPORTER_BINARY''],
      flag ''socket-dir'' [] (StringValue DefaultSocketDir) [''DCGM_SUPERVISOR_SOCKET_DIR''],
      flag ''exporter-listen-host'' [] (StringValue DefaultExporterListenHost)
        [''DCGM_SUPERVISOR_EXPORTER_LISTEN_HOST''],
      flag ''port-range-start'' [] (IntValue DefaultPortRangeStart) [''DCGM_SUPERVISOR_PORT_RANGE_START''],
      flag ''port-range-end'' [] (IntValue DefaultPortRangeEnd) [''DCGM_SUPERVISOR_PORT_RANGE_END''],
      flag ''shutdown-timeout'' [] (DurationValue DefaultShutdownTimeout) [''DCGM_SUPERVISOR_SHUTDOWN_TIMEOUT''],
      flag ''netns-default'' [] (StringValue []) [''DCGM_SUPERVISOR_NETNS_DEFAULT''],
      flag ''netns-template'' [] (StringValue []) [''DCGM_SUPERVISOR_NETNS_TEMPLATE'']]"

text \<open>The accessors \<open>c.String\<close>, \<open>c.Int\<close>, \<open>c.Bool\<close> and \<open>c.Duration\<close> on a table of declared flags.\<close>

definition flag_named :: "string \<Rightarrow> cli_flag list \<Rightarrow> flag_value option" where
  "flag_named name fs = map_option cf_Value (find (\<lambda>f. cf_Name f = name) fs)"

definition cli_String :: "string \<Rightarrow> cli_flag list \<Rightarrow> string option" where
  "cli_String name fs = (case flag_named name fs of Some (StringValue v) \<Rightarrow> Some v | _ \<Rightarrow> None)"

definition cli_Int :: "string \<Rightarrow> cli_flag list \<Rightarrow> int option" where
  "cli_Int name fs = (case flag_named name fs of Some (IntValue v) \<Rightarrow> Some v | _ \<Rightarrow> None)"

definition cli_Bool :: "string \<Rightarrow> cli_flag list \<Rightarrow> bool option" where
  "cli_Bool name fs = (case flag_named name fs of Some (BoolValue v) \<Rightarrow> Some v | _ \<Rightarrow> None)"

definition cli_Duration :: "string \<Rightarrow> cli_flag list \<Rightarrow> int option" where
  "cli_Duration name fs = (case flag_named name fs of Some (DurationValue v) \<Rightarrow> Some v | _ \<Rightarrow> None)"

text \<open>The flags of a command line that sets every flag of a table.\<close>

definition all_set :: "cli_flag list \<Rightarrow> flags" where
  "all_set fs =
     \<lparr>fl_Address = cli_String ''address'' fs, fl_CollectInterval = cli_Int ''collect-interval'' fs,
      fl_FieldsFile = cli_String ''collectors'' fs, fl_LogFormat = cli_String ''log-format'' fs,
      fl_DebugMode = cli_Bool ''debug'' fs, fl_WebConfigFile = cli_String ''web-config-file'' fs,
      fl_WebReadTimeout = cli_Duration ''web-read-timeout'' fs,
      fl_WebWriteTimeout = cli_Duration ''web-write-timeout'' fs,
      fl_DcgmExporterBin = cli_String ''dcgm-exporter-bin'' fs, fl_SocketDir = cli_String ''socket-dir'' fs,
      fl_ExporterListenHost = cli_String ''exporter-listen-host'' fs,
      fl_PortRangeStart = cli_Int ''port-range-start'' fs, fl_PortRangeEnd = cli_Int ''port-range-end'' fs,
      fl_ShutdownTimeout = cli_Duration ''shutdown-timeout'' fs,
      fl_NetNSDefault = cli_String ''netns-default'' fs, fl_NetNSTemplate = cli_String ''netns-template'' fs\<rparr>"

section \<open>Logging\<close>

datatype log_level = LevelDebug | LevelInfo
datatype log_handler = JSONHandler log_level | TextHandler log_level

definition configureLogger :: "string \<Rightarrow> bool \<Rightarrow> log_handler" where
  "configureLogger logFormat debug =
     (let level = (if debug then LevelDebug else LevelInfo)
      in if logFormat = ''json'' then JSONHandler level else TextHandler level)"

section \<open>Defaults agree\<close>

lemma all_set_defaults:
  "all_set NewApp =
     \<lparr>fl_Address = Some DefaultAddress, fl_CollectInterval = Some DefaultCollectInterval,
      fl_FieldsFile = Some DefaultCollectorsFile, fl_LogFormat = Some ''text'',
      fl_DebugMode = Some False, fl_WebConfigFile = Some [],
      fl_WebReadTimeout = Some DefaultWebReadTimeout, fl_WebWriteTimeout = Some DefaultWebWriteTimeout,
      fl_DcgmExporterBin = Some DefaultExporterBinary, fl_SocketDir = Some DefaultSocketDir,
      fl_ExporterListenHost = Some DefaultExporterListenHost,
      fl_PortRangeStart = Some DefaultPortRangeStart, fl_PortRangeEnd = Some DefaultPortRangeEnd,
      fl_ShutdownTimeout = Some DefaultShutdownTimeout,
      fl_NetNSDefault = Some [], fl_NetNSTemplate = Some []\<rparr>"
  by (simp add: all_set_def cli_String_def cli_Int_def cli_Bool_def cli_Duration_def flag_named_def NewApp_def flag_def)

text \<open>
  The defaults that the command line declares are those of the configuration: giving every flag
  its declared default changes nothing in a program that is started without a configuration file.
\<close>

lemma flag_defaults_agree: "apply_flags (all_set NewApp) NewDefaultConfig = NewDefaultConfig"
  unfolding all_set_defaults
  by (simp add: apply_flags_def if_set_def exporter_update_def NewDefaultConfig_def zero_NetNSConfig_def)
    (simp add: DefaultSocketDir_def)

end
